(* ===== verification/Gradido_Prelude.thy ===== *)
theory Gradido_Prelude
  imports Main "HOL-Library.Word" "HOL-Library.Finite_Map" "HOL-Library.List_Lexorder"
begin

text \<open>
  Shared vocabulary of the development: the machine integers and byte strings of the C++
  sources, the outcome of an operation that may throw or run into undefined behaviour, the
  part of the C++ standard library the sources use (\<open>std::map\<close>, C strings, block copies), and
  the generic lemmas the component theories rely on.
\<close>

section \<open>Types\<close>

type_synonym u8 = "8 word"
type_synonym u16 = "16 word"
type_synonym u32 = "32 word"
type_synonym u64 = "64 word"
type_synonym i32 = "32 word"
type_synonym i64 = "64 word"
type_synonym bytes = "u8 list"

text \<open>
  A call ends normally, throws (the argument is the text given to \<open>PRECISE_THROW\<close>), or has no
  defined meaning in C++ (the argument names the offending construct).
\<close>

datatype fault = Throw string | Undefined string

type_synonym 'a res = "fault + 'a"

definition bind_res :: "'a res \<Rightarrow> ('a \<Rightarrow> 'b res) \<Rightarrow> 'b res" where
  "bind_res m f = (case m of Inl e \<Rightarrow> Inl e | Inr x \<Rightarrow> f x)"

definition ok :: "'a res \<Rightarrow> bool" where
  "ok m \<longleftrightarrow> (case m of Inl _ \<Rightarrow> False | Inr _ \<Rightarrow> True)"

definition undefined_behaviour :: "'a res \<Rightarrow> bool" where
  "undefined_behaviour m \<longleftrightarrow> (case m of Inl (Undefined _) \<Rightarrow> True | _ \<Rightarrow> False)"

named_theorems res_simps \<open>evaluation rules of the outcome type\<close>
named_theorems word_value \<open>values of machine words\<close>
named_theorems store_simps \<open>lookup rules of maps and block copies\<close>

lemma bind_res_simps [simp, res_simps]:
  "bind_res (Inl e) f = Inl e"
  "bind_res (Inr x) f = f x"
  by (simp_all add: bind_res_def)

lemma ok_simps [simp, res_simps]:
  "ok (Inr x)"
  "\<not> ok (Inl e)"
  by (simp_all add: ok_def)

lemma undefined_behaviour_simps [simp, res_simps]:
  "\<not> undefined_behaviour (Inr x)"
  "\<not> undefined_behaviour (Inl (Throw s))"
  "undefined_behaviour (Inl (Undefined s))"
  by (simp_all add: undefined_behaviour_def)

lemma bind_res_Inr_iff [res_simps]:
  "bind_res m f = Inr y \<longleftrightarrow> (\<exists>x. m = Inr x \<and> f x = Inr y)"
  by (cases m) auto

lemma bind_res_cong [fundef_cong]:
  "m = n \<Longrightarrow> (\<And>x. n = Inr x \<Longrightarrow> f x = g x) \<Longrightarrow> bind_res m f = bind_res n g"
  by (cases n) auto

lemma ok_iff: "ok m \<longleftrightarrow> (\<exists>x. m = Inr x)"
  by (cases m) auto


section \<open>The standard library the sources use\<close>

text \<open>
  \<open>std::map::insert\<close> keeps an existing entry; an assignment through an iterator or \<open>[]\<close>
  replaces it (\<^const>\<open>fmupd\<close>), and iteration visits the keys in ascending order.
\<close>

definition std_insert :: "'k \<Rightarrow> 'v \<Rightarrow> ('k, 'v) fmap \<Rightarrow> ('k, 'v) fmap" where
  "std_insert k v m = (case fmlookup m k of None \<Rightarrow> fmupd k v m | Some _ \<Rightarrow> m)"

definition std_keys :: "('k::linorder, 'v) fmap \<Rightarrow> 'k list" where
  "std_keys m = sorted_list_of_fset (fmdom m)"

text \<open>A fixed size field read as a C string: up to the first null byte, if there is one.\<close>

definition c_str :: "bytes \<Rightarrow> bytes res" where
  "c_str bs = (if 0 \<in> set bs then Inr (takeWhile (\<lambda>b. b \<noteq> 0) bs)
               else Inl (Undefined ''unterminated C string''))"

text \<open>\<open>memcpy\<close> of a string into a zeroed field of \<open>n\<close> bytes; a longer string overruns it.\<close>

definition copy_field :: "nat \<Rightarrow> bytes \<Rightarrow> bytes res" where
  "copy_field n s = (if length s \<le> n then Inr (s @ replicate (n - length s) 0)
                     else Inl (Undefined ''buffer overrun''))"

text \<open>Replacing the elements from position \<open>p\<close> on by \<open>ys\<close> (a block write into an array).\<close>

definition overwrite :: "nat \<Rightarrow> 'a list \<Rightarrow> 'a list \<Rightarrow> 'a list" where
  "overwrite p ys xs = take p xs @ ys @ drop (p + length ys) xs"

lemma fmlookup_std_insert [simp, store_simps]:
  "fmlookup (std_insert k v m) k' =
     (if k = k' \<and> fmlookup m k = None then Some v else fmlookup m k')"
  by (auto simp: std_insert_def split: option.splits)

lemma std_insert_present [simp, store_simps]:
  "fmlookup m k = Some w \<Longrightarrow> std_insert k v m = m"
  by (simp add: std_insert_def)

lemma std_insert_absent [store_simps]:
  "fmlookup m k = None \<Longrightarrow> std_insert k v m = fmupd k v m"
  by (simp add: std_insert_def)

lemma set_std_keys [simp]: "set (std_keys m) = {k. fmlookup m k \<noteq> None}"
  by (auto simp: std_keys_def fmlookup_dom_iff)

lemma std_keys_sorted [simp]: "sorted (std_keys m)" "distinct (std_keys m)"
  by (simp_all add: std_keys_def sorted_list_of_fset.rep_eq)

lemma length_overwrite [simp]:
  "p + length ys \<le> length xs \<Longrightarrow> length (overwrite p ys xs) = length xs"
  by (simp add: overwrite_def)

lemma overwrite_all [simp]: "length ys = length xs \<Longrightarrow> overwrite 0 ys xs = ys"
  by (simp add: overwrite_def)

lemma overwrite_single: "p < length xs \<Longrightarrow> overwrite p [y] xs = xs[p := y]"
  by (simp add: overwrite_def upd_conv_take_nth_drop)

lemma copy_field_length: "copy_field n s = Inr f \<Longrightarrow> length f = n"
  by (auto simp: copy_field_def split: if_splits)

lemma takeWhile_padded: "0 \<notin> set s \<Longrightarrow> takeWhile (\<lambda>c. c \<noteq> (0 :: u8)) (s @ replicate k 0) = s"
  by (subst takeWhile_append2) (auto simp: takeWhile_replicate)

text \<open>A string without null characters that leaves room for the terminator survives the field.\<close>

lemma c_str_copy_field:
  assumes "0 \<notin> set s" "length s < n"
  shows "bind_res (copy_field n s) c_str = Inr s"
proof -
  have "takeWhile (\<lambda>b. b \<noteq> 0) (s @ replicate (n - length s) 0) = s"
    using assms(1) by (rule takeWhile_padded)
  then show ?thesis
    using assms by (simp add: copy_field_def c_str_def)
qed


section \<open>Generic lemmas\<close>

lemma list_update_append_at:
  "length xs = n \<Longrightarrow> (xs @ y # ys)[n := z] = xs @ z # ys"
  by (simp add: list_update_append)

lemma takeWhile_append_stop:
  "(\<And>x. x \<in> set xs \<Longrightarrow> P x) \<Longrightarrow> \<not> P y \<Longrightarrow> takeWhile P (xs @ y # ys) = xs"
  by (subst takeWhile_append2) auto

lemma length_filter_update:
  "i < length xs \<Longrightarrow>
   length (filter P (xs[i := y])) + (if P (xs ! i) then 1 else 0)
     = length (filter P xs) + (if P y then 1 else 0)"
proof (induction xs arbitrary: i)
  case (Cons x xs)
  then show ?case
    by (cases i) (auto split: if_splits)
qed simp

lemma mult_add_inject:
  fixes a b k r s :: nat
  assumes "a * k + r = b * k + s" "r < k" "s < k"
  shows "a = b \<and> r = s"
proof -
  have "(a * k + r) div k = a" "(b * k + s) div k = b"
    using assms(2,3) by simp_all
  then show ?thesis
    using assms by simp
qed

lemma mod_mult_split:
  fixes q k m r :: nat
  assumes "r < k"
  shows "(q * k + r) mod (m * k) = q mod m * k + r"
  using assms mod_mult2_eq [of "q * k + r" k m] by (simp add: mult.commute)

lemma sint_inject [word_value]: "sint a = sint (b :: 'a::len word) \<longleftrightarrow> a = b"
  by (auto intro: signed_word_eqI)

lemma sint_minus_in_range [word_value]:
  fixes a b :: "'a::len word"
  assumes "- (2 ^ (LENGTH('a) - 1)) \<le> sint a - sint b" "sint a - sint b < 2 ^ (LENGTH('a) - 1)"
  shows "sint (a - b) = sint a - sint b"
  using assms by (simp add: sint_word_ariths signed_take_bit_int_eq_self)

lemma uint_int_unat: "uint a = int (unat a)"
  by simp

lemma sint_eq_unat [word_value]:
  assumes "unat (a :: 'a::len word) < 2 ^ (LENGTH('a) - 1)"
  shows "sint a = int (unat a)"
proof -
  have "int (unat a) < int (2 ^ (LENGTH('a) - 1))"
    using assms by (simp only: of_nat_less_iff)
  then have "uint a < 2 ^ (LENGTH('a) - Suc 0)"
    by simp
  then have "signed_take_bit (LENGTH('a) - Suc 0) (uint a) = uint a"
    by (intro signed_take_bit_int_eq_self) (auto intro: order_trans [of _ 0])
  then show ?thesis
    by (simp add: sint_uint)
qed

lemma unat_word_of_int [word_value]:
  "0 \<le> k \<Longrightarrow> k < 2 ^ LENGTH('a) \<Longrightarrow> unat (word_of_int k :: 'a::len word) = nat k"
  by (metis unat_eq_nat_uint uint_word_of_int_eq take_bit_int_eq_self)

lemma unat_plus_if_small [word_value]:
  "unat a + unat b < 2 ^ LENGTH('a) \<Longrightarrow> unat (a + b :: 'a::len word) = unat a + unat b"
  by (simp add: unat_word_ariths)

lemma unat_sub_le [word_value]:
  "unat b \<le> unat a \<Longrightarrow> unat (a - b :: 'a::len word) = unat a - unat b"
  by (simp add: unat_sub word_le_nat_alt)

end
