(* ===== verification/Memory_Managers.thy ===== *)
theory Memory_Managers
  imports Gradido_Prelude
begin

text \<open>
  \<open>src/memory_managers.h\<close>: the pool of large zeroed objects the file tiles take their buffers
  from. The three intrusive item lists of \<open>BigObjectMemoryPool\<close> are lists of items, first item
  first; an item carries the memory block it holds, if any. The pool is generic in the block
  type; \<open>zero\<close> is a block full of zero bytes.
\<close>

section \<open>The pool\<close>

type_synonym 'b Item = "'b option"

record 'b BigObjectMemoryPool =
  no_payload :: "'b Item list"
  ready :: "'b Item list"
  used :: "'b Item list"

definition pool_new :: "'b BigObjectMemoryPool" where
  "pool_new = \<lparr>no_payload = [], ready = [], used = []\<rparr>"

text \<open>\<open>ItemList::dispose_first(into)\<close>: the block is freed, the item is kept for later use.\<close>

definition dispose_first :: "'b Item list \<Rightarrow> 'b Item list \<Rightarrow> 'b Item list \<times> 'b Item list" where
  "dispose_first from into = (case from of [] \<Rightarrow> ([], into) | _ # p \<Rightarrow> (p, None # into))"

text \<open>
  \<open>release_unused\<close>: \<open>rc\<close> is the integer part of the product of the ratio and \<open>used.count\<close>, which
  is 0 for a negative ratio; the loop runs from \<open>rc\<close> to the number of ready items.
\<close>

definition release_unused :: "nat \<Rightarrow> 'b BigObjectMemoryPool \<Rightarrow> 'b BigObjectMemoryPool" where
  "release_unused rc p =
     (let (r, n) = ((\<lambda>(r, n). dispose_first r n) ^^ (length (ready p) - rc))
                     (ready p, no_payload p)
      in p\<lparr>ready := r, no_payload := n\<rparr>)"

text \<open>\<open>get\<close>; the recursive call after an allocation of \<open>block_size\<close> fresh items is unfolded once.\<close>

definition pool_take :: "'b \<Rightarrow> 'b BigObjectMemoryPool \<Rightarrow> ('b \<times> 'b BigObjectMemoryPool) res" where
  "pool_take zero p =
     (case ready p of
        item # rest \<Rightarrow>
          (case item of
             Some _ \<Rightarrow> Inr (zero, p\<lparr>ready := rest, used := None # used p\<rparr>)
           | None \<Rightarrow> Inl (Undefined ''ready item without payload''))
      | [] \<Rightarrow>
          (case no_payload p of
             _ # rest \<Rightarrow> Inr (zero, p\<lparr>no_payload := rest, used := None # used p\<rparr>)
           | [] \<Rightarrow> Inl (Undefined ''endless recursion'')))"

definition pool_get :: "nat \<Rightarrow> 'b \<Rightarrow> 'b BigObjectMemoryPool \<Rightarrow> ('b \<times> 'b BigObjectMemoryPool) res" where
  "pool_get block_size zero p =
     (if ready p = [] \<and> no_payload p = []
      then pool_take zero (p\<lparr>no_payload := replicate block_size None\<rparr>)
      else pool_take zero p)"

definition pool_release :: "'b \<Rightarrow> 'b BigObjectMemoryPool \<Rightarrow> 'b BigObjectMemoryPool res" where
  "pool_release obj p =
     (case used p of
        [] \<Rightarrow> Inl (Throw ''BigObjectMemoryPool: cannot release'')
      | _ # rest \<Rightarrow> Inr (p\<lparr>used := rest, ready := Some obj # ready p\<rparr>))"


section \<open>Invariant\<close>

text \<open>Ready items hold a block, the other items hold none.\<close>

definition pool_ok :: "'b BigObjectMemoryPool \<Rightarrow> bool" where
  "pool_ok p \<longleftrightarrow> None \<notin> set (ready p) \<and> set (no_payload p) \<subseteq> {None} \<and> set (used p) \<subseteq> {None}"

definition pool_items :: "'b BigObjectMemoryPool \<Rightarrow> nat" where
  "pool_items p = length (ready p) + length (no_payload p) + length (used p)"

lemma pool_ok_new [simp]: "pool_ok pool_new"
  by (simp add: pool_ok_def pool_new_def)

lemma pool_get_ok:
  assumes "pool_ok p" "0 < bs"
  shows "\<exists>q. pool_get bs zero p = Inr (zero, q) \<and> pool_ok q \<and> length (used q) = length (used p) + 1
    \<and> pool_items p \<le> pool_items q"
  using assms
  by (auto simp: pool_get_def pool_take_def pool_ok_def pool_items_def neq_Nil_conv gr0_conv_Suc
      split: list.splits option.splits)

lemma pool_get_cases:
  assumes "pool_ok p" "0 < bs"
  obtains q where "pool_get bs zero p = Inr (zero, q)" "pool_ok q"
    "length (used q) = length (used p) + 1"
  using pool_get_ok [OF assms] by blast

lemma pool_release_ok:
  assumes "pool_ok p" "used p \<noteq> []"
  shows "\<exists>q. pool_release b p = Inr q \<and> pool_ok q \<and> length (used q) = length (used p) - 1
    \<and> length (ready q) = length (ready p) + 1 \<and> pool_items q = pool_items p"
  using assms by (auto simp: pool_release_def pool_ok_def pool_items_def neq_Nil_conv)

lemma dispose_first_iterate:
  "n \<le> length r \<Longrightarrow>
   ((\<lambda>(r, n). dispose_first r n) ^^ n) (r, m) = (drop n r, replicate n None @ m)"
proof (induction n arbitrary: r m)
  case (Suc n)
  then obtain x xs where "r = x # xs"
    by (cases r) auto
  with Suc show ?case
    by (simp add: funpow_Suc_right dispose_first_def del: funpow.simps)
      (simp add: replicate_app_Cons_same)
qed simp

lemma release_unused_ready:
  "ready (release_unused rc p) = drop (length (ready p) - rc) (ready p)"
  "no_payload (release_unused rc p) = replicate (length (ready p) - rc) None @ no_payload p"
  "used (release_unused rc p) = used p"
  by (simp_all add: release_unused_def dispose_first_iterate)

lemma release_unused_ok:
  assumes "pool_ok p"
  shows "pool_ok (release_unused rc p)" "pool_items (release_unused rc p) = pool_items p"
    "length (ready (release_unused rc p)) \<le> rc"
  using assms
  by (auto simp: pool_ok_def pool_items_def release_unused_ready dest: in_set_dropD)

end
