(* ===== verification/Gradido_Def.thy ===== *)
theory Gradido_Def
  imports Gradido_Prelude
begin

text \<open>
  The on-disk data structures of \<open>src/blockchain_gradido_def.h\<close>: amounts, timestamps, the
  transaction kinds with their calculated fields, and the records of the three blockchains.
  Packed structs are records, enumerations are datatypes with their numeric codes, and a union
  that is selected by a type byte is a datatype whose constructors are the alternatives.
  The operators the structs define (amount and timestamp arithmetic and comparison) are the
  operations of this component.
\<close>

section \<open>Constants\<close>

definition GRADIDO_BLOCK_SIZE :: nat where "GRADIDO_BLOCK_SIZE = 1000"
definition HEDERA_RUNNING_HASH_LENGTH :: nat where "HEDERA_RUNNING_HASH_LENGTH = 48"
definition MAX_RECORD_PARTS :: nat where "MAX_RECORD_PARTS = 5"
definition SIGNATURES_IN_MAIN_PART :: nat where "SIGNATURES_IN_MAIN_PART = 1"
definition NON_SIGNATURE_PARTS :: nat where "NON_SIGNATURE_PARTS = 2"
definition MINIMUM_SIGNATURE_COUNT :: nat where "MINIMUM_SIGNATURE_COUNT = 1"
definition PUB_KEY_LENGTH :: nat where "PUB_KEY_LENGTH = 32"
definition SIGNATURE_LENGTH :: nat where "SIGNATURE_LENGTH = 64"
definition MEMO_MAIN_SIZE :: nat where "MEMO_MAIN_SIZE = 16"
definition MEMO_FULL_SIZE :: nat where "MEMO_FULL_SIZE = 150"
definition GROUP_ALIAS_LENGTH :: nat where "GROUP_ALIAS_LENGTH = 16"
definition BLOCKCHAIN_CHECKSUM_SIZE :: nat where "BLOCKCHAIN_CHECKSUM_SIZE = 64"
definition GRADIDO_VALUE_DECIMAL_AMOUNT_BASE :: nat where
  "GRADIDO_VALUE_DECIMAL_AMOUNT_BASE = 1000000"


section \<open>Amounts\<close>

datatype GradidoValue = GradidoValue (amount: u64) (decimal_amount: u32)

definition gv_zero :: GradidoValue where
  "gv_zero = GradidoValue 0 0"

text \<open>\<open>operator+\<close>: both fields are added at their width, then one carry is propagated.\<close>

definition gv_plus :: "GradidoValue \<Rightarrow> GradidoValue \<Rightarrow> GradidoValue" where
  "gv_plus a b =
     (let res_amount = amount a + amount b;
          res_decimal = decimal_amount a + decimal_amount b
      in if of_nat GRADIDO_VALUE_DECIMAL_AMOUNT_BASE \<le> res_decimal
         then GradidoValue (res_amount + 1)
                (res_decimal - of_nat GRADIDO_VALUE_DECIMAL_AMOUNT_BASE)
         else GradidoValue res_amount res_decimal)"

text \<open>The two comparison operators.\<close>

definition gv_less_amount :: "GradidoValue \<Rightarrow> u64 \<Rightarrow> bool" where
  "gv_less_amount a v \<longleftrightarrow> amount a < v"

definition gv_less :: "GradidoValue \<Rightarrow> GradidoValue \<Rightarrow> bool" where
  "gv_less a b \<longleftrightarrow> amount a < amount b \<or>
     (amount a = amount b \<and> decimal_amount a < decimal_amount b)"

definition gv_minus :: "GradidoValue \<Rightarrow> GradidoValue \<Rightarrow> GradidoValue res" where
  "gv_minus a b =
     (if gv_less a b then Inl (Throw ''GradidoValue less than zero'')
      else let res_amount = amount a - amount b
           in if decimal_amount b \<le> decimal_amount a
              then Inr (GradidoValue res_amount (decimal_amount a - decimal_amount b))
              else Inr (GradidoValue (res_amount - 1)
                     (of_nat GRADIDO_VALUE_DECIMAL_AMOUNT_BASE
                        - (decimal_amount b - decimal_amount a))))"

definition gv_plus_assign :: "GradidoValue \<Rightarrow> GradidoValue \<Rightarrow> GradidoValue" where
  "gv_plus_assign a b = gv_plus a b"

text \<open>The amount in millionths, and the well-formedness of the decimal field.\<close>

definition gv_value :: "GradidoValue \<Rightarrow> nat" where
  "gv_value a = unat (amount a) * GRADIDO_VALUE_DECIMAL_AMOUNT_BASE + unat (decimal_amount a)"

definition gv_valid :: "GradidoValue \<Rightarrow> bool" where
  "gv_valid a \<longleftrightarrow> unat (decimal_amount a) < GRADIDO_VALUE_DECIMAL_AMOUNT_BASE"

text \<open>The decay may round a decimal part up to the base itself.\<close>

definition gv_weak :: "GradidoValue \<Rightarrow> bool" where
  "gv_weak a \<longleftrightarrow> unat (decimal_amount a) \<le> GRADIDO_VALUE_DECIMAL_AMOUNT_BASE"


section \<open>Timestamps\<close>

datatype HederaTimestamp = HederaTimestamp (seconds: i64) (nanos: i32)

definition ts_zero :: HederaTimestamp where
  "ts_zero = HederaTimestamp 0 0"

definition ts_less :: "HederaTimestamp \<Rightarrow> HederaTimestamp \<Rightarrow> bool" where
  "ts_less a b \<longleftrightarrow> sint (seconds a) < sint (seconds b) \<or>
     (seconds b = seconds a \<and> sint (nanos a) < sint (nanos b))"

definition ts_minus :: "HederaTimestamp \<Rightarrow> HederaTimestamp \<Rightarrow> HederaTimestamp" where
  "ts_minus a b =
     (if sint (nanos b) \<le> sint (nanos a)
      then HederaTimestamp (seconds a - seconds b) (nanos a - nanos b)
      else HederaTimestamp (seconds a - seconds b - 1)
             (1000000000 - (nanos b - nanos a)))"

text \<open>Nanoseconds since the epoch, and a normalised nanosecond field.\<close>

definition ts_value :: "HederaTimestamp \<Rightarrow> int" where
  "ts_value a = sint (seconds a) * 1000000000 + sint (nanos a)"

definition ts_valid :: "HederaTimestamp \<Rightarrow> bool" where
  "ts_valid a \<longleftrightarrow> 0 \<le> sint (nanos a) \<and> sint (nanos a) < 1000000000"

instantiation HederaTimestamp :: linorder
begin

definition less_HederaTimestamp :: "HederaTimestamp \<Rightarrow> HederaTimestamp \<Rightarrow> bool" where
  "less_HederaTimestamp a b = ts_less a b"

definition less_eq_HederaTimestamp :: "HederaTimestamp \<Rightarrow> HederaTimestamp \<Rightarrow> bool" where
  "less_eq_HederaTimestamp a b \<longleftrightarrow> a = b \<or> ts_less a b"

instance
proof
  fix a b c :: HederaTimestamp
  show "a < b \<longleftrightarrow> a \<le> b \<and> \<not> b \<le> a"
    by (cases a; cases b) (auto simp: less_HederaTimestamp_def less_eq_HederaTimestamp_def ts_less_def)
  show "a \<le> a"
    by (simp add: less_eq_HederaTimestamp_def)
  show "a \<le> b \<Longrightarrow> b \<le> c \<Longrightarrow> a \<le> c"
    by (cases a; cases b; cases c) (auto simp: less_eq_HederaTimestamp_def ts_less_def)
  show "a \<le> b \<Longrightarrow> b \<le> a \<Longrightarrow> a = b"
    by (cases a; cases b) (auto simp: less_eq_HederaTimestamp_def ts_less_def)
  show "a \<le> b \<or> b \<le> a"
    by (cases a; cases b)
      (auto simp: less_eq_HederaTimestamp_def ts_less_def not_less le_less sint_inject)
qed

end


section \<open>Transactions\<close>

datatype TransactionType =
    GRADIDO_CREATION | ADD_GROUP_FRIEND | REMOVE_GROUP_FRIEND | ADD_USER | MOVE_USER_INBOUND
  | MOVE_USER_OUTBOUND | LOCAL_TRANSFER | INBOUND_TRANSFER | OUTBOUND_TRANSFER | HEADER
  | ADD_ADMIN | REMOVE_ADMIN | ADD_NODE | REMOVE_NODE | INITIALIZATION_DONE

fun transaction_type_code :: "TransactionType \<Rightarrow> u8" where
  "transaction_type_code GRADIDO_CREATION = 1"
| "transaction_type_code ADD_GROUP_FRIEND = 2"
| "transaction_type_code REMOVE_GROUP_FRIEND = 3"
| "transaction_type_code ADD_USER = 4"
| "transaction_type_code MOVE_USER_INBOUND = 5"
| "transaction_type_code MOVE_USER_OUTBOUND = 6"
| "transaction_type_code LOCAL_TRANSFER = 7"
| "transaction_type_code INBOUND_TRANSFER = 8"
| "transaction_type_code OUTBOUND_TRANSFER = 9"
| "transaction_type_code HEADER = 10"
| "transaction_type_code ADD_ADMIN = 11"
| "transaction_type_code REMOVE_ADMIN = 12"
| "transaction_type_code ADD_NODE = 13"
| "transaction_type_code REMOVE_NODE = 14"
| "transaction_type_code INITIALIZATION_DONE = 15"

datatype TransactionResult =
    SUCCESS | UNKNOWN | NOT_ENOUGH_GRADIDOS | UNKNOWN_LOCAL_USER | UNKNOWN_REMOTE_USER
  | UNKNOWN_GROUP | OUTBOUND_TRANSACTION_FAILED | USER_ALREADY_EXISTS
  | GROUP_IS_ALREADY_FRIEND | GROUP_IS_NOT_FRIEND

fun result_code :: "TransactionResult \<Rightarrow> u8" where
  "result_code SUCCESS = 0"
| "result_code UNKNOWN = 1"
| "result_code NOT_ENOUGH_GRADIDOS = 2"
| "result_code UNKNOWN_LOCAL_USER = 3"
| "result_code UNKNOWN_REMOTE_USER = 4"
| "result_code UNKNOWN_GROUP = 5"
| "result_code OUTBOUND_TRANSACTION_FAILED = 6"
| "result_code USER_ALREADY_EXISTS = 7"
| "result_code GROUP_IS_ALREADY_FRIEND = 8"
| "result_code GROUP_IS_NOT_FRIEND = 9"

record HederaAccountID =
  acc_shardNum :: i64
  acc_realmNum :: i64
  accountNum :: i64

record HederaTopicID =
  shardNum :: i64
  realmNum :: i64
  topicNum :: i64

record HederaTransactionID =
  transactionValidStart :: HederaTimestamp
  accountID :: HederaAccountID

record HederaTransaction =
  consensusTimestamp :: HederaTimestamp
  runningHash :: bytes
  sequenceNumber :: u64
  runningHashVersion :: u64

record Signature =
  sig_pubkey :: bytes
  sig_signature :: bytes

text \<open>Inheritance of the transfer structs is record extension.\<close>

record UserState =
  new_balance :: GradidoValue
  prev_transfer_rec_num :: u64

record UserTransfer = UserState +
  user :: bytes

record GradidoCreation = UserTransfer +
  creation_amount :: GradidoValue

record LocalTransfer =
  lt_amount :: GradidoValue
  lt_sender :: UserTransfer
  lt_receiver :: UserTransfer

record PairedTransaction =
  paired_transaction_id :: HederaTimestamp
  other_group :: bytes

record InboundTransfer = PairedTransaction +
  it_amount :: GradidoValue
  it_sender :: bytes
  it_receiver :: UserTransfer

record OutboundTransfer = PairedTransaction +
  ot_amount :: GradidoValue
  ot_sender :: UserTransfer
  ot_receiver :: bytes

record MoveUser = PairedTransaction +
  mu_user :: bytes
  mu_state :: UserState

record GradidoHeader =
  header_alias :: bytes
  chain_length :: u8
  ordering_node_pub_key :: bytes

text \<open>The union of \<open>Transaction\<close>, selected by \<open>transaction_type\<close>.\<close>

datatype TransactionBody =
    gradido_creation GradidoCreation
  | add_group_friend bytes
  | remove_group_friend bytes
  | add_user bytes
  | move_user_inbound MoveUser
  | move_user_outbound MoveUser
  | local_transfer LocalTransfer
  | inbound_transfer InboundTransfer
  | outbound_transfer OutboundTransfer
  | header GradidoHeader
  | add_admin bytes
  | remove_admin bytes
  | add_node bytes
  | remove_node bytes
  | initialization_done
  | other_transaction_type u8

fun transaction_type :: "TransactionBody \<Rightarrow> u8" where
  "transaction_type (gradido_creation _) = transaction_type_code GRADIDO_CREATION"
| "transaction_type (add_group_friend _) = transaction_type_code ADD_GROUP_FRIEND"
| "transaction_type (remove_group_friend _) = transaction_type_code REMOVE_GROUP_FRIEND"
| "transaction_type (add_user _) = transaction_type_code ADD_USER"
| "transaction_type (move_user_inbound _) = transaction_type_code MOVE_USER_INBOUND"
| "transaction_type (move_user_outbound _) = transaction_type_code MOVE_USER_OUTBOUND"
| "transaction_type (local_transfer _) = transaction_type_code LOCAL_TRANSFER"
| "transaction_type (inbound_transfer _) = transaction_type_code INBOUND_TRANSFER"
| "transaction_type (outbound_transfer _) = transaction_type_code OUTBOUND_TRANSFER"
| "transaction_type (header _) = transaction_type_code HEADER"
| "transaction_type (add_admin _) = transaction_type_code ADD_ADMIN"
| "transaction_type (remove_admin _) = transaction_type_code REMOVE_ADMIN"
| "transaction_type (add_node _) = transaction_type_code ADD_NODE"
| "transaction_type (remove_node _) = transaction_type_code REMOVE_NODE"
| "transaction_type initialization_done = transaction_type_code INITIALIZATION_DONE"
| "transaction_type (other_transaction_type c) = c"

record TransactionCommonHeader =
  version_number :: u32
  parts :: u32
  transaction_id :: HederaTimestamp
  hedera_transaction :: HederaTransaction

record Transaction = TransactionCommonHeader +
  tr_signature :: Signature
  signature_count :: u8
  body :: TransactionBody
  result :: u8
  memo :: bytes

definition HederaTransaction_zero :: HederaTransaction where
  "HederaTransaction_zero =
     \<lparr>consensusTimestamp = ts_zero, runningHash = replicate HEDERA_RUNNING_HASH_LENGTH 0,
      sequenceNumber = 0, runningHashVersion = 0\<rparr>"

definition Transaction_zero :: Transaction where
  "Transaction_zero =
     \<lparr>version_number = 0, parts = 0, transaction_id = ts_zero,
      hedera_transaction = HederaTransaction_zero,
      tr_signature = \<lparr>sig_pubkey = replicate PUB_KEY_LENGTH 0,
                      sig_signature = replicate SIGNATURE_LENGTH 0\<rparr>,
      signature_count = 0, body = other_transaction_type 0, result = 0,
      memo = replicate MEMO_MAIN_SIZE 0\<rparr>"

record StructurallyBadMessage = TransactionCommonHeader +
  bad_result :: u8
  bad_length :: u64
  bad_hedera_transaction :: HederaTransaction

text \<open>The union of \<open>GradidoRecord\<close>, selected by \<open>record_type\<close>.\<close>

datatype GradidoRecord =
    BLANK
  | GRADIDO_TRANSACTION Transaction
  | MEMO bytes
  | SIGNATURES "Signature list"
  | STRUCTURALLY_BAD_MESSAGE StructurallyBadMessage
  | RAW_MESSAGE bytes

fun record_type :: "GradidoRecord \<Rightarrow> u8" where
  "record_type BLANK = 0"
| "record_type (GRADIDO_TRANSACTION _) = 1"
| "record_type (MEMO _) = 2"
| "record_type (SIGNATURES _) = 3"
| "record_type (STRUCTURALLY_BAD_MESSAGE _) = 4"
| "record_type (RAW_MESSAGE _) = 5"

record GroupRecord =
  gr_alias :: bytes
  topic_id :: HederaTopicID
  success :: bool
  gr_hedera_transaction :: HederaTransaction
  gr_signature :: Signature

datatype GroupRegisterRecord =
    GROUP_RECORD GroupRecord
  | GR_STRUCTURALLY_BAD_MESSAGE StructurallyBadMessage
  | GR_RAW_MESSAGE bytes
  | gr_other_record u8

fun gr_record_type :: "GroupRegisterRecord \<Rightarrow> u8" where
  "gr_record_type (GROUP_RECORD _) = 1"
| "gr_record_type (GR_STRUCTURALLY_BAD_MESSAGE _) = 2"
| "gr_record_type (GR_RAW_MESSAGE _) = 3"
| "gr_record_type (gr_other_record c) = c"


section \<open>Arithmetic of amounts\<close>

lemma gv_value_inject:
  assumes "gv_valid a" "gv_valid b" "gv_value a = gv_value b"
  shows "a = b"
proof -
  have "unat (amount a) = unat (amount b)" "unat (decimal_amount a) = unat (decimal_amount b)"
    using assms mult_add_inject unfolding gv_valid_def gv_value_def by blast+
  then show ?thesis
    by (simp add: GradidoValue.expand word_unat_eq_iff)
qed

lemma gv_less_iff_value:
  assumes "gv_valid a" "gv_valid b"
  shows "gv_less a b \<longleftrightarrow> gv_value a < gv_value b"
  using assms
  unfolding gv_less_def gv_valid_def gv_value_def GRADIDO_VALUE_DECIMAL_AMOUNT_BASE_def
    word_less_nat_alt word_unat_eq_iff
  by linarith

lemma gv_valid_weak [simp]: "gv_valid a \<Longrightarrow> gv_weak a"
  by (simp add: gv_valid_def gv_weak_def)

lemma gv_plus_weak_value:
  assumes "gv_weak a" "gv_valid b"
  shows "gv_value (gv_plus a b) = (gv_value a + gv_value b) mod (2 ^ 64 * 1000000)"
    and "gv_valid (gv_plus a b)"
proof -
  let ?d = "unat (decimal_amount a) + unat (decimal_amount b)"
  let ?s = "unat (amount a) + unat (amount b)"
  have d: "unat (decimal_amount a + decimal_amount b) = ?d" "?d < 2000000"
    using assms by (simp_all add: unat_word_ariths gv_valid_def gv_weak_def GRADIDO_VALUE_DECIMAL_AMOUNT_BASE_def)
  have base: "(1000000 \<le> decimal_amount a + decimal_amount b) \<longleftrightarrow> 1000000 \<le> ?d"
    by (simp add: word_le_nat_alt d)
  have sum: "gv_value a + gv_value b = ?s * 1000000 + ?d"
    by (simp add: gv_value_def GRADIDO_VALUE_DECIMAL_AMOUNT_BASE_def algebra_simps)
  show "gv_value (gv_plus a b) = (gv_value a + gv_value b) mod (2 ^ 64 * 1000000)"
  proof (cases "1000000 \<le> ?d")
    case True
    have "(gv_value a + gv_value b) mod (2 ^ 64 * 1000000)
        = ((?s + 1) * 1000000 + (?d - 1000000)) mod (2 ^ 64 * 1000000)"
      using True sum by (simp add: add.assoc)
    also have "\<dots> = (?s + 1) mod 2 ^ 64 * 1000000 + (?d - 1000000)"
      using d True by (intro mod_mult_split) linarith
    also have "\<dots> = gv_value (gv_plus a b)"
      using True d base
      by (simp add: gv_plus_def gv_value_def GRADIDO_VALUE_DECIMAL_AMOUNT_BASE_def
          unat_word_ariths mod_simps unat_sub_le)
    finally show ?thesis by simp
  next
    case False
    have "(gv_value a + gv_value b) mod (2 ^ 64 * 1000000) = ?s mod 2 ^ 64 * 1000000 + ?d"
      using False unfolding sum by (intro mod_mult_split) linarith
    also have "\<dots> = gv_value (gv_plus a b)"
      using False d base
      by (simp add: gv_plus_def gv_value_def GRADIDO_VALUE_DECIMAL_AMOUNT_BASE_def unat_word_ariths)
    finally show ?thesis by simp
  qed
  show "gv_valid (gv_plus a b)"
    using d base
    by (auto simp: gv_plus_def gv_valid_def GRADIDO_VALUE_DECIMAL_AMOUNT_BASE_def unat_sub_le Let_def
        word_le_nat_alt)
qed

lemmas gv_plus_value = gv_plus_weak_value [OF gv_valid_weak]

text \<open>Subtraction is exact whenever the comparison lets it through, and keeps validity.\<close>

lemma gv_minus_weak_value:
  assumes "gv_weak a" "gv_valid b" "\<not> gv_less a b"
  obtains r where "gv_minus a b = Inr r" "gv_weak r" "gv_valid a \<Longrightarrow> gv_valid r"
    "gv_value r = gv_value a - gv_value b" "gv_value b \<le> gv_value a"
proof (cases "decimal_amount b \<le> decimal_amount a")
  case True
  have "amount b \<le> amount a"
    using assms(3) by (auto simp: gv_less_def)
  then have "unat (amount a - amount b) = unat (amount a) - unat (amount b)"
      "unat (decimal_amount a - decimal_amount b) = unat (decimal_amount a) - unat (decimal_amount b)"
    using True by (simp_all add: unat_sub)
  then show thesis
    using True assms \<open>amount b \<le> amount a\<close>
    by (intro that [of "GradidoValue (amount a - amount b) (decimal_amount a - decimal_amount b)"])
      (auto simp: gv_minus_def gv_valid_def gv_weak_def gv_value_def GRADIDO_VALUE_DECIMAL_AMOUNT_BASE_def
        word_le_nat_alt diff_mult_distrib)
next
  case False
  let ?d = "unat (decimal_amount b) - unat (decimal_amount a)"
  have lt: "unat (amount b) < unat (amount a)" "unat (decimal_amount a) < unat (decimal_amount b)"
    using False assms(3) by (auto simp: gv_less_def word_less_nat_alt word_le_nat_alt word_unat_eq_iff)
  have b: "unat (decimal_amount b) < 1000000"
    using assms(2) by (simp add: gv_valid_def GRADIDO_VALUE_DECIMAL_AMOUNT_BASE_def)
  have d: "unat (decimal_amount b - decimal_amount a) = ?d"
    using lt by (simp add: unat_sub_le)
  have dd: "unat (1000000 - (decimal_amount b - decimal_amount a)) = 1000000 - ?d"
    using lt b by (subst unat_sub_le) (simp_all add: d)
  have aa: "unat (amount a - amount b - 1) = unat (amount a) - unat (amount b) - 1"
    using lt by (simp add: unat_sub_le)
  show thesis
    using lt b dd aa False assms
    by (intro that [of "GradidoValue (amount a - amount b - 1)
            (1000000 - (decimal_amount b - decimal_amount a))"])
      (auto simp: gv_minus_def gv_valid_def gv_weak_def gv_value_def GRADIDO_VALUE_DECIMAL_AMOUNT_BASE_def
        diff_mult_distrib)
qed

lemma gv_minus_throws_iff:
  "gv_minus a b = Inl f \<longleftrightarrow> gv_less a b \<and> f = Throw ''GradidoValue less than zero''"
  by (auto simp: gv_minus_def Let_def)

text \<open>
  What a client of the amounts relies on: a value in a bounded range of natural numbers, an
  addition that is exact up to wrap-around, and a subtraction that succeeds exactly when the
  result is not negative.
\<close>

locale amount_arith =
  fixes add :: "'v \<Rightarrow> 'v \<Rightarrow> 'v"
    and sub :: "'v \<Rightarrow> 'v \<Rightarrow> 'v res"
    and lt :: "'v \<Rightarrow> 'v \<Rightarrow> bool"
    and val :: "'v \<Rightarrow> nat"
    and valid :: "'v \<Rightarrow> bool"
    and modulus :: nat
  assumes add_valid: "valid a \<Longrightarrow> valid b \<Longrightarrow> valid (add a b)"
    and add_value: "valid a \<Longrightarrow> valid b \<Longrightarrow> val (add a b) = (val a + val b) mod modulus"
    and lt_value: "valid a \<Longrightarrow> valid b \<Longrightarrow> lt a b \<longleftrightarrow> val a < val b"
    and sub_value: "valid a \<Longrightarrow> valid b \<Longrightarrow> \<not> lt a b \<Longrightarrow>
          \<exists>r. sub a b = Inr r \<and> valid r \<and> val r = val a - val b"
    and sub_fails: "lt a b \<Longrightarrow> \<exists>f. sub a b = Inl f"
    and value_bound: "valid a \<Longrightarrow> val a < modulus"
    and value_inject: "valid a \<Longrightarrow> valid b \<Longrightarrow> val a = val b \<Longrightarrow> a = b"
begin

lemma add_exact:
  "valid a \<Longrightarrow> valid b \<Longrightarrow> val a + val b < modulus \<Longrightarrow> val (add a b) = val a + val b"
  by (simp add: add_value)

lemma add_commute: "valid a \<Longrightarrow> valid b \<Longrightarrow> add a b = add b a"
  by (intro value_inject) (simp_all add: add_valid add_value add.commute)

lemma add_assoc: "valid a \<Longrightarrow> valid b \<Longrightarrow> valid c \<Longrightarrow> add (add a b) c = add a (add b c)"
  by (intro value_inject) (simp_all add: add_valid add_value mod_simps add.assoc)

lemma sub_ok_iff: "valid a \<Longrightarrow> valid b \<Longrightarrow> ok (sub a b) \<longleftrightarrow> val b \<le> val a"
  using sub_value [of a b] sub_fails [of a b] lt_value [of a b] by fastforce

lemma sub_after_add:
  assumes "valid a" "valid b" "val a + val b < modulus"
  shows "sub (add a b) b = Inr a"
proof -
  have sum: "val (add a b) = val a + val b"
    using assms by (rule add_exact)
  then have "\<not> lt (add a b) b"
    using assms by (simp add: lt_value add_valid)
  then obtain r where r: "sub (add a b) b = Inr r" "valid r" "val r = val (add a b) - val b"
    using sub_value [of "add a b" b] assms add_valid by auto
  then have "r = a"
    using assms sum by (intro value_inject) simp_all
  with r show ?thesis by simp
qed

lemma transfer_conserves:
  assumes "valid s" "valid r" "valid x" "\<not> lt s x" "val r + val x < modulus"
  obtains s' where "sub s x = Inr s'" "valid s'" "val s' + val (add r x) = val s + val r"
proof -
  obtain s' where s': "sub s x = Inr s'" "valid s'" "val s' = val s - val x"
    using sub_value [of s x] assms by auto
  have "val x \<le> val s"
    using assms lt_value [of s x] by simp
  then show thesis
    using that s' add_exact [of r x] assms by simp
qed

end

lemma gv_value_bound: "gv_valid a \<Longrightarrow> gv_value a < 2 ^ 64 * 1000000"
  using unsigned_less [of "amount a", where ?'a = nat]
  by (simp add: gv_valid_def gv_value_def GRADIDO_VALUE_DECIMAL_AMOUNT_BASE_def)

interpretation gva: amount_arith gv_plus gv_minus gv_less gv_value gv_valid "2 ^ 64 * 1000000"
proof
  fix a b
  assume v: "gv_valid a" "gv_valid b" "\<not> gv_less a b"
  obtain r where "gv_minus a b = Inr r" "gv_valid a \<Longrightarrow> gv_valid r" "gv_value r = gv_value a - gv_value b"
    by (rule gv_minus_weak_value [OF gv_valid_weak [OF v(1)] v(2,3)]) (rule that)
  with v(1) show "\<exists>r. gv_minus a b = Inr r \<and> gv_valid r \<and> gv_value r = gv_value a - gv_value b"
    by blast
next
  fix a b
  assume "gv_less a b"
  then show "\<exists>f. gv_minus a b = Inl f"
    by (simp add: gv_minus_def)
qed (fact gv_plus_value gv_less_iff_value gv_value_bound gv_value_inject)+


section \<open>Arithmetic of timestamps\<close>

lemma ts_minus_value:
  assumes "ts_valid a" "ts_valid b"
    and "- (2 ^ 63) < sint (seconds a) - sint (seconds b)"
        "sint (seconds a) - sint (seconds b) < 2 ^ 63"
  shows "ts_value (ts_minus a b) = ts_value a - ts_value b"
    and "ts_valid (ts_minus a b)"
proof -
  have s: "sint (seconds a - seconds b) = sint (seconds a) - sint (seconds b)"
    using assms by (intro sint_minus_in_range) simp_all
  have s1: "sint (seconds a - seconds b - 1) = sint (seconds a) - sint (seconds b) - 1"
    using assms s by (subst sint_minus_in_range) simp_all
  have n: "sint (nanos a - nanos b) = sint (nanos a) - sint (nanos b)"
          "sint (nanos b - nanos a) = sint (nanos b) - sint (nanos a)"
    using assms by (intro sint_minus_in_range; simp add: ts_valid_def)+
  have n1: "sint (nanos a) < sint (nanos b) \<Longrightarrow>
     sint (1000000000 - (nanos b - nanos a)) = 1000000000 - (sint (nanos b) - sint (nanos a))"
    using assms n by (subst sint_minus_in_range) (simp_all add: ts_valid_def)
  show "ts_value (ts_minus a b) = ts_value a - ts_value b" "ts_valid (ts_minus a b)"
    using assms s s1 n n1 by (auto simp: ts_minus_def ts_value_def ts_valid_def)
qed

lemma ts_less_iff_value:
  assumes "ts_valid a" "ts_valid b"
  shows "ts_less a b \<longleftrightarrow> ts_value a < ts_value b"
  using assms unfolding ts_less_def ts_valid_def ts_value_def sint_inject [symmetric]
  by linarith

end
