(* ===== verification/File_Tile.thy ===== *)
theory File_Tile
  imports Memory_Managers Gradido_Def
begin

text \<open>
  \<open>src/file_tile.h\<close>, as \<open>src/blockchain.h\<close> instantiates it: a sequence of equally sized files,
  each holding \<open>TCount\<close> records, with an in-memory copy and an open stream per file.

  A \<open>Tile\<close> is a pointer to a \<open>TileDesc\<close>; in the model it is the position of the descriptor in
  \<open>tiles\<close>. The state carries the part of the file system the tiles touch: the files by name, where
  a name is the number of a block or the time and number of a block set aside as bad. The
  operating system decides whether a call succeeds: \<open>io_script\<close> lists the outcomes of the coming
  calls, and calls beyond its end succeed. Streams count positions in records, because the code
  seeks, reads and writes whole records only; a written record reaches the file at once, because
  every \<open>fwrite\<close> is followed by \<open>fseek\<close> or \<open>fflush\<close>.
\<close>

section \<open>Data\<close>

text \<open>\<open>BlockchainTypes<T>::Record\<close> of \<open>src/gradido_interfaces.h\<close>; a zeroed record is \<open>EMPTY\<close>.\<close>

datatype 'p Record = EMPTY | PAYLOAD 'p | CHECKSUM bytes | other_record_type u8

datatype TileState =
    TILE_OK | MISSING_FILE | NOT_A_FILE | BAD_LENGTH | NOT_READABLE | NOT_WRITEABLE
  | CANNOT_OPEN_FILE | CANNOT_CLOSE_FILE | ERROR_WHILE_READING | ERROR_WHILE_WRITING
  | CANNOT_SYNC_NO_RAW_DATA | FSEEK_FAILED | REC_INDEX_EXCEEDS_BOUNDS | TRUNCATED | BAD_INDEX

text \<open>\<open>TileSup\<close> of \<open>src/blockchain.h\<close>.\<close>

record TileSup =
  sup_checksum :: bytes
  last_use :: nat

definition zero_checksum :: bytes where
  "zero_checksum = replicate BLOCKCHAIN_CHECKSUM_SIZE 0"

definition sup_reset :: "TileSup \<Rightarrow> TileSup" where
  "sup_reset s = s\<lparr>sup_checksum := zero_checksum\<rparr>"

text \<open>
  The name of a block file, the name of a block set aside as bad, and a file that was removed
  while a stream is still open on it.
\<close>

datatype file_ref = BlockFile nat | BadFile nat nat | UnlinkedFile nat

text \<open>A stream: none, open on a file at a position, or left behind by a failed \<open>fclose\<close>.\<close>

datatype handle = NoHandle | Opened file_ref nat | Dangling

record 'p TileDesc =
  index :: nat
  state :: TileState
  fetched_data :: "'p Record list option"
  file_handle :: handle
  sup :: TileSup

definition TileDesc_reset :: "nat \<Rightarrow> 'p TileDesc \<Rightarrow> 'p TileDesc" where
  "TileDesc_reset ind d =
     d\<lparr>index := ind, state := TILE_OK, fetched_data := None, file_handle := NoHandle,
       sup := sup_reset (sup d)\<rparr>"

text \<open>A descriptor as the allocator hands it out: all bytes zero.\<close>

definition TileDesc_zero :: "'p TileDesc" where
  "TileDesc_zero =
     \<lparr>index = 0, state = TILE_OK, fetched_data = None, file_handle = NoHandle,
      sup = \<lparr>sup_checksum = zero_checksum, last_use = 0\<rparr>\<rparr>"

text \<open>
  A file: whether it is a regular file, its whole records, the bytes beyond them, and the
  access rights of the process.
\<close>

record 'p os_file =
  is_regular :: bool
  contents :: "'p Record list"
  extra_bytes :: nat
  can_read :: bool
  can_write :: bool

definition new_file :: "'p os_file" where
  "new_file =
     \<lparr>is_regular = True, contents = [], extra_bytes = 0, can_read = True, can_write = True\<rparr>"

text \<open>\<open>IoFail n\<close> is a failed call; a failed \<open>fread\<close> or \<open>fwrite\<close> still transfers up to \<open>n\<close> items.\<close>

datatype io_outcome = IoOk | IoFail nat

record 'p FileTile =
  tiles :: "'p TileDesc list"
  unused_tiles :: "'p TileDesc list"
  mem_pool :: "'p Record list BigObjectMemoryPool"
  files :: "(file_ref, 'p os_file) fmap"
  io_script :: "io_outcome list"

definition mem_pool_block_size :: nat where "mem_pool_block_size = 100"
definition tile_block_size :: nat where "tile_block_size = 1000"


section \<open>Operating system calls\<close>

definition io_next :: "'p FileTile \<Rightarrow> io_outcome \<times> 'p FileTile" where
  "io_next ft =
     (case io_script ft of [] \<Rightarrow> (IoOk, ft) | out # rest \<Rightarrow> (out, ft\<lparr>io_script := rest\<rparr>))"

definition desc :: "nat \<Rightarrow> 'p FileTile \<Rightarrow> 'p TileDesc" where
  "desc i ft = tiles ft ! i"

definition upd_desc :: "nat \<Rightarrow> ('p TileDesc \<Rightarrow> 'p TileDesc) \<Rightarrow> 'p FileTile \<Rightarrow> 'p FileTile" where
  "upd_desc i f ft = ft\<lparr>tiles := (tiles ft)[i := f (tiles ft ! i)]\<rparr>"

definition set_state :: "nat \<Rightarrow> TileState \<Rightarrow> 'p FileTile \<Rightarrow> 'p FileTile" where
  "set_state i s = upd_desc i (\<lambda>d. d\<lparr>state := s\<rparr>)"

definition set_handle :: "nat \<Rightarrow> handle \<Rightarrow> 'p FileTile \<Rightarrow> 'p FileTile" where
  "set_handle i h = upd_desc i (\<lambda>d. d\<lparr>file_handle := h\<rparr>)"

definition set_data :: "nat \<Rightarrow> 'p Record list option \<Rightarrow> 'p FileTile \<Rightarrow> 'p FileTile" where
  "set_data i x = upd_desc i (\<lambda>d. d\<lparr>fetched_data := x\<rparr>)"

definition file_contents :: "file_ref \<Rightarrow> 'p FileTile \<Rightarrow> 'p Record list" where
  "file_contents r ft = (case fmlookup (files ft) r of None \<Rightarrow> [] | Some f \<Rightarrow> contents f)"

definition put_contents :: "file_ref \<Rightarrow> 'p Record list \<Rightarrow> 'p FileTile \<Rightarrow> 'p FileTile" where
  "put_contents r c ft =
     (case fmlookup (files ft) r of None \<Rightarrow> ft
      | Some f \<Rightarrow> ft\<lparr>files := fmupd r (f\<lparr>contents := c\<rparr>) (files ft)\<rparr>)"

text \<open>\<open>stat\<close> and \<open>access\<close>.\<close>

definition check_file2 :: "nat \<Rightarrow> 'p FileTile \<Rightarrow> file_ref \<Rightarrow> TileState" where
  "check_file2 TCount ft r =
     (case fmlookup (files ft) r of
        None \<Rightarrow> MISSING_FILE
      | Some f \<Rightarrow>
          (if \<not> is_regular f then NOT_A_FILE
           else if length (contents f) \<noteq> TCount \<or> extra_bytes f \<noteq> 0 then BAD_LENGTH
           else if \<not> can_read f then NOT_READABLE
           else if \<not> can_write f then NOT_WRITEABLE
           else TILE_OK))"

text \<open>Writing at a position beyond the end of a file fills the gap with zero bytes.\<close>

definition write_at :: "nat \<Rightarrow> 'p Record list \<Rightarrow> 'p Record list \<Rightarrow> 'p Record list" where
  "write_at p rs c = overwrite p rs (c @ replicate (p - length c) EMPTY)"

definition transferred :: "io_outcome \<Rightarrow> nat \<Rightarrow> nat" where
  "transferred out n = (case out of IoOk \<Rightarrow> n | IoFail k \<Rightarrow> min k (n - 1))"

definition fwrite :: "nat \<Rightarrow> 'p Record list \<Rightarrow> 'p FileTile \<Rightarrow> (nat \<times> 'p FileTile) res" where
  "fwrite i rs ft =
     (case file_handle (desc i ft) of
        Opened r pos \<Rightarrow>
          (let (out, ft1) = io_next ft; n = transferred out (length rs)
           in Inr (n, set_handle i (Opened r (pos + n))
                        (put_contents r (write_at pos (take n rs) (file_contents r ft)) ft1)))
      | _ \<Rightarrow> Inl (Undefined ''fwrite on an invalid stream''))"

definition fread :: "nat \<Rightarrow> nat \<Rightarrow> 'p FileTile \<Rightarrow> ('p Record list \<times> 'p FileTile) res" where
  "fread i count ft =
     (case file_handle (desc i ft) of
        Opened r pos \<Rightarrow>
          (let (out, ft1) = io_next ft;
               rs = take (transferred out count) (drop pos (file_contents r ft))
           in Inr (rs, set_handle i (Opened r (pos + length rs)) ft1))
      | _ \<Rightarrow> Inl (Undefined ''fread on an invalid stream''))"

definition fseek :: "nat \<Rightarrow> nat \<Rightarrow> 'p FileTile \<Rightarrow> (bool \<times> 'p FileTile) res" where
  "fseek i pos ft =
     (case file_handle (desc i ft) of
        Opened r _ \<Rightarrow>
          (case io_next ft of
             (IoOk, ft1) \<Rightarrow> Inr (True, set_handle i (Opened r pos) ft1)
           | (IoFail _, ft1) \<Rightarrow> Inr (False, ft1))
      | _ \<Rightarrow> Inl (Undefined ''fseek on an invalid stream''))"


section \<open>Operations of a tile\<close>

definition create_tile_desc :: "nat \<Rightarrow> 'p FileTile \<Rightarrow> 'p TileDesc \<times> 'p FileTile" where
  "create_tile_desc i ft =
     (let u = (if unused_tiles ft = [] then replicate tile_block_size TileDesc_zero
               else unused_tiles ft)
      in (TileDesc_reset i (last u), ft\<lparr>unused_tiles := butlast u\<rparr>))"

definition open_file :: "nat \<Rightarrow> nat \<Rightarrow> 'p FileTile \<Rightarrow> bool \<times> 'p FileTile" where
  "open_file TCount i ft =
     (let r = BlockFile (index (desc i ft)); ts = check_file2 TCount ft r
      in if file_handle (desc i ft) \<noteq> NoHandle then (True, set_state i TILE_OK ft)
         else if ts = MISSING_FILE then
           (case io_next ft of
              (IoOk, ft1) \<Rightarrow>
                (True, set_state i TILE_OK (set_handle i (Opened r 0)
                         (ft1\<lparr>files := fmupd r new_file (files ft1)\<rparr>)))
            | (IoFail _, ft1) \<Rightarrow> (False, set_state i CANNOT_OPEN_FILE ft1))
         else if ts = TILE_OK then
           (case io_next ft of
              (IoOk, ft1) \<Rightarrow> (True, set_state i TILE_OK (set_handle i (Opened r 0) ft1))
            | (IoFail _, ft1) \<Rightarrow> (False, set_state i CANNOT_OPEN_FILE ft1))
         else (False, set_state i CANNOT_OPEN_FILE ft))"

definition close_file :: "nat \<Rightarrow> 'p FileTile \<Rightarrow> 'p FileTile res" where
  "close_file i ft =
     (case file_handle (desc i ft) of
        NoHandle \<Rightarrow> Inr (set_state i TILE_OK ft)
      | Dangling \<Rightarrow> Inl (Undefined ''fclose on an invalid stream'')
      | Opened _ _ \<Rightarrow>
          (case io_next ft of
             (IoOk, ft1) \<Rightarrow> Inr (set_state i TILE_OK (set_handle i NoHandle ft1))
           | (IoFail _, ft1) \<Rightarrow> Inr (set_state i CANNOT_CLOSE_FILE (set_handle i Dangling ft1))))"

definition tile_write ::
  "nat \<Rightarrow> nat \<Rightarrow> 'p Record \<Rightarrow> nat \<Rightarrow> bool \<Rightarrow> 'p FileTile \<Rightarrow> (bool \<times> 'p FileTile) res" where
  "tile_write TCount i rec rec_index close_on_exit ft =
     (if TCount \<le> rec_index then Inr (False, set_state i REC_INDEX_EXCEEDS_BOUNDS ft)
      else case open_file TCount i ft of
        (False, ft1) \<Rightarrow> Inr (False, ft1)
      | (True, ft1) \<Rightarrow>
          bind_res (fseek i rec_index ft1) (\<lambda>(sought, ft2).
            if \<not> sought then
              bind_res (close_file i (set_state i FSEEK_FAILED ft2)) (\<lambda>ft3. Inr (False, ft3))
            else bind_res (fwrite i [rec] ft2) (\<lambda>(res2, ft3).
              bind_res (fseek i 0 ft3) (\<lambda>(back, ft4).
                if \<not> back then
                  bind_res (close_file i (set_state i FSEEK_FAILED ft4)) (\<lambda>ft5. Inr (False, ft5))
                else if res2 \<noteq> 1 then
                  bind_res (close_file i (set_state i ERROR_WHILE_WRITING ft4)) (\<lambda>ft5. Inr (False, ft5))
                else if close_on_exit then bind_res (close_file i ft4) (\<lambda>ft5. Inr (True, ft5))
                else Inr (True, ft4)))))"

text \<open>\<open>sync_to_file\<close> falls off its end when the file cannot be opened.\<close>

definition sync_to_file :: "nat \<Rightarrow> nat \<Rightarrow> bool \<Rightarrow> 'p FileTile \<Rightarrow> (bool \<times> 'p FileTile) res" where
  "sync_to_file TCount i close_on_exit ft =
     (case fetched_data (desc i ft) of
        None \<Rightarrow> Inr (False, set_state i CANNOT_SYNC_NO_RAW_DATA ft)
      | Some d \<Rightarrow>
          (case open_file TCount i ft of
             (False, _) \<Rightarrow> Inl (Undefined ''no return value'')
           | (True, ft1) \<Rightarrow>
               bind_res (fwrite i d ft1) (\<lambda>(n, ft2).
                 if n \<noteq> TCount then Inr (False, set_state i ERROR_WHILE_WRITING ft2)
                 else if close_on_exit then
                   bind_res (close_file i (set_state i TILE_OK ft2)) (\<lambda>ft3. Inr (True, ft3))
                 else Inr (True, set_state i TILE_OK ft2))))"

definition alloc_tile_data :: "nat \<Rightarrow> nat \<Rightarrow> 'p FileTile \<Rightarrow> 'p FileTile res" where
  "alloc_tile_data TCount i ft =
     (case fetched_data (desc i ft) of
        Some _ \<Rightarrow> Inr ft
      | None \<Rightarrow>
          bind_res (pool_get mem_pool_block_size (replicate TCount EMPTY) (mem_pool ft))
            (\<lambda>(d, mp). Inr (set_data i (Some d) (ft\<lparr>mem_pool := mp\<rparr>))))"

text \<open>\<open>sync_from_file\<close> reads from where the stream stands, and never closes the file.\<close>

definition sync_from_file :: "nat \<Rightarrow> nat \<Rightarrow> 'p FileTile \<Rightarrow> (bool \<times> 'p FileTile) res" where
  "sync_from_file TCount i ft =
     (case open_file TCount i ft of
        (False, ft1) \<Rightarrow> Inr (False, ft1)
      | (True, ft1) \<Rightarrow>
          bind_res (alloc_tile_data TCount i ft1) (\<lambda>ft2.
            bind_res (fread i TCount ft2) (\<lambda>(rs, ft3).
              let ft4 = set_data i (map_option (overwrite 0 rs) (fetched_data (desc i ft2))) ft3
              in if length rs \<noteq> TCount then Inr (False, set_state i ERROR_WHILE_READING ft4)
                 else Inr (True, set_state i TILE_OK ft4))))"

definition get_tile_data :: "nat \<Rightarrow> 'p FileTile \<Rightarrow> 'p Record list option \<times> 'p FileTile" where
  "get_tile_data i ft = (fetched_data (desc i ft), set_state i TILE_OK ft)"

definition set_tile_data :: "nat \<Rightarrow> nat \<Rightarrow> 'p Record list \<Rightarrow> 'p FileTile \<Rightarrow> 'p FileTile res" where
  "set_tile_data TCount i d ft =
     bind_res (alloc_tile_data TCount i ft) (\<lambda>ft1.
       Inr (set_state i TILE_OK (set_data i (Some (take TCount d)) ft1)))"

definition tile_read :: "nat \<Rightarrow> nat \<Rightarrow> nat \<Rightarrow> 'p FileTile \<Rightarrow> ('p Record option \<times> 'p FileTile) res" where
  "tile_read TCount i rec_index ft =
     (if TCount \<le> rec_index then Inr (None, set_state i REC_INDEX_EXCEEDS_BOUNDS ft)
      else case fetched_data (desc i ft) of
        Some d \<Rightarrow> Inr (Some (d ! rec_index), ft)
      | None \<Rightarrow>
          bind_res (sync_from_file TCount i ft) (\<lambda>(done, ft1).
            Inr (if done then map_option (\<lambda>d. d ! rec_index) (fetched_data (desc i ft1)) else None,
                 ft1)))"

definition release_fetched_data :: "nat \<Rightarrow> 'p FileTile \<Rightarrow> 'p FileTile res" where
  "release_fetched_data i ft =
     (case fetched_data (desc i ft) of
        None \<Rightarrow> Inr (set_state i TILE_OK ft)
      | Some d \<Rightarrow>
          bind_res (pool_release d (mem_pool ft)) (\<lambda>mp.
            Inr (set_state i TILE_OK (set_data i None (ft\<lparr>mem_pool := mp\<rparr>)))))"


section \<open>Operations of the tile sequence\<close>

definition append_tile :: "'p FileTile \<Rightarrow> nat \<times> 'p FileTile" where
  "append_tile ft =
     (let i = length (tiles ft); (d, ft1) = create_tile_desc i ft
      in (i, ft1\<lparr>tiles := tiles ft1 @ [d\<lparr>state := TILE_OK\<rparr>]\<rparr>))"

text \<open>The constructor: one descriptor per block number below the file count.\<close>

definition add_checked_tile :: "nat \<Rightarrow> nat \<Rightarrow> 'p FileTile \<Rightarrow> 'p FileTile" where
  "add_checked_tile TCount i ft =
     (let (d, ft1) = create_tile_desc i ft
      in ft1\<lparr>tiles := tiles ft1 @ [d\<lparr>state := check_file2 TCount ft (BlockFile i)\<rparr>]\<rparr>)"

definition FileTile_new :: "nat \<Rightarrow> nat \<Rightarrow> (file_ref, 'p os_file) fmap \<Rightarrow> io_outcome list \<Rightarrow> 'p FileTile" where
  "FileTile_new TCount file_count fs script =
     fold (add_checked_tile TCount) [0..<file_count]
       \<lparr>tiles = [], unused_tiles = [], mem_pool = pool_new, files = fs, io_script = script\<rparr>"

definition get_tile_count :: "'p FileTile \<Rightarrow> nat" where
  "get_tile_count ft = length (tiles ft)"

definition get_tile :: "nat \<Rightarrow> 'p FileTile \<Rightarrow> nat res" where
  "get_tile i ft =
     (if length (tiles ft) \<le> i then Inl (Throw ''TileFile: index too large'') else Inr i)"

definition truncate_tail :: "nat \<Rightarrow> 'p FileTile \<Rightarrow> 'p FileTile" where
  "truncate_tail first ft =
     (if length (tiles ft) \<le> first then ft
      else ft\<lparr>tiles := take first (tiles ft),
              unused_tiles := unused_tiles ft
                @ map (\<lambda>d. d\<lparr>state := TRUNCATED\<rparr>) (drop first (tiles ft))\<rparr>)"


section \<open>Invariant\<close>

definition good_file :: "nat \<Rightarrow> 'p os_file \<Rightarrow> bool" where
  "good_file TCount f \<longleftrightarrow> is_regular f \<and> length (contents f) = TCount \<and> extra_bytes f = 0
     \<and> can_read f \<and> can_write f"

text \<open>
  A descriptor in good order: its file has the right size, and the stream, if open, stands at the
  beginning, or at the end with the in-memory copy equal to the file.
\<close>

definition wf_desc :: "nat \<Rightarrow> (file_ref, 'p os_file) fmap \<Rightarrow> nat \<Rightarrow> 'p TileDesc \<Rightarrow> bool" where
  "wf_desc TCount fs i d \<longleftrightarrow>
     index d = i \<and> sup_checksum (sup d) = zero_checksum \<and>
     (\<forall>rs. fetched_data d = Some rs \<longrightarrow> length rs = TCount) \<and>
     (case fmlookup fs (BlockFile i) of
        None \<Rightarrow> False
      | Some f \<Rightarrow> good_file TCount f \<and>
          (case file_handle d of
             NoHandle \<Rightarrow> True
           | Opened r pos \<Rightarrow> r = BlockFile i \<and>
               (pos = 0 \<or> pos = TCount \<and> fetched_data d = Some (contents f))
           | Dangling \<Rightarrow> False))"

definition cached :: "'p FileTile \<Rightarrow> nat" where
  "cached t = length (filter (\<lambda>d. fetched_data d \<noteq> None) (tiles t))"

definition wf_ft :: "nat \<Rightarrow> 'p FileTile \<Rightarrow> bool" where
  "wf_ft TCount t \<longleftrightarrow>
     io_script t = [] \<and> pool_ok (mem_pool t) \<and> cached t \<le> length (used (mem_pool t)) \<and>
     (\<forall>i < length (tiles t). wf_desc TCount (files t) i (desc i t))"

text \<open>A step that changes caches and streams only.\<close>

definition cache_step :: "nat \<Rightarrow> 'p FileTile \<Rightarrow> 'p FileTile \<Rightarrow> bool" where
  "cache_step TCount t t' \<longleftrightarrow>
     wf_ft TCount t' \<and> files t' = files t \<and> length (tiles t') = length (tiles t)"

text \<open>Tiles stay in good state and closed streams stay closed.\<close>

definition calm_step :: "'p FileTile \<Rightarrow> 'p FileTile \<Rightarrow> bool" where
  "calm_step t t' \<longleftrightarrow>
     (\<forall>j. state (desc j t) = TILE_OK \<longrightarrow> state (desc j t') = TILE_OK) \<and>
     (\<forall>j. file_handle (desc j t) = NoHandle \<longrightarrow> file_handle (desc j t') = NoHandle)"

lemma calm_step_refl [simp]: "calm_step t t"
  by (simp add: calm_step_def)

lemma calm_step_trans: "calm_step t t' \<Longrightarrow> calm_step t' t'' \<Longrightarrow> calm_step t t''"
  by (simp add: calm_step_def)

lemma calm_step_at:
  assumes "\<And>j. j \<noteq> i \<Longrightarrow> desc j t' = desc j t"
    and "state (desc i t') = TILE_OK" "file_handle (desc i t') = NoHandle \<or> file_handle (desc i t') = file_handle (desc i t)"
  shows "calm_step t t'"
proof -
  have "state (desc j t) = TILE_OK \<longrightarrow> state (desc j t') = TILE_OK"
       "file_handle (desc j t) = NoHandle \<longrightarrow> file_handle (desc j t') = NoHandle" for j
    using assms by (cases "j = i"; auto)+
  then show ?thesis
    by (simp add: calm_step_def)
qed

lemma desc_upd_desc [simp]:
  "i < length (tiles t) \<Longrightarrow> desc j (upd_desc i f t) = (if j = i then f (desc i t) else desc j t)"
  by (simp add: desc_def upd_desc_def)

lemma upd_desc_fields [simp]:
  "length (tiles (upd_desc i f t)) = length (tiles t)"
  "files (upd_desc i f t) = files t"
  "mem_pool (upd_desc i f t) = mem_pool t"
  "io_script (upd_desc i f t) = io_script t"
  by (simp_all add: upd_desc_def)

lemma desc_fields [simp]:
  "desc i (t\<lparr>files := fs\<rparr>) = desc i t"
  "desc i (t\<lparr>mem_pool := mp\<rparr>) = desc i t"
  by (simp_all add: desc_def)

lemma cached_upd_desc:
  "i < length (tiles t) \<Longrightarrow>
   cached (upd_desc i f t) + (if fetched_data (desc i t) \<noteq> None then 1 else 0)
     = cached t + (if fetched_data (f (desc i t)) \<noteq> None then 1 else 0)"
  using length_filter_update [of i "tiles t" "\<lambda>d. fetched_data d \<noteq> None" "f (tiles t ! i)"]
  by (simp add: cached_def upd_desc_def desc_def)

lemma cached_fields [simp]:
  "cached (t\<lparr>files := fs\<rparr>) = cached t"
  "cached (t\<lparr>mem_pool := mp\<rparr>) = cached t"
  by (simp_all add: cached_def)

lemma io_next_ok [simp]: "io_script t = [] \<Longrightarrow> io_next t = (IoOk, t)"
  by (simp add: io_next_def)

lemma wf_ft_script [simp]: "wf_ft TCount t \<Longrightarrow> io_script t = []"
  by (simp add: wf_ft_def)

lemma wf_ftD: "wf_ft TCount t \<Longrightarrow> i < length (tiles t) \<Longrightarrow> wf_desc TCount (files t) i (desc i t)"
  by (simp add: wf_ft_def)

lemma wf_ft_file:
  assumes "wf_ft TCount t" "i < length (tiles t)"
  obtains f where "fmlookup (files t) (BlockFile i) = Some f" "good_file TCount f"
  using wf_ftD [OF assms] by (auto simp: wf_desc_def split: option.splits)

lemma wf_ft_upd_desc:
  assumes "wf_ft TCount t" "i < length (tiles t)" "wf_desc TCount (files t) i (f (desc i t))"
    and "fetched_data (f (desc i t)) = None \<longleftrightarrow> fetched_data (desc i t) = None"
  shows "wf_ft TCount (upd_desc i f t)"
  using assms cached_upd_desc [of i t f] by (auto simp: wf_ft_def split: if_splits)

lemma cache_step_refl: "wf_ft TCount t \<Longrightarrow> cache_step TCount t t"
  by (simp add: cache_step_def)

lemma cache_step_trans [trans]:
  "cache_step TCount t t' \<Longrightarrow> cache_step TCount t' t'' \<Longrightarrow> cache_step TCount t t''"
  by (simp add: cache_step_def)

lemmas setter_defs = set_state_def set_handle_def set_data_def


section \<open>Behaviour of the tile operations\<close>

lemma upd_desc_upd_desc [simp]:
  "i < length (tiles t) \<Longrightarrow> upd_desc i f (upd_desc i g t) = upd_desc i (\<lambda>d. f (g d)) t"
  by (simp add: upd_desc_def)

lemma put_contents_fields [simp]:
  "tiles (put_contents r c t) = tiles t"
  "mem_pool (put_contents r c t) = mem_pool t"
  "io_script (put_contents r c t) = io_script t"
  "desc i (put_contents r c t) = desc i t"
  "cached (put_contents r c t) = cached t"
  by (simp_all add: put_contents_def desc_def cached_def split: option.splits)

lemma upd_desc_put_contents [simp]:
  "put_contents r c (upd_desc i f t) = upd_desc i f (put_contents r c t)"
  by (simp add: put_contents_def upd_desc_def split: option.splits)

lemma file_contents_upd_desc [simp]: "file_contents r (upd_desc i f t) = file_contents r t"
  by (simp add: file_contents_def)

lemma file_contents_pool [simp]: "file_contents r (t\<lparr>mem_pool := mp\<rparr>) = file_contents r t"
  by (simp add: file_contents_def)

lemma lookup_put_contents:
  "fmlookup (files t) r = Some f \<Longrightarrow>
   fmlookup (files (put_contents r c t)) r' =
     (if r' = r then Some (f\<lparr>contents := c\<rparr>) else fmlookup (files t) r')"
  by (simp add: put_contents_def)

lemma check_file2_good:
  "fmlookup (files t) r = Some f \<Longrightarrow> good_file TCount f \<Longrightarrow> check_file2 TCount t r = TILE_OK"
  by (simp add: check_file2_def good_file_def)

lemma open_file_eq:
  assumes "wf_ft TCount t" "i < length (tiles t)"
  shows "open_file TCount i t =
    (True, upd_desc i (\<lambda>d. d\<lparr>file_handle := (if file_handle d = NoHandle then Opened (BlockFile i) 0
                                            else file_handle d), state := TILE_OK\<rparr>) t)"
proof -
  obtain f where "fmlookup (files t) (BlockFile i) = Some f" "good_file TCount f"
    using wf_ft_file [OF assms] .
  then have "check_file2 TCount t (BlockFile i) = TILE_OK"
    by (rule check_file2_good)
  moreover have "index (desc i t) = i"
    using wf_ftD [OF assms] by (simp add: wf_desc_def)
  ultimately show ?thesis
    using assms
    by (auto simp: open_file_def setter_defs upd_desc_def desc_def intro!: arg_cong [where f = "list_update _ _"]
        split: if_splits)
qed

lemma same_handle: "file_handle d = h \<Longrightarrow> d\<lparr>file_handle := h\<rparr> = d"
  by (cases d) simp

lemma same_data: "fetched_data d = x \<Longrightarrow> d\<lparr>fetched_data := x\<rparr> = d"
  by (cases d) simp

lemma close_file_eq:
  assumes "wf_ft TCount t" "i < length (tiles t)"
  shows "close_file i t = Inr (upd_desc i (\<lambda>d. d\<lparr>file_handle := NoHandle, state := TILE_OK\<rparr>) t)"
  using wf_ftD [OF assms] assms
  by (auto simp: close_file_def setter_defs wf_desc_def upd_desc_def desc_def same_handle
      split: handle.splits option.splits intro!: arg_cong [where f = "list_update _ _"])

lemma close_file_step:
  assumes "wf_ft TCount t" "i < length (tiles t)"
  obtains t' where "close_file i t = Inr t'" "cache_step TCount t t'"
    "desc i t' = (desc i t)\<lparr>file_handle := NoHandle, state := TILE_OK\<rparr>"
    "\<And>j. j \<noteq> i \<Longrightarrow> desc j t' = desc j t"
proof
  show "close_file i t = Inr (upd_desc i (\<lambda>d. d\<lparr>file_handle := NoHandle, state := TILE_OK\<rparr>) t)"
    using assms by (rule close_file_eq)
  show "cache_step TCount t (upd_desc i (\<lambda>d. d\<lparr>file_handle := NoHandle, state := TILE_OK\<rparr>) t)"
    using assms wf_ftD [OF assms]
    by (auto simp: cache_step_def wf_desc_def intro!: wf_ft_upd_desc split: option.splits)
qed (use assms in simp_all)

lemma set_state_step:
  assumes "wf_ft TCount t" "i < length (tiles t)"
  shows "cache_step TCount t (set_state i s t)"
  using assms wf_ftD [OF assms]
  by (auto simp: cache_step_def wf_desc_def set_state_def intro!: wf_ft_upd_desc
      split: option.splits handle.splits)

text \<open>Allocation of the in-memory copy; the pool keeps count of what is in use.\<close>

lemma alloc_tile_data_cases:
  assumes "pool_ok (mem_pool t)" "i < length (tiles t)"
  obtains mp d where "alloc_tile_data TCount i t = Inr (upd_desc i (\<lambda>x. x\<lparr>fetched_data := Some d\<rparr>) (t\<lparr>mem_pool := mp\<rparr>))"
    "pool_ok mp" "fetched_data (desc i t) = None \<longrightarrow> d = replicate TCount EMPTY"
    "fetched_data (desc i t) \<noteq> None \<longrightarrow> fetched_data (desc i t) = Some d"
    "length (used mp) = length (used (mem_pool t)) + (if fetched_data (desc i t) = None then 1 else 0)"
proof (cases "fetched_data (desc i t)")
  case None
  obtain q where "pool_get mem_pool_block_size (replicate TCount (EMPTY :: 'a Record)) (mem_pool t)
      = Inr (replicate TCount EMPTY, q)" "pool_ok q" "length (used q) = length (used (mem_pool t)) + 1"
    using pool_get_cases [OF assms(1), of mem_pool_block_size]
    by (metis mem_pool_block_size_def zero_less_numeral)
  with None show thesis
    by (intro that [of "replicate TCount EMPTY" q]) (simp_all add: alloc_tile_data_def set_data_def)
next
  case (Some d)
  have "upd_desc i (\<lambda>x. x\<lparr>fetched_data := Some d\<rparr>) (t\<lparr>mem_pool := mem_pool t\<rparr>) = t"
    using assms(2) Some by (simp add: upd_desc_def desc_def same_data)
  with Some assms show thesis
    by (intro that [of d "mem_pool t"]) (simp_all add: alloc_tile_data_def)
qed

lemma wf_ft_set_data:
  assumes "wf_ft TCount t" "i < length (tiles t)" "wf_desc TCount (files t) i (f (desc i t))"
    and "pool_ok mp" "fetched_data (f (desc i t)) \<noteq> None"
    and "length (used mp) = length (used (mem_pool t)) + (if fetched_data (desc i t) = None then 1 else 0)"
  shows "wf_ft TCount (upd_desc i f (t\<lparr>mem_pool := mp\<rparr>))"
proof -
  have "cached (upd_desc i f (t\<lparr>mem_pool := mp\<rparr>)) + (if fetched_data (desc i t) \<noteq> None then 1 else 0)
      = cached t + 1"
    using cached_upd_desc [of i "t\<lparr>mem_pool := mp\<rparr>" f] assms by simp
  then show ?thesis
    using assms by (auto simp: wf_ft_def split: if_splits)
qed

text \<open>
  Reading a tile always leaves the file's records in memory, even when the stream is at its end
  and the call reports an error.
\<close>

lemma sync_from_file_step:
  assumes wf: "wf_ft TCount t" and i: "i < length (tiles t)" and "0 < TCount"
  obtains b t' where "sync_from_file TCount i t = Inr (b, t')" "cache_step TCount t t'"
    "fetched_data (desc i t') = Some (file_contents (BlockFile i) t)"
    "file_handle (desc i t) = NoHandle \<Longrightarrow> b"
    "\<And>j. j \<noteq> i \<Longrightarrow> desc j t' = desc j t"
    "b \<longleftrightarrow> state (desc i t') = TILE_OK"
proof -
  obtain f where f: "fmlookup (files t) (BlockFile i) = Some f" "good_file TCount f"
    using wf_ft_file [OF wf i] .
  have d: "wf_desc TCount (files t) i (desc i t)"
    using wf i by (rule wf_ftD)
  let ?h = "\<lambda>d. if file_handle d = NoHandle then Opened (BlockFile i) 0 else file_handle d"
  let ?t1 = "upd_desc i (\<lambda>d. d\<lparr>file_handle := ?h d, state := TILE_OK\<rparr>) t"
  have pool: "pool_ok (mem_pool ?t1)" "i < length (tiles ?t1)"
    using wf i by (simp_all add: wf_ft_def)
  obtain mp x where a: "alloc_tile_data TCount i ?t1
        = Inr (upd_desc i (\<lambda>y. y\<lparr>fetched_data := Some x\<rparr>) (?t1\<lparr>mem_pool := mp\<rparr>))"
      "pool_ok mp" "fetched_data (desc i t) = None \<longrightarrow> x = replicate TCount EMPTY"
      "fetched_data (desc i t) \<noteq> None \<longrightarrow> fetched_data (desc i t) = Some x"
      "length (used mp) = length (used (mem_pool t)) + (if fetched_data (desc i t) = None then 1 else 0)"
    by (rule alloc_tile_data_cases [OF pool, of TCount]) (use i in auto)
  have x: "length x = TCount"
    using a d by (cases "fetched_data (desc i t)") (auto simp: wf_desc_def)
  obtain pos where h: "?h (desc i t) = Opened (BlockFile i) pos"
      "pos = 0 \<or> pos = TCount \<and> fetched_data (desc i t) = Some (contents f)"
    using d f by (cases "file_handle (desc i t)") (auto simp: wf_desc_def)
  have fc: "file_contents (BlockFile i) t = contents f" "length (contents f) = TCount"
    using f by (simp_all add: file_contents_def good_file_def)
  let ?b = "pos = 0"
  let ?t' = "upd_desc i (\<lambda>d. d\<lparr>file_handle := Opened (BlockFile i) TCount,
      fetched_data := Some (contents f), state := (if ?b then TILE_OK else ERROR_WHILE_READING)\<rparr>)
      (t\<lparr>mem_pool := mp\<rparr>)"
  have r: "sync_from_file TCount i t = Inr (?b, ?t')"
    using h(2)
  proof
    assume "pos = 0"
    then show ?thesis
      using wf i a h fc x \<open>0 < TCount\<close>
      by (auto simp: sync_from_file_def open_file_eq [OF wf i] fread_def setter_defs transferred_def
          upd_desc_def desc_def file_contents_def)
  next
    assume "pos = TCount \<and> fetched_data (desc i t) = Some (contents f)"
    then show ?thesis
      using wf i a h fc x \<open>0 < TCount\<close>
      by (auto simp: sync_from_file_def open_file_eq [OF wf i] fread_def setter_defs transferred_def
          upd_desc_def desc_def file_contents_def overwrite_def)
  qed
  show thesis
  proof (rule that [OF r])
    show "cache_step TCount t ?t'"
      using wf i d f a fc
      by (auto simp: cache_step_def wf_desc_def intro!: wf_ft_set_data)
    show "file_handle (desc i t) = NoHandle \<Longrightarrow> pos = 0"
      using h by simp
  qed (use i fc in \<open>auto simp: desc_def upd_desc_def\<close>)
qed

lemma release_fetched_data_step:
  assumes wf: "wf_ft TCount t" and i: "i < length (tiles t)" and h: "file_handle (desc i t) = NoHandle"
  obtains t' where "release_fetched_data i t = Inr t'" "cache_step TCount t t'"
    "file_handle (desc i t') = NoHandle" "\<And>j. j \<noteq> i \<Longrightarrow> desc j t' = desc j t"
    "state (desc i t') = TILE_OK"
proof (cases "fetched_data (desc i t)")
  case None
  show thesis
  proof (rule that)
    show "release_fetched_data i t = Inr (set_state i TILE_OK t)"
      using None by (simp add: release_fetched_data_def)
  qed (use wf i h set_state_step [OF wf i] in \<open>simp_all add: set_state_def\<close>)
next
  case (Some d)
  have pos: "0 < length (filter (\<lambda>d. fetched_data d \<noteq> None) (tiles t))"
    using Some i by (auto simp: desc_def filter_empty_conv intro!: bexI [of _ "tiles t ! i"])
  have "used (mem_pool t) \<noteq> []" "pool_ok (mem_pool t)"
    using wf pos by (auto simp: wf_ft_def cached_def)
  from pool_release_ok [OF this(2) this(1), of d] obtain mp where
    mp: "pool_release d (mem_pool t) = Inr mp" "pool_ok mp"
      "length (used mp) = length (used (mem_pool t)) - 1" by blast
  let ?f = "\<lambda>x. x\<lparr>fetched_data := None, state := TILE_OK\<rparr>"
  show thesis
  proof (rule that)
    show "release_fetched_data i t = Inr (upd_desc i ?f (t\<lparr>mem_pool := mp\<rparr>))"
      using Some mp i by (simp add: release_fetched_data_def setter_defs)
    have "wf_desc TCount (files t) i (?f (desc i t))"
      using wf_ftD [OF wf i] h by (auto simp: wf_desc_def split: option.splits)
    moreover have "cached (upd_desc i ?f (t\<lparr>mem_pool := mp\<rparr>)) + 1 = cached t"
      using cached_upd_desc [of i "t\<lparr>mem_pool := mp\<rparr>" ?f] Some i by simp
    ultimately show "cache_step TCount t (upd_desc i ?f (t\<lparr>mem_pool := mp\<rparr>))"
      using wf i mp pos by (auto simp: cache_step_def wf_ft_def)
  qed (use i h in simp_all)
qed

text \<open>Writing one record changes that record of the file, and nothing in memory.\<close>

lemma tile_write_step:
  assumes wf: "wf_ft TCount t" and i: "i < length (tiles t)" and k: "k < TCount"
  obtains t' where "tile_write TCount i rec k False t = Inr (True, t')" "wf_ft TCount t'"
    "length (tiles t') = length (tiles t)"
    "file_contents (BlockFile i) t' = (file_contents (BlockFile i) t)[k := rec]"
    "\<And>r. r \<noteq> BlockFile i \<Longrightarrow> fmlookup (files t') r = fmlookup (files t) r"
    "\<And>j. fetched_data (desc j t') = fetched_data (desc j t)"
proof -
  obtain f where f: "fmlookup (files t) (BlockFile i) = Some f" "good_file TCount f"
    using wf_ft_file [OF wf i] .
  have d: "wf_desc TCount (files t) i (desc i t)"
    using wf i by (rule wf_ftD)
  let ?c = "(contents f)[k := rec]"
  let ?t' = "upd_desc i (\<lambda>d. d\<lparr>state := TILE_OK, file_handle := Opened (BlockFile i) 0\<rparr>)
      (put_contents (BlockFile i) ?c t)"
  obtain pos where h: "(if file_handle (desc i t) = NoHandle then Opened (BlockFile i) 0
      else file_handle (desc i t)) = Opened (BlockFile i) pos"
    using d f by (cases "file_handle (desc i t)") (auto simp: wf_desc_def)
  have fc: "file_contents (BlockFile i) t = contents f" "length (contents f) = TCount"
    using f by (simp_all add: file_contents_def good_file_def)
  have w: "write_at k [rec] (contents f) = ?c"
    using fc k by (simp add: write_at_def overwrite_single)
  have lk: "fmlookup (files ?t') r = (if r = BlockFile i then Some (f\<lparr>contents := ?c\<rparr>)
      else fmlookup (files t) r)" for r
    using f by (simp add: lookup_put_contents)
  show thesis
  proof (rule that)
    show "tile_write TCount i rec k False t = Inr (True, ?t')"
      using wf i h k f fc w
      by (simp add: tile_write_def open_file_eq [OF wf i] fseek_def fwrite_def setter_defs
          transferred_def)
    have "wf_desc TCount (files ?t') j (desc j ?t')" if "j < length (tiles t)" for j
      using wf_ftD [OF wf that] i f d lk
      by (auto simp: wf_desc_def good_file_def split: option.splits handle.splits)
    moreover have "cached ?t' = cached t"
      using cached_upd_desc [of i "put_contents (BlockFile i) ?c t"
          "\<lambda>d. d\<lparr>state := TILE_OK, file_handle := Opened (BlockFile i) 0\<rparr>"] i
      by (auto split: if_splits)
    ultimately show "wf_ft TCount ?t'"
      using wf by (simp add: wf_ft_def)
    show "file_contents (BlockFile i) ?t' = (file_contents (BlockFile i) t)[k := rec]"
      using fc f by (simp add: file_contents_def lookup_put_contents)
    show "fmlookup (files ?t') r = fmlookup (files t) r" if "r \<noteq> BlockFile i" for r
      using that lk by simp
  qed (use i in \<open>auto simp: desc_def upd_desc_def nth_list_update\<close>)
qed

text \<open>A new tile, filled and written out: the file holds the records and the tail is in memory.\<close>

lemma append_tile_eq:
  obtains d0 u where "append_tile t = (length (tiles t), t\<lparr>tiles := tiles t @ [d0], unused_tiles := u\<rparr>)"
    "index d0 = length (tiles t)" "state d0 = TILE_OK" "fetched_data d0 = None"
    "file_handle d0 = NoHandle" "sup_checksum (sup d0) = zero_checksum"
proof -
  obtain d1 u where c: "create_tile_desc (length (tiles t)) t = (d1, t\<lparr>unused_tiles := u\<rparr>)"
    by (simp add: create_tile_desc_def Let_def)
  then have "index d1 = length (tiles t)" "fetched_data d1 = None" "file_handle d1 = NoHandle"
      "sup_checksum (sup d1) = zero_checksum"
    by (auto simp: create_tile_desc_def TileDesc_reset_def sup_reset_def Let_def)
  then show thesis
    using c by (intro that [of u "d1\<lparr>state := TILE_OK\<rparr>"]) (simp_all add: append_tile_def)
qed

lemma new_tile_step:
  assumes wf: "wf_ft TCount t" and n: "n = length (tiles t)" and "length d = TCount"
    and fl: "fmlookup (files t) (BlockFile n) = None \<or>
      (\<exists>f. fmlookup (files t) (BlockFile n) = Some f \<and> good_file TCount f)"
  obtains t2 t3 t5 where "append_tile t = (n, t2)" "alloc_tile_data TCount n t2 = Inr t3"
    "get_tile_data n t3 = (Some (replicate TCount EMPTY), set_state n TILE_OK t3)"
    "sync_to_file TCount n False (set_data n (Some d) (set_state n TILE_OK t3)) = Inr (True, t5)"
    "wf_ft TCount t5" "length (tiles t5) = n + 1"
    "file_contents (BlockFile n) t5 = d" "fetched_data (desc n t5) = Some d"
    "\<And>r. r \<noteq> BlockFile n \<Longrightarrow> fmlookup (files t5) r = fmlookup (files t) r"
proof -
  obtain d0 u where a: "append_tile t = (n, t\<lparr>tiles := tiles t @ [d0], unused_tiles := u\<rparr>)"
      "index d0 = n" "state d0 = TILE_OK" "fetched_data d0 = None"
      "file_handle d0 = NoHandle" "sup_checksum (sup d0) = zero_checksum"
    using append_tile_eq n by metis
  let ?t2 = "t\<lparr>tiles := tiles t @ [d0], unused_tiles := u\<rparr>"
  have d2: "desc n ?t2 = d0" "n < length (tiles ?t2)" "pool_ok (mem_pool ?t2)"
    using n wf by (simp_all add: desc_def wf_ft_def)
  obtain mp where al: "alloc_tile_data TCount n ?t2
      = Inr (upd_desc n (\<lambda>x. x\<lparr>fetched_data := Some (replicate TCount EMPTY)\<rparr>) (?t2\<lparr>mem_pool := mp\<rparr>))"
      "pool_ok mp" "length (used mp) = length (used (mem_pool t)) + 1"
    by (rule alloc_tile_data_cases [OF d2(3) d2(2), of TCount]) (use a(4) d2(1) in auto)
  let ?t3 = "upd_desc n (\<lambda>x. x\<lparr>fetched_data := Some (replicate TCount EMPTY)\<rparr>) (?t2\<lparr>mem_pool := mp\<rparr>)"
  let ?g = "if fmlookup (files t) (BlockFile n) = None then new_file
            else the (fmlookup (files t) (BlockFile n))"
  let ?dd = "d0\<lparr>fetched_data := Some d, state := TILE_OK, file_handle := Opened (BlockFile n) TCount\<rparr>"
  let ?t5 = "t\<lparr>tiles := tiles t @ [?dd], unused_tiles := u, mem_pool := mp,
      files := fmupd (BlockFile n) (?g\<lparr>contents := d\<rparr>) (files t)\<rparr>"
  have g: "good_file TCount (?g\<lparr>contents := d\<rparr>)"
    using fl \<open>length d = TCount\<close> by (auto simp: good_file_def new_file_def)
  show thesis
  proof (rule that)
    show "append_tile t = (n, ?t2)" "alloc_tile_data TCount n ?t2 = Inr ?t3"
      by (fact a al)+
    show "get_tile_data n ?t3 = (Some (replicate TCount EMPTY), set_state n TILE_OK ?t3)"
      using d2 by (simp add: get_tile_data_def)
    show "sync_to_file TCount n False (set_data n (Some d) (set_state n TILE_OK ?t3)) = Inr (True, ?t5)"
      using fl
    proof
      assume "fmlookup (files t) (BlockFile n) = None"
      then show ?thesis
        using wf n a d2 \<open>length d = TCount\<close>
        by (simp add: sync_to_file_def open_file_def check_file2_def fwrite_def setter_defs Let_def
            transferred_def upd_desc_def desc_def put_contents_def write_at_def file_contents_def
            new_file_def nth_append list_update_append overwrite_def)
    next
      assume "\<exists>f. fmlookup (files t) (BlockFile n) = Some f \<and> good_file TCount f"
      then obtain f where "fmlookup (files t) (BlockFile n) = Some f" "good_file TCount f"
        by blast
      then show ?thesis
        using wf n a d2 \<open>length d = TCount\<close>
        by (simp add: sync_to_file_def open_file_def check_file2_def fwrite_def setter_defs Let_def
            transferred_def upd_desc_def desc_def put_contents_def write_at_def file_contents_def
            good_file_def nth_append list_update_append overwrite_def)
    qed
    have "wf_desc TCount (files ?t5) j (desc j ?t5)" if "j < length (tiles ?t5)" for j
    proof (cases "j = n")
      case True
      then show ?thesis
        using a n g \<open>length d = TCount\<close> by (simp add: wf_desc_def desc_def nth_append)
    next
      case False
      then have "j < length (tiles t)" "desc j ?t5 = desc j t"
        using that n by (simp_all add: desc_def nth_append)
      with wf_ftD [OF wf, of j] False show ?thesis
        by (simp add: wf_desc_def)
    qed
    moreover have "cached ?t5 = cached t + 1"
      by (simp add: cached_def)
    ultimately show "wf_ft TCount ?t5"
      using wf al by (simp add: wf_ft_def)
  qed (use n in \<open>simp_all add: file_contents_def desc_def nth_append\<close>)
qed

end
