(* ===== verification/Block_Storage.thy ===== *)
theory Block_Storage
  imports File_Tile
begin

text \<open>
  \<open>src/blockchain.h\<close>: the append-only store of records. Records are kept in blocks of \<open>RecCount\<close>;
  every block ends with a checksum record, and the last record of the chain is always a checksum.
  \<open>ValidatedMultipartBlockchain\<close> adds a validator and appends the parts of a transaction one by one.

  SHA-512 (\<open>sha\<close>) and the memory image of a record (\<open>img\<close>) come from outside the sources and are
  arguments; so is the clock (\<open>now\<close>).
\<close>

section \<open>State\<close>

datatype ExitCode =
    OK | NON_EMPTY_RECORD_AFTER_CHECKSUM | EMPTY_RECORD_BEFORE_CHECKSUM | NO_PAYLOAD | NO_CHECKSUM
  | EXPECTED_FULL_BLOCK | ONLY_LAST_BLOCK_MAY_NOT_BE_FULL | BAD_CHECKSUM | WRITE_ERROR | READ_ERROR
  | LAST_BLOCK_NOT_FULL | INDEX_TOO_LARGE | BAD_BLOCK_LENGTH

record 'p Blockchain =
  ft :: "'p FileTile"
  checksum_valid_block_count :: nat
  rec_count :: nat
  next_cache_flush_timestamp :: nat
  optimal_cache_size :: nat
  cache_auto_flush_min_interval_sec :: nat

text \<open>The result of an operation that returns a flag and sets an exit code.\<close>

type_synonym 'p bc_res = "((bool \<times> ExitCode) \<times> 'p Blockchain) res"

definition Blockchain_new ::
  "nat \<Rightarrow> nat \<Rightarrow> (file_ref, 'p os_file) fmap \<Rightarrow> io_outcome list \<Rightarrow> nat \<Rightarrow> nat \<Rightarrow> 'p Blockchain res" where
  "Blockchain_new RecCount file_count fs script cache interval =
     (if RecCount < 2 then Inl (Throw ''Blockchain: RecCount < 2'')
      else Inr \<lparr>ft = FileTile_new RecCount file_count fs script,
                checksum_valid_block_count = 0, rec_count = 0, next_cache_flush_timestamp = 0,
                optimal_cache_size = cache, cache_auto_flush_min_interval_sec = interval\<rparr>)"

definition get_block_count :: "'p Blockchain \<Rightarrow> nat" where
  "get_block_count s = get_tile_count (ft s)"

definition get_checksum_valid_block_count :: "'p Blockchain \<Rightarrow> nat" where
  "get_checksum_valid_block_count s = checksum_valid_block_count s"

definition get_rec_count :: "'p Blockchain \<Rightarrow> nat" where
  "get_rec_count s = rec_count s"

definition is_block_valid :: "nat \<Rightarrow> 'p Blockchain \<Rightarrow> bool" where
  "is_block_valid i s \<longleftrightarrow> i < checksum_valid_block_count s"

definition truncate :: "nat \<Rightarrow> 'p Blockchain \<Rightarrow> 'p Blockchain" where
  "truncate first s = s\<lparr>ft := truncate_tail first (ft s)\<rparr>"


section \<open>Cache\<close>

text \<open>The first loop of \<open>flush_cache\<close>: close every file but the last, collect the cached tiles.\<close>

fun close_tiles :: "nat list \<Rightarrow> 'p FileTile \<Rightarrow> ((nat \<times> nat) list \<times> 'p FileTile) res" where
  "close_tiles [] t = Inr ([], t)"
| "close_tiles (i # is) t =
     (case get_tile_data i t of
        (d, t1) \<Rightarrow>
          bind_res (close_file i t1) (\<lambda>t2.
            bind_res (close_tiles is t2) (\<lambda>(sti, t3).
              Inr (if d = None then sti else (i, last_use (sup (desc i t1))) # sti, t3))))"

fun release_tiles :: "nat list \<Rightarrow> 'p FileTile \<Rightarrow> 'p FileTile res" where
  "release_tiles [] t = Inr t"
| "release_tiles (i # is) t = bind_res (release_fetched_data i t) (release_tiles is)"

definition flush_cache :: "nat \<Rightarrow> 'p Blockchain \<Rightarrow> 'p Blockchain res" where
  "flush_cache now s =
     (if get_tile_count (ft s) = 0 then Inr s
      else bind_res (close_tiles [0..<get_tile_count (ft s) - 1] (ft s)) (\<lambda>(sti, t1).
        bind_res
          (if optimal_cache_size s < length sti
           then release_tiles (map fst (take (length sti - optimal_cache_size s) (sort_key snd sti))) t1
           else Inr t1)
          (\<lambda>t2. Inr (s\<lparr>ft := t2,
              next_cache_flush_timestamp := now + cache_auto_flush_min_interval_sec s\<rparr>))))"

definition maybe_flush_cache :: "nat \<Rightarrow> 'p Blockchain \<Rightarrow> 'p Blockchain res" where
  "maybe_flush_cache now s =
     (if next_cache_flush_timestamp s < now then flush_cache now s else Inr s)"


section \<open>Checksums and validation\<close>

definition calc_checksum ::
  "(bytes \<Rightarrow> bytes) \<Rightarrow> ('p Record \<Rightarrow> bytes) \<Rightarrow> bytes \<Rightarrow> 'p Record \<Rightarrow> bytes" where
  "calc_checksum sha img prev r = sha (prev @ img r)"

text \<open>The \<open>checksum\<close> member of the union, whatever the record holds.\<close>

definition checksum_field :: "('p Record \<Rightarrow> bytes) \<Rightarrow> 'p Record \<Rightarrow> bytes" where
  "checksum_field img r =
     (case r of EMPTY \<Rightarrow> zero_checksum | CHECKSUM c \<Rightarrow> c
      | _ \<Rightarrow> take BLOCKCHAIN_CHECKSUM_SIZE (drop 1 (img r)))"

definition get_prev_checksum :: "nat \<Rightarrow> 'p FileTile \<Rightarrow> bytes res" where
  "get_prev_checksum block_index t =
     (if block_index = 0 then Inr zero_checksum
      else bind_res (get_tile (block_index - 1) t) (\<lambda>i.
        if state (desc i t) = TILE_OK then Inr (sup_checksum (sup (desc i t)))
        else Inl (Throw ''no checksum for block_index'')))"

text \<open>The loop of \<open>validate_block\<close>: an exit code, or the final values of \<open>finished\<close> and \<open>has_empty\<close>.\<close>

fun scan_block :: "'p Record list \<Rightarrow> bool \<Rightarrow> bool \<Rightarrow> bool \<Rightarrow> ExitCode + bool \<times> bool" where
  "scan_block [] finished has_empty has_payload = Inr (finished, has_empty)"
| "scan_block (r # rs) finished has_empty has_payload =
     (if finished then
        (if r \<noteq> EMPTY then Inl NON_EMPTY_RECORD_AFTER_CHECKSUM
         else scan_block rs finished True has_payload)
      else case r of
        PAYLOAD _ \<Rightarrow> scan_block rs finished has_empty True
      | EMPTY \<Rightarrow> Inl EMPTY_RECORD_BEFORE_CHECKSUM
      | CHECKSUM _ \<Rightarrow>
          (if \<not> has_payload then Inl NO_PAYLOAD else scan_block rs True has_empty has_payload)
      | other_record_type _ \<Rightarrow> scan_block rs finished has_empty has_payload)"

text \<open>
  \<open>validate_block\<close>: the two returns of a nonzero exit code in a function of type \<open>bool\<close> yield
  true and leave \<open>ec\<close> as it was; the comparison of the checksum is commented out in the source.
\<close>

definition validate_block ::
  "nat \<Rightarrow> 'p Record list \<Rightarrow> bool \<Rightarrow> ExitCode \<Rightarrow> 'p FileTile \<Rightarrow> (bool \<times> ExitCode) res" where
  "validate_block block_index r must_be_full ec t =
     (case scan_block r False False False of
        Inl e \<Rightarrow> Inr (False, e)
      | Inr (finished, has_empty) \<Rightarrow>
          (if \<not> finished then Inr (False, NO_CHECKSUM)
           else if must_be_full \<and> has_empty then Inr (True, ec)
           else if has_empty \<and> block_index + 1 \<noteq> get_tile_count t then Inr (True, ec)
           else bind_res (get_prev_checksum block_index t) (\<lambda>_. Inr (True, OK))))"

definition block_rec_count :: "'p Record list \<Rightarrow> nat" where
  "block_rec_count r = length (takeWhile (\<lambda>x. x \<noteq> EMPTY) r)"

text \<open>\<open>move_to_bad\<close>: \<open>Poco::File::moveTo\<close> copies the file and removes the original.\<close>

definition move_to_bad :: "nat \<Rightarrow> nat \<Rightarrow> 'p FileTile \<Rightarrow> 'p FileTile res" where
  "move_to_bad now i t =
     (case fmlookup (files t) (BlockFile i) of
        None \<Rightarrow> Inl (Throw ''Poco::FileNotFoundException'')
      | Some f \<Rightarrow>
          (let moved = fmdrop (BlockFile i) (fmupd (BadFile now i) f (files t))
           in Inr (case file_handle (desc i t) of
                     Opened (BlockFile _) pos \<Rightarrow>
                       set_handle i (Opened (UnlinkedFile i) pos)
                         (t\<lparr>files := fmupd (UnlinkedFile i) f moved\<rparr>)
                   | _ \<Rightarrow> t\<lparr>files := moved\<rparr>)))"


section \<open>Operations\<close>

text \<open>The two branches of \<open>append\<close>: the record opens a new block, or goes into the last one.\<close>

definition append_new_block ::
  "(bytes \<Rightarrow> bytes) \<Rightarrow> ('p Record \<Rightarrow> bytes) \<Rightarrow> nat \<Rightarrow> 'p \<Rightarrow> 'p Blockchain \<Rightarrow> 'p bc_res" where
  "append_new_block sha img RecCount rec_payload s =
     (let tc = get_tile_count (ft s); rec = PAYLOAD rec_payload
      in bind_res (if 0 < tc then close_file (tc - 1) (ft s) else Inr (ft s)) (\<lambda>t1.
           bind_res (get_prev_checksum tc t1) (\<lambda>prev.
             let cr = CHECKSUM (calc_checksum sha img prev rec);
                 valid = (if tc = checksum_valid_block_count s
                          then checksum_valid_block_count s + 1 else checksum_valid_block_count s);
                 (i, t2) = append_tile t1
             in bind_res (alloc_tile_data RecCount i t2) (\<lambda>t3.
                  case get_tile_data i t3 of
                    (None, _) \<Rightarrow> Inl (Undefined ''null pointer'')
                  | (Some d, t4) \<Rightarrow>
                      bind_res (sync_to_file RecCount i False
                          (set_data i (Some (d[0 := rec, 1 := cr])) t4)) (\<lambda>(written, t5).
                        Inr (if written then (True, OK) else (False, WRITE_ERROR),
                             s\<lparr>ft := t5, checksum_valid_block_count := valid,
                               rec_count := rec_count s + 2\<rparr>))))))"

definition append_to_block ::
  "(bytes \<Rightarrow> bytes) \<Rightarrow> ('p Record \<Rightarrow> bytes) \<Rightarrow> nat \<Rightarrow> 'p \<Rightarrow> nat \<Rightarrow> 'p Blockchain \<Rightarrow> 'p bc_res" where
  "append_to_block sha img RecCount rec_payload block_pos s =
     (let tc = get_tile_count (ft s); rec = PAYLOAD rec_payload
      in bind_res (get_tile (if tc = 0 then 2 ^ 32 - 1 else tc - 1) (ft s)) (\<lambda>i.
           case get_tile_data i (ft s) of
             (None, _) \<Rightarrow> Inl (Undefined ''null pointer'')
           | (Some d, t1) \<Rightarrow>
               (let prev = checksum_field img (d ! (block_pos - 1));
                    cr = CHECKSUM (calc_checksum sha img prev rec)
                in bind_res (tile_write RecCount i rec (block_pos - 1) False t1) (\<lambda>(w1, t2).
                     if \<not> w1 then Inr ((False, WRITE_ERROR), s\<lparr>ft := t2\<rparr>)
                     else bind_res (tile_write RecCount i cr block_pos False t2) (\<lambda>(w2, t3).
                       if \<not> w2 then Inr ((False, WRITE_ERROR), s\<lparr>ft := t3\<rparr>)
                       else Inr ((True, OK), s\<lparr>ft := t3, rec_count := rec_count s + 1\<rparr>))))))"

definition bc_append ::
  "(bytes \<Rightarrow> bytes) \<Rightarrow> ('p Record \<Rightarrow> bytes) \<Rightarrow> nat \<Rightarrow> nat \<Rightarrow> 'p \<Rightarrow> 'p Blockchain \<Rightarrow> 'p bc_res" where
  "bc_append sha img RecCount now rec_payload s0 =
     bind_res (maybe_flush_cache now s0) (\<lambda>s.
       let block_pos = rec_count s mod RecCount
       in if block_pos = 0 then append_new_block sha img RecCount rec_payload s
          else append_to_block sha img RecCount rec_payload block_pos s)"

definition replace_block ::
  "nat \<Rightarrow> nat \<Rightarrow> nat \<Rightarrow> 'p Record list \<Rightarrow> 'p Blockchain \<Rightarrow> 'p bc_res" where
  "replace_block RecCount now i d s0 =
     bind_res (maybe_flush_cache now s0) (\<lambda>s.
       if i < get_tile_count (ft s) then
         bind_res (validate_block i d True OK (ft s)) (\<lambda>(valid, ec).
           if \<not> valid then Inr ((False, ec), s)
           else bind_res (set_tile_data RecCount i d (ft s)) (\<lambda>t1.
             bind_res (sync_to_file RecCount i True t1) (\<lambda>(written, t2).
               Inr (if written then (True, ec) else (False, WRITE_ERROR), s\<lparr>ft := t2\<rparr>))))
       else Inr ((False, INDEX_TOO_LARGE), s))"

definition validate_next_checksum :: "nat \<Rightarrow> nat \<Rightarrow> 'p Blockchain \<Rightarrow> 'p bc_res" where
  "validate_next_checksum RecCount now s0 =
     bind_res (maybe_flush_cache now s0) (\<lambda>s.
       let i = checksum_valid_block_count s
       in if i < get_tile_count (ft s) then
            bind_res (sync_from_file RecCount i (ft s)) (\<lambda>(synced, t1).
              if synced then
                (case get_tile_data i t1 of
                   (None, _) \<Rightarrow> Inl (Undefined ''null pointer'')
                 | (Some r, t2) \<Rightarrow>
                     bind_res (validate_block i r False OK t2) (\<lambda>(valid, ec).
                       if valid then
                         Inr ((True, ec), s\<lparr>ft := t2, checksum_valid_block_count := i + 1,
                                            rec_count := rec_count s + block_rec_count r\<rparr>)
                       else bind_res (move_to_bad now i t2) (\<lambda>t3. Inr ((False, ec), s\<lparr>ft := t3\<rparr>))))
              else if state (desc i t1) = MISSING_FILE then Inr ((False, OK), s\<lparr>ft := t1\<rparr>)
              else if state (desc i t1) = BAD_LENGTH then
                bind_res (move_to_bad now i t1) (\<lambda>t2. Inr ((False, BAD_BLOCK_LENGTH), s\<lparr>ft := t2\<rparr>))
              else Inl (Throw ''bad block file, cannot recover''))
          else Inr ((False, OK), s))"

text \<open>A block is returned as its in-memory records, or none; the exit code is set as in the source.\<close>

definition get_block ::
  "nat \<Rightarrow> nat \<Rightarrow> nat \<Rightarrow> 'p Blockchain \<Rightarrow> (('p Record list option \<times> ExitCode) \<times> 'p Blockchain) res" where
  "get_block RecCount now idx s0 =
     bind_res (maybe_flush_cache now s0) (\<lambda>s.
       bind_res (get_tile idx (ft s)) (\<lambda>i.
         bind_res (sync_from_file RecCount i (ft s)) (\<lambda>(_, t1).
           case get_tile_data i t1 of
             (Some d, t2) \<Rightarrow> Inr ((Some d, OK), s\<lparr>ft := t2\<rparr>)
           | (None, t2) \<Rightarrow>
               bind_res (sync_from_file RecCount i t2) (\<lambda>(synced, t3).
                 if \<not> synced then Inr ((None, OK), s\<lparr>ft := t3\<rparr>)
                 else case get_tile_data i t3 of
                   (None, _) \<Rightarrow> Inl (Undefined ''null pointer'')
                 | (Some d, t4) \<Rightarrow>
                     bind_res (validate_block i d False OK t4) (\<lambda>(valid, ec).
                       Inr ((if valid then Some d else None, ec), s\<lparr>ft := t4\<rparr>))))))"

text \<open>\<open>get_record\<close> locates the record with \<open>GRADIDO_BLOCK_SIZE\<close>, whatever \<open>RecCount\<close> is.\<close>

definition get_record ::
  "nat \<Rightarrow> nat \<Rightarrow> nat \<Rightarrow> 'p Blockchain \<Rightarrow> (('p Record option \<times> ExitCode) \<times> 'p Blockchain) res" where
  "get_record RecCount now idx s =
     (if rec_count s \<le> idx then Inr ((None, INDEX_TOO_LARGE), s)
      else bind_res (get_block RecCount now (idx div GRADIDO_BLOCK_SIZE) s) (\<lambda>((d, ec), s1).
        case d of
          None \<Rightarrow> Inr ((None, ec), s1)
        | Some rs \<Rightarrow>
            (if idx mod GRADIDO_BLOCK_SIZE < length rs
             then Inr ((Some (rs ! (idx mod GRADIDO_BLOCK_SIZE)), OK), s1)
             else Inl (Undefined ''record beyond the end of the block''))))"

text \<open>\<open>ValidatedMultipartBlockchain::append\<close>.\<close>

fun append_all ::
  "(bytes \<Rightarrow> bytes) \<Rightarrow> ('p Record \<Rightarrow> bytes) \<Rightarrow> nat \<Rightarrow> nat \<Rightarrow> 'p list \<Rightarrow> ExitCode \<Rightarrow> 'p Blockchain \<Rightarrow> 'p bc_res"
where
  "append_all sha img RecCount now [] ec s = Inr ((True, ec), s)"
| "append_all sha img RecCount now (p # ps) ec s =
     bind_res (bc_append sha img RecCount now p s) (\<lambda>((done, ec1), s1).
       if done then append_all sha img RecCount now ps ec1 s1 else Inr ((False, ec1), s1))"

definition validated_append ::
  "('p list \<Rightarrow> bool) \<Rightarrow> (bytes \<Rightarrow> bytes) \<Rightarrow> ('p Record \<Rightarrow> bytes) \<Rightarrow> nat \<Rightarrow> nat \<Rightarrow> 'p list \<Rightarrow> ExitCode
     \<Rightarrow> 'p Blockchain \<Rightarrow> 'p bc_res" where
  "validated_append is_valid sha img RecCount now ps ec s =
     (if is_valid ps then append_all sha img RecCount now ps ec s else Inr ((False, ec), s))"


section \<open>Behaviour of the cache\<close>

lemma close_tiles_step:
  assumes "wf_ft n t" "\<forall>i \<in> set is. i < length (tiles t)"
  shows "\<exists>sti t'. close_tiles is t = Inr (sti, t') \<and> cache_step n t t' \<and> fst ` set sti \<subseteq> set is
    \<and> (\<forall>j \<in> set is. file_handle (desc j t') = NoHandle) \<and> (\<forall>j. j \<notin> set is \<longrightarrow> desc j t' = desc j t)
    \<and> calm_step t t'"
  using assms
proof (induction "is" arbitrary: t)
  case Nil
  then show ?case
    by (simp add: cache_step_refl)
next
  case (Cons i "is")
  then have i: "i < length (tiles t)"
    by simp
  let ?t1 = "set_state i TILE_OK t"
  have t1: "cache_step n t ?t1" "length (tiles ?t1) = length (tiles t)"
    using set_state_step [OF Cons.prems(1) i] by (simp_all add: cache_step_def)
  have wf1: "wf_ft n ?t1"
    using t1 by (simp add: cache_step_def)
  obtain t2 where t2: "close_file i ?t1 = Inr t2" "cache_step n ?t1 t2"
      "desc i t2 = (desc i ?t1)\<lparr>file_handle := NoHandle, state := TILE_OK\<rparr>"
      "\<And>j. j \<noteq> i \<Longrightarrow> desc j t2 = desc j ?t1"
    by (rule close_file_step [OF wf1, of i]) (use i t1 in auto)
  have "wf_ft n t2" "\<forall>j \<in> set is. j < length (tiles t2)"
    using t2 t1 Cons.prems by (auto simp: cache_step_def)
  from Cons.IH [OF this] obtain sti t' where
    t': "close_tiles is t2 = Inr (sti, t')" "cache_step n t2 t'" "fst ` set sti \<subseteq> set is"
      "\<forall>j \<in> set is. file_handle (desc j t') = NoHandle" "\<forall>j. j \<notin> set is \<longrightarrow> desc j t' = desc j t2"
      "calm_step t2 t'"
    by blast
  have "cache_step n t t'"
    by (rule cache_step_trans [OF cache_step_trans [OF t1(1) t2(2)] t'(2)])
  moreover have "calm_step t t'"
    by (rule calm_step_trans [OF calm_step_at [where i = i] t'(6)]) (simp_all add: t2(3,4) i set_state_def)
  moreover have "file_handle (desc j t') = NoHandle" if "j \<in> set (i # is)" for j
    using that t2(3) t'(4,6) by (cases "j = i") (simp_all add: calm_step_def)
  moreover have "desc j t' = desc j t" if "j \<notin> set (i # is)" for j
    using that t2(4) [of j] t'(5) i by (simp add: set_state_def)
  moreover have "\<exists>sti'. close_tiles (i # is) t = Inr (sti', t') \<and> fst ` set sti' \<subseteq> set (i # is)"
    using t2(1) t'(1,3) by (auto simp: get_tile_data_def)
  ultimately show ?case
    by blast
qed

lemma release_tiles_step:
  assumes "wf_ft n t" "\<forall>i \<in> set is. i < length (tiles t) \<and> file_handle (desc i t) = NoHandle"
  shows "\<exists>t'. release_tiles is t = Inr t' \<and> cache_step n t t' \<and> calm_step t t'
    \<and> (\<forall>j. j \<notin> set is \<longrightarrow> desc j t' = desc j t)"
  using assms
proof (induction "is" arbitrary: t)
  case Nil
  then show ?case
    by (simp add: cache_step_refl)
next
  case (Cons i "is")
  obtain t1 where t1: "release_fetched_data i t = Inr t1" "cache_step n t t1"
      "file_handle (desc i t1) = NoHandle" "\<And>j. j \<noteq> i \<Longrightarrow> desc j t1 = desc j t"
      "state (desc i t1) = TILE_OK"
    by (rule release_fetched_data_step [OF Cons.prems(1), of i]) (use Cons.prems(2) in auto)
  have "file_handle (desc j t1) = NoHandle" if "j \<in> set is" for j
    using that t1(3,4) Cons.prems(2) by (cases "j = i") auto
  then have "wf_ft n t1" "\<forall>j \<in> set is. j < length (tiles t1) \<and> file_handle (desc j t1) = NoHandle"
    using Cons.prems t1(2) by (auto simp: cache_step_def)
  from Cons.IH [OF this] obtain t' where t': "release_tiles is t1 = Inr t'" "cache_step n t1 t'"
      "calm_step t1 t'" "\<forall>j. j \<notin> set is \<longrightarrow> desc j t' = desc j t1"
    by blast
  moreover have "calm_step t t'"
    by (rule calm_step_trans [OF calm_step_at [where i = i] t'(3)]) (simp_all add: t1(3-5))
  ultimately show ?case
    using t1 cache_step_trans [OF t1(2)] by auto
qed

text \<open>Flushing changes caches only and leaves the last tile alone.\<close>

definition store_step :: "nat \<Rightarrow> 'p Blockchain \<Rightarrow> 'p Blockchain \<Rightarrow> bool" where
  "store_step n s s' \<longleftrightarrow> cache_step n (ft s) (ft s') \<and> rec_count s' = rec_count s
     \<and> checksum_valid_block_count s' = checksum_valid_block_count s
     \<and> optimal_cache_size s' = optimal_cache_size s
     \<and> cache_auto_flush_min_interval_sec s' = cache_auto_flush_min_interval_sec s"

lemma flush_cache_step:
  assumes wf: "wf_ft n (ft s)"
  obtains s' where "flush_cache now s = Inr s'" "store_step n s s'" "calm_step (ft s) (ft s')"
    "\<And>j. length (tiles (ft s)) \<le> j + 1 \<Longrightarrow> desc j (ft s') = desc j (ft s)"
proof (cases "tiles (ft s) = []")
  case True
  then show thesis
    using wf by (intro that [of s])
      (simp_all add: flush_cache_def get_tile_count_def store_step_def cache_step_refl)
next
  case False
  let ?is = "[0..<length (tiles (ft s)) - 1]"
  have b: "\<forall>i \<in> set ?is. i < length (tiles (ft s))"
    by auto
  obtain sti t1 where t1: "close_tiles ?is (ft s) = Inr (sti, t1)" "cache_step n (ft s) t1"
      "fst ` set sti \<subseteq> set ?is" "\<forall>j \<in> set ?is. file_handle (desc j t1) = NoHandle"
      "\<forall>j. j \<notin> set ?is \<longrightarrow> desc j t1 = desc j (ft s)" "calm_step (ft s) t1"
    using close_tiles_step [OF wf b] by blast
  let ?rs = "map fst (take (length sti - optimal_cache_size s) (sort_key snd sti))"
  have rs: "set ?rs \<subseteq> set ?is"
  proof -
    have "set ?rs \<subseteq> fst ` set sti"
      using set_take_subset [of _ "sort_key snd sti"] by auto
    with t1(3) show ?thesis by blast
  qed
  have "wf_ft n t1" "\<forall>i \<in> set ?rs. i < length (tiles t1) \<and> file_handle (desc i t1) = NoHandle"
    using t1 rs False by (auto simp: cache_step_def)
  from release_tiles_step [OF this] obtain t2 where
    t2: "release_tiles ?rs t1 = Inr t2" "cache_step n t1 t2" "\<forall>j. j \<notin> set ?rs \<longrightarrow> desc j t2 = desc j t1"
      "calm_step t1 t2"
    by blast
  let ?t = "if optimal_cache_size s < length sti then t2 else t1"
  have "flush_cache now s = Inr (s\<lparr>ft := ?t,
      next_cache_flush_timestamp := now + cache_auto_flush_min_interval_sec s\<rparr>)"
    using False t1 t2 by (simp add: flush_cache_def get_tile_count_def)
  moreover have "cache_step n (ft s) ?t"
    using t1(2) cache_step_trans [OF t1(2) t2(2)] by simp
  moreover have "calm_step (ft s) ?t"
    using t1(6) calm_step_trans [OF t1(6) t2(4)] by simp
  moreover have "desc j ?t = desc j (ft s)" if "length (tiles (ft s)) \<le> j + 1" for j
  proof -
    have "j \<notin> set ?is" "j \<notin> set ?rs"
      using that rs by auto
    then show ?thesis
      using t1(5) t2(3) by simp
  qed
  ultimately show thesis
    by (intro that [of "s\<lparr>ft := ?t,
          next_cache_flush_timestamp := now + cache_auto_flush_min_interval_sec s\<rparr>"])
      (simp_all add: store_step_def)
qed

lemma maybe_flush_cache_step:
  assumes wf: "wf_ft n (ft s)"
  obtains s' where "maybe_flush_cache now s = Inr s'" "store_step n s s'" "calm_step (ft s) (ft s')"
    "\<And>j. length (tiles (ft s)) \<le> j + 1 \<Longrightarrow> desc j (ft s') = desc j (ft s)"
proof (cases "next_cache_flush_timestamp s < now")
  case True
  with flush_cache_step [OF wf, of now] that show thesis
    by (auto simp: maybe_flush_cache_def)
next
  case False
  then show thesis
    using wf by (intro that [of s]) (simp_all add: maybe_flush_cache_def store_step_def cache_step_refl)
qed


section \<open>The abstract content of the store\<close>

text \<open>
  The specification of the store is the list of payloads appended so far. Its blocks are its
  chunks of \<open>RecCount - 1\<close> payloads, each followed by a checksum and filled up with empty records.
\<close>

definition block_payloads :: "nat \<Rightarrow> nat \<Rightarrow> 'p list \<Rightarrow> 'p list" where
  "block_payloads RecCount i ps = take (RecCount - 1) (drop (i * (RecCount - 1)) ps)"

definition block_total :: "nat \<Rightarrow> nat \<Rightarrow> nat" where
  "block_total RecCount n = (n + (RecCount - 2)) div (RecCount - 1)"

definition is_block :: "nat \<Rightarrow> 'p Record list \<Rightarrow> 'p list \<Rightarrow> bool" where
  "is_block RecCount b qs \<longleftrightarrow> qs \<noteq> [] \<and> length qs < RecCount \<and>
     (\<exists>c. b = map PAYLOAD qs @ CHECKSUM c # replicate (RecCount - 1 - length qs) EMPTY)"

definition stores :: "nat \<Rightarrow> 'p Blockchain \<Rightarrow> 'p list \<Rightarrow> bool" where
  "stores RecCount s ps \<longleftrightarrow>
     2 \<le> RecCount \<and> wf_ft RecCount (ft s) \<and>
     length (tiles (ft s)) = block_total RecCount (length ps) \<and>
     rec_count s = length ps + block_total RecCount (length ps) \<and>
     checksum_valid_block_count s = block_total RecCount (length ps) \<and>
     (\<forall>i < block_total RecCount (length ps).
        is_block RecCount (file_contents (BlockFile i) (ft s)) (block_payloads RecCount i ps)) \<and>
     (ps \<noteq> [] \<longrightarrow> fetched_data (desc (block_total RecCount (length ps) - 1) (ft s)) \<noteq> None) \<and>
     (\<forall>i \<ge> block_total RecCount (length ps). fmlookup (files (ft s)) (BlockFile i) = None \<or>
        (\<exists>f. fmlookup (files (ft s)) (BlockFile i) = Some f \<and> good_file RecCount f))"

lemma block_total_0 [simp]: "2 \<le> r \<Longrightarrow> block_total r 0 = 0"
  by (simp add: block_total_def)

lemma block_total_split:
  assumes "2 \<le> r" "k < r - 1"
  shows "block_total r (q * (r - 1) + k) = q + (if k = 0 then 0 else 1)"
proof -
  define m where "m = r - 1"
  have "block_total r (q * (r - 1) + k) = (q * m + (k + (m - 1))) div m"
    by (simp add: block_total_def m_def numeral_2_eq_2 add.assoc)
  also have "\<dots> = q + (k + (m - 1)) div m"
    by (rule div_mult_self3) (use assms in \<open>simp add: m_def\<close>)
  also have "(k + (m - 1)) div m = (if k = 0 then 0 else 1)"
  proof (cases "k = 0")
    case False
    then obtain j where "k = Suc j"
      by (cases k) auto
    then have "k + (m - 1) = m + j" "j < m"
      using assms by (auto simp: m_def)
    then show ?thesis
      using False by (simp only:) simp
  qed (use assms in \<open>simp add: m_def\<close>)
  finally show ?thesis .
qed

lemma block_total_eq:
  "2 \<le> r \<Longrightarrow> block_total r n = n div (r - 1) + (if n mod (r - 1) = 0 then 0 else 1)"
  using block_total_split [of r "n mod (r - 1)" "n div (r - 1)"] unfolding div_mult_mod_eq by simp

lemma block_total_Suc:
  assumes "2 \<le> r"
  shows "block_total r (Suc n) = n div (r - 1) + 1"
proof (cases "Suc (n mod (r - 1)) = r - 1")
  case True
  then have "Suc n = (n div (r - 1) + 1) * (r - 1) + 0"
    using div_mult_mod_eq [of n "r - 1"] by simp
  then show ?thesis
    using block_total_split [of r 0 "n div (r - 1) + 1"] assms by simp
next
  case False
  have "n mod (r - 1) < r - 1"
    using assms by simp
  with False have "Suc (n mod (r - 1)) < r - 1"
    by simp
  moreover have "Suc n = n div (r - 1) * (r - 1) + Suc (n mod (r - 1))"
    by (simp only: add_Suc_right div_mult_mod_eq)
  ultimately show ?thesis
    using block_total_split [of r "Suc (n mod (r - 1))" "n div (r - 1)"] assms by simp
qed

lemma rec_count_mod:
  assumes "2 \<le> r"
  shows "(n + block_total r n) mod r = (if n mod (r - 1) = 0 then 0 else n mod (r - 1) + 1)"
proof -
  define q k where "q = n div (r - 1)" and "k = n mod (r - 1)"
  have n: "n = q * (r - 1) + k" "k < r - 1"
    using assms unfolding q_def k_def by (simp_all only: div_mult_mod_eq) simp
  have "n + block_total r n = q * r + (if k = 0 then 0 else k + 1)"
  proof -
    have "block_total r n = q + (if k = 0 then 0 else 1)"
      using block_total_split [OF assms n(2), of q] n(1) by simp
    moreover have "q * (r - 1) + q = q * r"
      using assms by (cases r) simp_all
    ultimately show ?thesis
      using n(1) by simp
  qed
  moreover have "(if k = 0 then 0 else k + 1) < r"
    using n assms by auto
  ultimately show ?thesis
    by (simp add: k_def)
qed

lemma block_payloads_append_old:
  assumes "i < length ps div (r - 1)"
  shows "block_payloads r i (ps @ qs) = block_payloads r i ps"
proof -
  have "(i + 1) * (r - 1) \<le> length ps"
    using assms mult_le_mono1 [of "i + 1" "length ps div (r - 1)" "r - 1"]
      div_times_less_eq_dividend [of "length ps" "r - 1"] by linarith
  then show ?thesis
    by (simp add: block_payloads_def)
qed

lemma block_payloads_append_new:
  assumes "2 \<le> r" "i = length ps div (r - 1)"
  shows "block_payloads r i (ps @ [p]) = block_payloads r i ps @ [p]"
    and "length (block_payloads r i ps) = length ps mod (r - 1)"
proof -
  have "i * (r - 1) \<le> length ps" "length ps - i * (r - 1) = length ps mod (r - 1)"
    using assms by (simp_all add: minus_div_mult_eq_mod)
  moreover have "length ps mod (r - 1) < r - 1"
    using assms by simp
  ultimately show "block_payloads r i (ps @ [p]) = block_payloads r i ps @ [p]"
      "length (block_payloads r i ps) = length ps mod (r - 1)"
    by (simp_all add: block_payloads_def)
qed


section \<open>Appending refines list append\<close>

lemma storesD:
  assumes "stores r s ps"
  shows "2 \<le> r" "wf_ft r (ft s)" "length (tiles (ft s)) = block_total r (length ps)"
    "rec_count s = length ps + block_total r (length ps)"
    "checksum_valid_block_count s = block_total r (length ps)"
    "\<And>i. i < block_total r (length ps) \<Longrightarrow>
       is_block r (file_contents (BlockFile i) (ft s)) (block_payloads r i ps)"
    "ps \<noteq> [] \<Longrightarrow> fetched_data (desc (block_total r (length ps) - 1) (ft s)) \<noteq> None"
    "\<And>i. block_total r (length ps) \<le> i \<Longrightarrow> fmlookup (files (ft s)) (BlockFile i) = None \<or>
       (\<exists>f. fmlookup (files (ft s)) (BlockFile i) = Some f \<and> good_file r f)"
  using assms by (simp_all add: stores_def)

lemma stores_store_step:
  assumes st: "stores r s ps" and step: "store_step r s s'"
    and tail: "\<And>j. length (tiles (ft s)) \<le> j + 1 \<Longrightarrow>
      fetched_data (desc j (ft s)) \<noteq> None \<Longrightarrow> fetched_data (desc j (ft s')) \<noteq> None"
  shows "stores r s' ps"
proof -
  have "ps \<noteq> [] \<Longrightarrow> fetched_data (desc (block_total r (length ps) - 1) (ft s')) \<noteq> None"
    using storesD(3,7) [OF st] by (intro tail) simp_all
  then show ?thesis
    using st step by (simp add: stores_def store_step_def cache_step_def file_contents_def)
qed

lemma append_new_block_refines:
  assumes st: "stores r s ps" and full: "length ps mod (r - 1) = 0"
  obtains s' where "append_new_block sha img r p s = Inr ((True, OK), s')" "stores r s' (ps @ [p])"
    "file_contents (BlockFile (length ps div (r - 1))) (ft s') =
       PAYLOAD p # CHECKSUM (calc_checksum sha img zero_checksum (PAYLOAD p)) # replicate (r - 2) EMPTY"
    "fetched_data (desc (length ps div (r - 1)) (ft s')) =
       Some (file_contents (BlockFile (length ps div (r - 1))) (ft s'))"
    "\<And>x. x \<noteq> BlockFile (length ps div (r - 1)) \<Longrightarrow> fmlookup (files (ft s')) x = fmlookup (files (ft s)) x"
proof -
  note D = storesD [OF st]
  define n where "n = block_total r (length ps)"
  have n: "n = length ps div (r - 1)" "length (tiles (ft s)) = n"
    using D full by (simp_all add: n_def block_total_eq)
  have cv: "checksum_valid_block_count s = n"
    using D(5) by (simp add: n_def)
  obtain t1 where t1: "(if 0 < n then close_file (n - 1) (ft s) else Inr (ft s)) = Inr t1"
      "cache_step r (ft s) t1" "0 < n \<Longrightarrow> state (desc (n - 1) t1) = TILE_OK"
  proof (cases "0 < n")
    case True
    have "n - 1 < length (tiles (ft s))"
      using True n by simp
    then obtain t1 where "close_file (n - 1) (ft s) = Inr t1" "cache_step r (ft s) t1"
        "desc (n - 1) t1 = (desc (n - 1) (ft s))\<lparr>file_handle := NoHandle, state := TILE_OK\<rparr>"
      by (rule close_file_step [OF D(2)])
    then show thesis
      using True by (intro that [of t1]) simp_all
  next
    case False
    then show thesis
      using D(2) by (intro that [of "ft s"]) (simp_all add: cache_step_refl)
  qed
  have wf1: "wf_ft r t1" and l1: "n = length (tiles t1)" and f1: "files t1 = files (ft s)"
    using t1 n by (simp_all add: cache_step_def)
  have prev: "get_prev_checksum n t1 = Inr zero_checksum"
  proof (cases "n = 0")
    case False
    then have "n - 1 < length (tiles t1)"
      using l1 by simp
    with wf_ftD [OF wf1 this] t1(3) False show ?thesis
      by (simp add: get_prev_checksum_def get_tile_def wf_desc_def)
  qed (simp add: get_prev_checksum_def)
  define cr :: "'a Record" where "cr = CHECKSUM (calc_checksum sha img zero_checksum (PAYLOAD p))"
  define d where "d = (replicate r EMPTY)[0 := PAYLOAD p, 1 := cr]"
  have d: "length d = r" "is_block r d [p]" "d = PAYLOAD p # cr # replicate (r - 2) EMPTY"
    using D(1) unfolding d_def cr_def is_block_def
    by (auto simp: numeral_2_eq_2 le_iff_add)
  have fl: "fmlookup (files t1) (BlockFile n) = None \<or>
      (\<exists>f. fmlookup (files t1) (BlockFile n) = Some f \<and> good_file r f)"
    using D(8) [of n] f1 by (simp add: n_def)
  obtain t2 t3 t5 where new: "append_tile t1 = (n, t2)" "alloc_tile_data r n t2 = Inr t3"
    "get_tile_data n t3 = (Some (replicate r EMPTY), set_state n TILE_OK t3)"
    "sync_to_file r n False (set_data n (Some d) (set_state n TILE_OK t3)) = Inr (True, t5)"
    "wf_ft r t5" "length (tiles t5) = n + 1"
    "file_contents (BlockFile n) t5 = d" "fetched_data (desc n t5) = Some d"
    "\<And>x. x \<noteq> BlockFile n \<Longrightarrow> fmlookup (files t5) x = fmlookup (files t1) x"
    by (rule new_tile_step [OF wf1 l1 d(1) fl]) (rule that)
  let ?s' = "s\<lparr>ft := t5, checksum_valid_block_count := n + 1, rec_count := rec_count s + 2\<rparr>"
  have total: "block_total r (length (ps @ [p])) = n + 1"
    using D(1) n by (simp add: block_total_Suc)
  have blocks: "is_block r (file_contents (BlockFile i) t5) (block_payloads r i (ps @ [p]))"
    if "i < n + 1" for i
  proof (cases "i = n")
    case True
    have "block_payloads r n ps = []"
      using block_payloads_append_new(2) [OF D(1) n(1)] full by simp
    then show ?thesis
      using True new(7) d(2) block_payloads_append_new(1) [OF D(1) n(1)] by simp
  next
    case False
    then show ?thesis
      using that D(6) [of i] new(9) f1 n block_payloads_append_old [of i ps r "[p]"]
      by (simp add: file_contents_def n_def)
  qed
  show thesis
  proof (rule that)
    show "append_new_block sha img r p s = Inr ((True, OK), ?s')"
      using prev new(1-3) new(4) [unfolded d_def cr_def] cv
      unfolding append_new_block_def Let_def get_tile_count_def n(2) t1(1) by simp
    show "stores r ?s' (ps @ [p])"
      using D(1,4,8) new(5,6,8,9) blocks total f1 unfolding stores_def
      by (auto simp: n_def)
    show "file_contents (BlockFile (length ps div (r - 1))) (ft ?s') =
       PAYLOAD p # CHECKSUM (calc_checksum sha img zero_checksum (PAYLOAD p)) # replicate (r - 2) EMPTY"
      using new(7) d(3) unfolding n(1) [symmetric] cr_def by simp
    show "fetched_data (desc (length ps div (r - 1)) (ft ?s')) =
       Some (file_contents (BlockFile (length ps div (r - 1))) (ft ?s'))"
      using new(7,8) unfolding n(1) [symmetric] by simp
    show "fmlookup (files (ft ?s')) x = fmlookup (files (ft s)) x"
      if "x \<noteq> BlockFile (length ps div (r - 1))" for x
      using that new(9) f1 unfolding n(1) [symmetric] by simp
  qed
qed

lemma is_block_extend:
  assumes "is_block r b qs" "length qs + 1 < r"
  shows "is_block r (b[length qs := PAYLOAD p, length qs + 1 := CHECKSUM c]) (qs @ [p])"
proof -
  obtain c0 where b: "b = map PAYLOAD qs @ CHECKSUM c0 # replicate (r - 1 - length qs) EMPTY"
    using assms by (auto simp: is_block_def)
  have "replicate (r - 1 - length qs) (EMPTY :: 'a Record) = EMPTY # replicate (r - 1 - length (qs @ [p])) EMPTY"
    using assms(2) by (simp flip: replicate_Suc add: Suc_diff_Suc)
  then have "b[length qs := PAYLOAD p, length qs + 1 := CHECKSUM c]
      = map PAYLOAD (qs @ [p]) @ CHECKSUM c # replicate (r - 1 - length (qs @ [p])) EMPTY"
    using b by (simp add: list_update_append)
  then show ?thesis
    using assms(2) unfolding is_block_def by auto
qed

lemma append_to_block_refines:
  assumes st: "stores r s ps" and part: "length ps mod (r - 1) \<noteq> 0"
  obtains s' where
    "append_to_block sha img r p (length ps mod (r - 1) + 1) s = Inr ((True, OK), s')"
    "stores r s' (ps @ [p])"
    "\<And>d. fetched_data (desc (length ps div (r - 1)) (ft s)) = Some d \<Longrightarrow>
       file_contents (BlockFile (length ps div (r - 1))) (ft s') =
         (file_contents (BlockFile (length ps div (r - 1))) (ft s))
           [length ps mod (r - 1) := PAYLOAD p,
            length ps mod (r - 1) + 1 := CHECKSUM (calc_checksum sha img
              (checksum_field img (d ! (length ps mod (r - 1)))) (PAYLOAD p))]"
    "fetched_data (desc (length ps div (r - 1)) (ft s')) = fetched_data (desc (length ps div (r - 1)) (ft s))"
    "\<And>x. x \<noteq> BlockFile (length ps div (r - 1)) \<Longrightarrow> fmlookup (files (ft s')) x = fmlookup (files (ft s)) x"
proof -
  note D = storesD [OF st]
  define q k where "q = length ps div (r - 1)" and "k = length ps mod (r - 1)"
  have total: "block_total r (length ps) = q + 1"
    using D(1) part by (simp add: block_total_eq q_def)
  have total': "block_total r (length (ps @ [p])) = q + 1"
    using D(1) by (simp add: block_total_Suc q_def)
  have k: "k + 1 < r"
    using D(1) mod_less_divisor [of "r - 1" "length ps"] unfolding k_def by linarith
  have len: "length (tiles (ft s)) = q + 1" and i: "q < length (tiles (ft s))"
    using D(3) total by simp_all
  have bp: "length (block_payloads r q ps) = k" "block_payloads r q (ps @ [p]) = block_payloads r q ps @ [p]"
    using block_payloads_append_new [OF D(1) q_def] by (simp_all add: k_def)
  have "ps \<noteq> []"
    using part by auto
  then obtain d where d: "fetched_data (desc q (ft s)) = Some d"
    using D(7) total by auto
  let ?t1 = "set_state q TILE_OK (ft s)"
  have s1: "cache_step r (ft s) ?t1"
    using D(2) i by (rule set_state_step)
  have wf1: "wf_ft r ?t1" and i1: "q < length (tiles ?t1)"
    using s1 i by (simp_all add: cache_step_def)
  define cr :: "'a Record"
    where "cr = CHECKSUM (calc_checksum sha img (checksum_field img (d ! k)) (PAYLOAD p))"
  have k0: "k < r"
    using k by simp
  obtain t2 where t2: "tile_write r q (PAYLOAD p) k False ?t1 = Inr (True, t2)" "wf_ft r t2"
      "length (tiles t2) = length (tiles ?t1)"
      "file_contents (BlockFile q) t2 = (file_contents (BlockFile q) ?t1)[k := PAYLOAD p]"
      "\<And>x. x \<noteq> BlockFile q \<Longrightarrow> fmlookup (files t2) x = fmlookup (files ?t1) x"
      "\<And>j. fetched_data (desc j t2) = fetched_data (desc j ?t1)"
    by (rule tile_write_step [OF wf1 i1 k0]) (rule that)
  have i2: "q < length (tiles t2)"
    using t2(3) i1 by simp
  obtain t3 where t3: "tile_write r q cr (k + 1) False t2 = Inr (True, t3)" "wf_ft r t3"
      "length (tiles t3) = length (tiles t2)"
      "file_contents (BlockFile q) t3 = (file_contents (BlockFile q) t2)[k + 1 := cr]"
      "\<And>x. x \<noteq> BlockFile q \<Longrightarrow> fmlookup (files t3) x = fmlookup (files t2) x"
      "\<And>j. fetched_data (desc j t3) = fetched_data (desc j t2)"
    by (rule tile_write_step [OF t2(2) i2 k]) (rule that)
  have frame: "fmlookup (files t3) x = fmlookup (files (ft s)) x" if "x \<noteq> BlockFile q" for x
    using t2(5) t3(5) s1 that by (simp add: cache_step_def)
  have len3: "length (tiles t3) = q + 1"
    using len t2(3) t3(3) s1 by (simp add: cache_step_def)
  have tail3: "fetched_data (desc q t3) \<noteq> None"
    using t2(6) t3(6) d i by (simp add: set_state_def)
  let ?s' = "s\<lparr>ft := t3, rec_count := rec_count s + 1\<rparr>"
  have blocks: "is_block r (file_contents (BlockFile j) t3) (block_payloads r j (ps @ [p]))"
    if "j < q + 1" for j
  proof (cases "j = q")
    case True
    have "file_contents (BlockFile q) t3
        = (file_contents (BlockFile q) (ft s))[k := PAYLOAD p, k + 1 := cr]"
      using t2(4) t3(4) by (simp add: set_state_def)
    then show ?thesis
      using is_block_extend [OF D(6) [of q]] bp True total k by (simp add: cr_def)
  next
    case False
    then show ?thesis
      using that D(6) [of j] frame total block_payloads_append_old [of j ps r "[p]"]
      by (simp add: file_contents_def q_def)
  qed
  show thesis
  proof (rule that)
    show "append_to_block sha img r p (length ps mod (r - 1) + 1) s = Inr ((True, OK), ?s')"
      using t2(1) t3(1) d len unfolding k_def [symmetric]
      by (simp add: append_to_block_def get_tile_count_def get_tile_def get_tile_data_def cr_def)
    show "stores r ?s' (ps @ [p])"
      unfolding stores_def total'
      using D(1,4,5,8) t3(2) blocks total len3 frame tail3 by simp
    show "file_contents (BlockFile (length ps div (r - 1))) (ft ?s') =
         (file_contents (BlockFile (length ps div (r - 1))) (ft s))
           [length ps mod (r - 1) := PAYLOAD p,
            length ps mod (r - 1) + 1 := CHECKSUM (calc_checksum sha img
              (checksum_field img (e ! (length ps mod (r - 1)))) (PAYLOAD p))]"
      if "fetched_data (desc (length ps div (r - 1)) (ft s)) = Some e" for e
      using that d t2(4) t3(4) unfolding q_def [symmetric] k_def [symmetric] cr_def
      by (simp add: set_state_def)
    show "fetched_data (desc (length ps div (r - 1)) (ft ?s')) =
        fetched_data (desc (length ps div (r - 1)) (ft s))"
      using t2(6) t3(6) i unfolding q_def [symmetric] by (simp add: set_state_def)
    show "fmlookup (files (ft ?s')) x = fmlookup (files (ft s)) x" if "x \<noteq> BlockFile (length ps div (r - 1))" for x
      using frame that by (simp add: q_def)
  qed
qed

text \<open>The contract of \<open>append\<close>: on a sound store and with working files, it adds the record.\<close>

lemma bc_append_frame:
  assumes st: "stores r s ps"
  obtains s' where "bc_append sha img r now p s = Inr ((True, OK), s')" "stores r s' (ps @ [p])"
    "\<And>x. x \<noteq> BlockFile (length ps div (r - 1)) \<Longrightarrow> fmlookup (files (ft s')) x = fmlookup (files (ft s)) x"
proof -
  obtain s1 where s1: "maybe_flush_cache now s = Inr s1" "store_step r s s1"
      "\<And>j. length (tiles (ft s)) \<le> j + 1 \<Longrightarrow> desc j (ft s1) = desc j (ft s)"
    by (rule maybe_flush_cache_step [OF storesD(2) [OF st]]) (rule that)
  have st1: "stores r s1 ps"
    by (rule stores_store_step [OF st s1(2)]) (simp add: s1(3))
  have same: "files (ft s1) = files (ft s)"
    using s1(2) by (simp add: store_step_def cache_step_def)
  have pos: "rec_count s1 mod r = (if length ps mod (r - 1) = 0 then 0 else length ps mod (r - 1) + 1)"
    using storesD(1,4) [OF st1] by (simp only: rec_count_mod)
  show thesis
  proof (cases "length ps mod (r - 1) = 0")
    case True
    obtain s' where "append_new_block sha img r p s1 = Inr ((True, OK), s')" "stores r s' (ps @ [p])"
        "\<And>x. x \<noteq> BlockFile (length ps div (r - 1)) \<Longrightarrow> fmlookup (files (ft s')) x = fmlookup (files (ft s1)) x"
      by (rule append_new_block_refines [OF st1 True, of sha img p]) blast
    then show thesis
      using True pos s1(1) same by (intro that [of s']) (simp_all add: bc_append_def)
  next
    case False
    obtain s' where "append_to_block sha img r p (length ps mod (r - 1) + 1) s1 = Inr ((True, OK), s')" "stores r s' (ps @ [p])"
        "\<And>x. x \<noteq> BlockFile (length ps div (r - 1)) \<Longrightarrow> fmlookup (files (ft s')) x = fmlookup (files (ft s1)) x"
      by (rule append_to_block_refines [OF st1 False, of sha img p]) blast
    then show thesis
      using False pos s1(1) same by (intro that [of s']) (simp_all add: bc_append_def)
  qed
qed

lemma bc_append_refines:
  assumes st: "stores r s ps"
  obtains s' where "bc_append sha img r now p s = Inr ((True, OK), s')" "stores r s' (ps @ [p])"
  by (rule bc_append_frame [OF st, of sha img now p]) (rule that)


section \<open>Reading\<close>

text \<open>A block is returned as it is in its file.\<close>

lemma get_block_ok:
  assumes st: "stores r s ps" and i: "i < block_total r (length ps)"
  obtains s' where "get_block r now i s = Inr ((Some (file_contents (BlockFile i) (ft s)), OK), s')"
    "stores r s' ps" "store_step r s s'" "fetched_data (desc i (ft s')) = Some (file_contents (BlockFile i) (ft s))"
proof -
  obtain s1 where s1: "maybe_flush_cache now s = Inr s1" "store_step r s s1"
      "\<And>j. length (tiles (ft s)) \<le> j + 1 \<Longrightarrow> desc j (ft s1) = desc j (ft s)"
    by (rule maybe_flush_cache_step [OF storesD(2) [OF st]]) (rule that)
  have st1: "stores r s1 ps"
    by (rule stores_store_step [OF st s1(2)]) (simp add: s1(3))
  have wf1: "wf_ft r (ft s1)" and i1: "i < length (tiles (ft s1))" and r0: "0 < r"
    using storesD(1-3) [OF st1] i by simp_all
  obtain b t1 where t1: "sync_from_file r i (ft s1) = Inr (b, t1)" "cache_step r (ft s1) t1"
      "fetched_data (desc i t1) = Some (file_contents (BlockFile i) (ft s1))"
      "\<And>j. j \<noteq> i \<Longrightarrow> desc j t1 = desc j (ft s1)"
    by (rule sync_from_file_step [OF wf1 i1 r0]) (rule that)
  have i2: "i < length (tiles t1)" and wf2: "wf_ft r t1"
    using t1(2) i1 by (simp_all add: cache_step_def)
  let ?t2 = "set_state i TILE_OK t1" and ?c = "file_contents (BlockFile i) (ft s)"
  have c: "cache_step r (ft s1) ?t2"
    by (rule cache_step_trans [OF t1(2) set_state_step [OF wf2 i2]])
  have same: "file_contents (BlockFile i) (ft s1) = ?c"
    using s1(2) by (simp add: store_step_def cache_step_def file_contents_def)
  have step: "store_step r s (s1\<lparr>ft := ?t2\<rparr>)"
    using s1(2) c by (auto simp: store_step_def intro: cache_step_trans)
  have tail: "fetched_data (desc j ?t2) \<noteq> None"
    if "length (tiles (ft s)) \<le> j + 1" "fetched_data (desc j (ft s)) \<noteq> None" for j
    using that s1(3) t1(3) t1(4) [of j] i2 by (cases "j = i") (simp_all add: set_state_def)
  show thesis
  proof (rule that)
    show "get_block r now i s = Inr ((Some ?c, OK), s1\<lparr>ft := ?t2\<rparr>)"
      using s1(1) t1(1,3) i1 same by (simp add: get_block_def get_tile_def get_tile_data_def)
    show "stores r (s1\<lparr>ft := ?t2\<rparr>) ps"
      by (rule stores_store_step [OF st step]) (use tail in simp)
    show "store_step r s (s1\<lparr>ft := ?t2\<rparr>)"
      by (rule step)
    show "fetched_data (desc i (ft (s1\<lparr>ft := ?t2\<rparr>))) = Some ?c"
      using t1(3) i2 same by (simp add: set_state_def)
  qed
qed

text \<open>The position of the \<open>k\<close>-th payload, counting the checksum records before it.\<close>

definition payload_index :: "nat \<Rightarrow> nat \<Rightarrow> nat" where
  "payload_index RecCount k = k + k div (RecCount - 1)"

lemma payload_index_div_mod:
  assumes "2 \<le> r"
  shows "payload_index r k div r = k div (r - 1)" "payload_index r k mod r = k mod (r - 1)"
proof -
  have "payload_index r k = k div (r - 1) * r + k mod (r - 1)"
  proof -
    have "k = k div (r - 1) * (r - 1) + k mod (r - 1)"
      by (simp only: div_mult_mod_eq)
    moreover have "k div (r - 1) * (r - 1) + k div (r - 1) = k div (r - 1) * r"
      using assms by (cases r) simp_all
    ultimately show ?thesis
      unfolding payload_index_def by linarith
  qed
  moreover have "k mod (r - 1) < r"
    using assms mod_less_divisor [of "r - 1" k] by linarith
  ultimately show "payload_index r k div r = k div (r - 1)" "payload_index r k mod r = k mod (r - 1)"
    by simp_all
qed

lemma is_block_nth:
  assumes "is_block r b qs" "j < length qs"
  shows "b ! j = PAYLOAD (qs ! j)" "length b = r"
  using assms by (auto simp: is_block_def nth_append)

lemma payload_block:
  assumes "2 \<le> r" "k < length ps"
  shows "k div (r - 1) < block_total r (length ps)"
    and "k mod (r - 1) < length (block_payloads r (k div (r - 1)) ps)"
    and "block_payloads r (k div (r - 1)) ps ! (k mod (r - 1)) = ps ! k"
proof -
  obtain m where m: "length ps = Suc m"
    using assms(2) by (cases ps) auto
  have "k div (r - 1) \<le> m div (r - 1)"
    using assms(2) m by (intro div_le_mono) simp
  then show "k div (r - 1) < block_total r (length ps)"
    using m block_total_Suc [OF assms(1), of m] by simp
  have "k = k div (r - 1) * (r - 1) + k mod (r - 1)"
    by (simp only: div_mult_mod_eq)
  moreover have "k mod (r - 1) < r - 1"
    using assms by simp
  ultimately show "k mod (r - 1) < length (block_payloads r (k div (r - 1)) ps)"
      "block_payloads r (k div (r - 1)) ps ! (k mod (r - 1)) = ps ! k"
    using assms(2) unfolding block_payloads_def by (auto simp: less_diff_conv add.commute)
qed

lemma get_record_ok:
  assumes st: "stores GRADIDO_BLOCK_SIZE s ps" and k: "k < length ps"
  obtains s' where "get_record GRADIDO_BLOCK_SIZE now (payload_index GRADIDO_BLOCK_SIZE k) s
      = Inr ((Some (PAYLOAD (ps ! k)), OK), s')" "stores GRADIDO_BLOCK_SIZE s' ps"
proof -
  let ?r = GRADIDO_BLOCK_SIZE
  note D = storesD [OF st]
  let ?i = "k div (?r - 1)" and ?j = "k mod (?r - 1)"
  have P: "?i < block_total ?r (length ps)" "?j < length (block_payloads ?r ?i ps)"
      "block_payloads ?r ?i ps ! ?j = ps ! k"
    using payload_block [OF D(1) k] by blast+
  have blk: "is_block ?r (file_contents (BlockFile ?i) (ft s)) (block_payloads ?r ?i ps)"
    using D(6) P(1) .
  have "?j < ?r"
    using D(1) mod_less_divisor [of "?r - 1" k] by linarith
  have "payload_index ?r k < rec_count s"
    using D(4) P(1) k by (simp add: payload_index_def)
  moreover obtain s' where "get_block ?r now ?i s = Inr ((Some (file_contents (BlockFile ?i) (ft s)), OK), s')"
      "stores ?r s' ps"
    by (rule get_block_ok [OF st P(1), of now]) (rule that)
  ultimately show thesis
    using is_block_nth [OF blk P(2)] P(3) payload_index_div_mod [OF D(1), of k] \<open>?j < ?r\<close>
    by (intro that) (simp_all add: get_record_def)
qed

end
