(* ===== verification/Block_Recovery.thy ===== *)
theory Block_Recovery
  imports Block_Storage
begin

text \<open>
  What happens to a store after a restart (the files are reopened and validated block by block),
  after a truncation, and when a block file is missing, has the wrong length or was tampered
  with; and the record store as the layers above see it: a list of payloads.
\<close>

section \<open>Restart\<close>

text \<open>The files hold the blocks of a payload list.\<close>

definition disk_holds :: "nat \<Rightarrow> (file_ref, 'p os_file) fmap \<Rightarrow> 'p list \<Rightarrow> bool" where
  "disk_holds RecCount fs ps \<longleftrightarrow>
     (\<forall>i < block_total RecCount (length ps). \<exists>f. fmlookup fs (BlockFile i) = Some f \<and>
        good_file RecCount f \<and> is_block RecCount (contents f) (block_payloads RecCount i ps)) \<and>
     (\<forall>i \<ge> block_total RecCount (length ps). fmlookup fs (BlockFile i) = None)"

text \<open>The validation the blockchains run after a start, one block per call, at the given times.\<close>

fun revalidate :: "nat \<Rightarrow> nat list \<Rightarrow> 'p Blockchain \<Rightarrow> 'p bc_res" where
  "revalidate RecCount [] s = Inr ((True, OK), s)"
| "revalidate RecCount (now # ts) s =
     bind_res (validate_next_checksum RecCount now s) (\<lambda>((valid, ec), s1).
       if valid then revalidate RecCount ts s1 else Inr ((False, ec), s1))"

text \<open>The state after \<open>m\<close> blocks have been validated.\<close>

definition validating :: "nat \<Rightarrow> 'p Blockchain \<Rightarrow> 'p list \<Rightarrow> nat \<Rightarrow> bool" where
  "validating RecCount s ps m \<longleftrightarrow>
     2 \<le> RecCount \<and> wf_ft RecCount (ft s) \<and>
     length (tiles (ft s)) = block_total RecCount (length ps) \<and>
     m \<le> block_total RecCount (length ps) \<and> checksum_valid_block_count s = m \<and>
     rec_count s = (if m = block_total RecCount (length ps) then length ps + m else m * RecCount) \<and>
     (\<forall>i < block_total RecCount (length ps).
        is_block RecCount (file_contents (BlockFile i) (ft s)) (block_payloads RecCount i ps)) \<and>
     (\<forall>i < block_total RecCount (length ps). state (desc i (ft s)) = TILE_OK) \<and>
     (\<forall>i. m \<le> i \<and> i < block_total RecCount (length ps) \<longrightarrow> file_handle (desc i (ft s)) = NoHandle) \<and>
     (m = block_total RecCount (length ps) \<and> ps \<noteq> [] \<longrightarrow> fetched_data (desc (m - 1) (ft s)) \<noteq> None) \<and>
     (\<forall>i \<ge> block_total RecCount (length ps). fmlookup (files (ft s)) (BlockFile i) = None)"

lemma validatingD:
  assumes "validating r s ps m"
  shows "2 \<le> r" "wf_ft r (ft s)" "length (tiles (ft s)) = block_total r (length ps)"
    "m \<le> block_total r (length ps)" "checksum_valid_block_count s = m"
    "rec_count s = (if m = block_total r (length ps) then length ps + m else m * r)"
    "\<And>i. i < block_total r (length ps) \<Longrightarrow>
       is_block r (file_contents (BlockFile i) (ft s)) (block_payloads r i ps)"
    "\<And>i. i < block_total r (length ps) \<Longrightarrow> state (desc i (ft s)) = TILE_OK"
    "\<And>i. m \<le> i \<Longrightarrow> i < block_total r (length ps) \<Longrightarrow> file_handle (desc i (ft s)) = NoHandle"
    "\<And>i. block_total r (length ps) \<le> i \<Longrightarrow> fmlookup (files (ft s)) (BlockFile i) = None"
  using assms by (auto simp: validating_def)

lemma validating_done: "validating r s ps (block_total r (length ps)) \<Longrightarrow> stores r s ps"
  by (simp add: validating_def stores_def)

text \<open>A block is scanned to its end and has an empty record exactly when it is not full.\<close>

lemma scan_empties:
  "scan_block (replicate n EMPTY) True he hp = Inr (True, he \<or> 0 < n)"
  by (induction n arbitrary: he) simp_all

lemma scan_payloads:
  "scan_block (map PAYLOAD qs @ rs) False he hp = scan_block rs False he (hp \<or> qs \<noteq> [])"
  by (induction qs arbitrary: hp) simp_all

lemma scan_is_block:
  assumes "is_block r b qs"
  shows "scan_block b False False False = Inr (True, length qs + 1 < r)"
  using assms by (auto simp: is_block_def scan_payloads scan_empties)

lemma takeWhile_is_block:
  assumes "is_block r b qs"
  shows "block_rec_count b = length qs + 1"
proof -
  obtain c n where b: "b = (map PAYLOAD qs @ [CHECKSUM c]) @ replicate n EMPTY"
    using assms by (auto simp: is_block_def)
  have "takeWhile (\<lambda>x. x \<noteq> EMPTY) b = map PAYLOAD qs @ [CHECKSUM c]"
    unfolding b by (subst takeWhile_append2) (auto simp: takeWhile_replicate)
  then show ?thesis
    by (simp add: block_rec_count_def)
qed

lemma block_payloads_full:
  assumes "2 \<le> r" "i + 1 < block_total r (length ps)"
  shows "length (block_payloads r i ps) = r - 1"
proof -
  have "i + 1 \<le> length ps div (r - 1)"
    using assms block_total_eq [of r "length ps"] by (simp split: if_splits)
  then have "(i + 1) * (r - 1) \<le> length ps"
    using mult_le_mono1 [of "i + 1" "length ps div (r - 1)" "r - 1"]
      div_times_less_eq_dividend [of "length ps" "r - 1"] by linarith
  then show ?thesis
    by (simp add: block_payloads_def)
qed

lemma block_payloads_last:
  assumes "2 \<le> r" "i + 1 = block_total r (length ps)"
  shows "i * (r - 1) + length (block_payloads r i ps) = length ps"
proof -
  define q k where "q = length ps div (r - 1)" and "k = length ps mod (r - 1)"
  have L: "length ps = q * (r - 1) + k"
    by (simp only: q_def k_def div_mult_mod_eq)
  have "k < r - 1"
    using assms(1) by (simp add: k_def)
  moreover have "i + 1 = q + (if k = 0 then 0 else 1)"
    using assms block_total_eq [of r "length ps"] by (simp add: q_def k_def)
  ultimately have "length ps = i * (r - 1) + (if k = 0 then r - 1 else k)"
    using L by (cases "k = 0") (auto simp flip: add_mult_distrib2)
  with \<open>k < r - 1\<close> show ?thesis
    by (simp add: block_payloads_def split: if_splits)
qed

lemma validate_block_ok:
  assumes blk: "is_block r b (block_payloads r i ps)" and r: "2 \<le> r"
    and i: "i < block_total r (length ps)" and tc: "length (tiles t) = block_total r (length ps)"
    and prev: "\<And>j. j < i \<Longrightarrow> state (desc j t) = TILE_OK"
  shows "validate_block i b False OK t = Inr (True, OK)"
proof -
  have "\<exists>c. get_prev_checksum i t = Inr c"
    using i tc prev [of "i - 1"] by (auto simp: get_prev_checksum_def get_tile_def)
  then show ?thesis
    using scan_is_block [OF blk] by (auto simp: validate_block_def)
qed

lemma validate_next_checksum_ok:
  assumes v: "validating r s ps m" and m: "m < block_total r (length ps)"
  obtains s' where "validate_next_checksum r now s = Inr ((True, OK), s')" "validating r s' ps (m + 1)"
proof -
  note D = validatingD [OF v]
  obtain s1 where s1: "maybe_flush_cache now s = Inr s1" "store_step r s s1" "calm_step (ft s) (ft s1)"
    by (rule maybe_flush_cache_step [OF D(2)]) (rule that)
  have wf1: "wf_ft r (ft s1)" and m1: "m < length (tiles (ft s1))" and r0: "0 < r"
    and F: "files (ft s1) = files (ft s)" "length (tiles (ft s1)) = block_total r (length ps)"
    and C: "rec_count s1 = rec_count s" "checksum_valid_block_count s1 = m"
    using s1(2) D(1,3,5) m by (simp_all add: store_step_def cache_step_def)
  have ok1: "state (desc j (ft s1)) = TILE_OK" if "j < block_total r (length ps)" for j
    using s1(3) D(8) that by (simp add: calm_step_def)
  have closed1: "file_handle (desc j (ft s1)) = NoHandle" if "m \<le> j" "j < block_total r (length ps)" for j
    using s1(3) D(9) that by (simp add: calm_step_def)
  obtain b t1 where t1: "sync_from_file r m (ft s1) = Inr (b, t1)" "cache_step r (ft s1) t1"
      "fetched_data (desc m t1) = Some (file_contents (BlockFile m) (ft s1))"
      "file_handle (desc m (ft s1)) = NoHandle \<Longrightarrow> b"
      "\<And>j. j \<noteq> m \<Longrightarrow> desc j t1 = desc j (ft s1)"
    by (rule sync_from_file_step [OF wf1 m1 r0]) (rule that)
  have b: b
    using t1(4) closed1 m by simp
  let ?t2 = "set_state m TILE_OK t1" and ?c = "file_contents (BlockFile m) (ft s)"
  have wf1': "wf_ft r t1" "m < length (tiles t1)"
    using t1(2) m1 by (simp_all add: cache_step_def)
  have c2: "cache_step r (ft s1) ?t2"
    by (rule cache_step_trans [OF t1(2) set_state_step [OF wf1']])
  have ok2: "state (desc j ?t2) = TILE_OK" if "j < block_total r (length ps)" for j
    using that ok1 t1(5) [of j] wf1'(2) by (cases "j = m") (simp_all add: set_state_def)
  have closed2: "file_handle (desc j ?t2) = NoHandle" if "m + 1 \<le> j" "j < block_total r (length ps)" for j
    using that closed1 t1(5) [of j] wf1'(2) by (simp add: set_state_def)
  have blk: "is_block r ?c (block_payloads r m ps)"
    using D(7) m .
  have data: "fetched_data (desc m t1) = Some ?c"
    using t1(3) F(1) by (simp add: file_contents_def)
  have val: "validate_block m ?c False OK ?t2 = Inr (True, OK)"
    using validate_block_ok [OF blk D(1) m] ok2 m c2 F(2) by (simp add: cache_step_def)
  let ?s' = "s1\<lparr>ft := ?t2, checksum_valid_block_count := m + 1,
      rec_count := rec_count s1 + block_rec_count ?c\<rparr>"
  have cnt: "rec_count s + block_rec_count ?c
      = (if m + 1 = block_total r (length ps) then length ps + (m + 1) else (m + 1) * r)"
  proof -
    have "m * r = m * (r - 1) + m"
      using D(1) by (cases r) simp_all
    moreover have "r - 1 + 1 = r"
      using D(1) by simp
    ultimately show ?thesis
      using D(6) m takeWhile_is_block [OF blk] block_payloads_full [OF D(1), of m ps]
        block_payloads_last [OF D(1), of m ps]
      by (cases "m + 1 = block_total r (length ps)") simp_all
  qed
  show thesis
  proof (rule that)
    show "validate_next_checksum r now s = Inr ((True, OK), ?s')"
      using s1(1) C(2) m1 t1(1) b data val
      by (simp add: validate_next_checksum_def get_tile_count_def get_tile_data_def Let_def)
    have "fetched_data (desc m ?t2) \<noteq> None"
      using data wf1'(2) by (simp add: set_state_def)
    moreover have "block_total r (length ps) - Suc 0 = m" if "Suc m = block_total r (length ps)"
      unfolding that [symmetric] by simp
    ultimately have "Suc m = block_total r (length ps) \<Longrightarrow>
        fetched_data (desc (block_total r (length ps) - Suc 0) ?t2) \<noteq> None"
      by simp
    then show "validating r ?s' ps (m + 1)"
      unfolding validating_def
      using D(1,7,10) m c2 F C(1) cnt ok2 closed2
      by (simp add: cache_step_def file_contents_def)
  qed
qed

lemma revalidate_ok:
  assumes "validating r s ps m" "m + length ts = block_total r (length ps)"
  shows "\<exists>s'. revalidate r ts s = Inr ((True, OK), s') \<and> stores r s' ps"
  using assms
proof (induction ts arbitrary: s m)
  case Nil
  then show ?case
    using validating_done [of r s ps] by simp
next
  case (Cons now ts)
  then have "m < block_total r (length ps)"
    by simp
  then obtain s1 where "validate_next_checksum r now s = Inr ((True, OK), s1)" "validating r s1 ps (m + 1)"
    using validate_next_checksum_ok [OF Cons.prems(1)] by blast
  then show ?case
    using Cons.IH [of s1 "m + 1"] Cons.prems(2) by simp
qed

text \<open>Opening the files: one descriptor per block, in good state, nothing cached.\<close>

lemma create_tile_desc_cases:
  obtains d u where "create_tile_desc i t = (d, t\<lparr>unused_tiles := u\<rparr>)" "index d = i"
    "fetched_data d = None" "file_handle d = NoHandle" "sup_checksum (sup d) = zero_checksum"
  by (simp add: create_tile_desc_def TileDesc_reset_def sup_reset_def Let_def)

lemma add_checked_tile_fold:
  assumes "\<And>i. i < n \<Longrightarrow> \<exists>f. fmlookup (files t) (BlockFile i) = Some f \<and> good_file r f"
    and "tiles t = []"
  shows "let t' = fold (add_checked_tile r) [0..<n] t in
    files t' = files t \<and> mem_pool t' = mem_pool t \<and> io_script t' = io_script t \<and> length (tiles t') = n \<and>
    (\<forall>i < n. wf_desc r (files t) i (desc i t') \<and> state (desc i t') = TILE_OK
       \<and> file_handle (desc i t') = NoHandle \<and> fetched_data (desc i t') = None)"
  using assms
proof (induction n)
  case 0
  then show ?case
    by simp
next
  case (Suc n)
  define t1 where "t1 = fold (add_checked_tile r) [0..<n] t"
  have IH: "files t1 = files t" "mem_pool t1 = mem_pool t" "io_script t1 = io_script t" "length (tiles t1) = n"
    "\<And>i. i < n \<Longrightarrow> wf_desc r (files t) i (desc i t1) \<and> state (desc i t1) = TILE_OK
       \<and> file_handle (desc i t1) = NoHandle \<and> fetched_data (desc i t1) = None"
    using Suc.IH Suc.prems by (simp_all add: t1_def Let_def)
  obtain f where f: "fmlookup (files t) (BlockFile n) = Some f" "good_file r f"
    using Suc.prems(1) [of n] by blast
  obtain d u where d: "create_tile_desc n t1 = (d, t1\<lparr>unused_tiles := u\<rparr>)" "index d = n"
      "fetched_data d = None" "file_handle d = NoHandle" "sup_checksum (sup d) = zero_checksum"
    by (rule create_tile_desc_cases [of n t1]) (rule that)
  have chk: "check_file2 r t1 (BlockFile n) = TILE_OK"
    using f IH(1) by (intro check_file2_good) simp_all
  let ?d = "d\<lparr>state := TILE_OK\<rparr>"
  have eq: "fold (add_checked_tile r) [0..<Suc n] t = t1\<lparr>tiles := tiles t1 @ [?d], unused_tiles := u\<rparr>"
    using d(1) chk by (simp add: t1_def [symmetric] add_checked_tile_def)
  have "wf_desc r (files t) n ?d"
    using f d by (simp add: wf_desc_def)
  then have "wf_desc r (files t) i ((tiles t1 @ [?d]) ! i) \<and> state ((tiles t1 @ [?d]) ! i) = TILE_OK
       \<and> file_handle ((tiles t1 @ [?d]) ! i) = NoHandle \<and> fetched_data ((tiles t1 @ [?d]) ! i) = None"
    if "i < Suc n" for i
    using that IH(4) IH(5) [of i] d by (cases "i = n") (simp_all add: nth_append desc_def)
  then show ?case
    unfolding eq using IH(1-4) by (simp add: desc_def)
qed

lemma start_validating:
  assumes "2 \<le> r" "disk_holds r fs ps"
  obtains s where "Blockchain_new r (block_total r (length ps)) fs [] cache interval = Inr s"
    "validating r s ps 0"
proof -
  let ?n = "block_total r (length ps)"
  let ?t0 = "\<lparr>tiles = [], unused_tiles = [], mem_pool = pool_new, files = fs, io_script = []\<rparr>"
  define t where "t = FileTile_new r ?n fs []"
  have files: "\<And>i. i < ?n \<Longrightarrow> \<exists>f. fmlookup fs (BlockFile i) = Some f \<and> good_file r f
      \<and> is_block r (contents f) (block_payloads r i ps)"
    using assms(2) by (simp add: disk_holds_def)
  have T: "files t = fs" "mem_pool t = pool_new" "io_script t = []" "length (tiles t) = ?n"
    "\<And>i. i < ?n \<Longrightarrow> wf_desc r fs i (desc i t) \<and> state (desc i t) = TILE_OK
       \<and> file_handle (desc i t) = NoHandle \<and> fetched_data (desc i t) = None"
    using add_checked_tile_fold [of ?n ?t0 r] files
    by (auto simp: t_def FileTile_new_def Let_def)
  have "filter (\<lambda>d. fetched_data d \<noteq> None) (tiles t) = []"
    using T(4,5) by (auto simp: filter_empty_conv in_set_conv_nth desc_def)
  then have wf: "wf_ft r t"
    using T by (simp add: wf_ft_def cached_def)
  let ?s = "\<lparr>ft = t, checksum_valid_block_count = 0, rec_count = 0, next_cache_flush_timestamp = 0,
      optimal_cache_size = cache, cache_auto_flush_min_interval_sec = interval\<rparr>"
  have "is_block r (file_contents (BlockFile i) t) (block_payloads r i ps)" if "i < ?n" for i
    using files [OF that] T(1) by (auto simp: file_contents_def)
  moreover have "?n \<noteq> 0 \<or> ps = []"
    using assms(1) payload_block(1) [of r 0 ps] by auto
  ultimately have "validating r ?s ps 0"
    unfolding validating_def using assms wf T by (auto simp: disk_holds_def)
  moreover have "Blockchain_new r ?n fs [] cache interval = Inr ?s"
    using assms(1) by (simp add: Blockchain_new_def t_def)
  ultimately show thesis
    using that by blast
qed

lemma empty_store:
  assumes "2 \<le> r"
  obtains s :: "'p Blockchain"
  where "Blockchain_new r 0 fmempty [] cache interval = Inr s" "stores r s []"
proof -
  have "disk_holds r (fmempty :: (file_ref, 'p os_file) fmap) []"
    using assms by (simp add: disk_holds_def)
  then obtain s :: "'p Blockchain"
    where "Blockchain_new r 0 fmempty [] cache interval = Inr s" "validating r s [] 0"
    by (rule start_validating [OF assms, of _ _ cache interval]) (use assms in simp)
  then show thesis
    using that validating_done [of r s "[]"] assms by simp
qed

lemma stores_disk_holds:
  assumes st: "stores r s ps"
    and "\<And>i. block_total r (length ps) \<le> i \<Longrightarrow> fmlookup (files (ft s)) (BlockFile i) = None"
  shows "disk_holds r (files (ft s)) ps"
proof -
  note D = storesD [OF st]
  have "\<exists>f. fmlookup (files (ft s)) (BlockFile i) = Some f \<and> good_file r f
      \<and> is_block r (contents f) (block_payloads r i ps)" if "i < block_total r (length ps)" for i
  proof -
    have "i < length (tiles (ft s))"
      using that D(3) by simp
    then obtain f where "fmlookup (files (ft s)) (BlockFile i) = Some f" "good_file r f"
      by (rule wf_ft_file [OF D(2)])
    with D(6) [OF that] show ?thesis
      by (simp add: file_contents_def)
  qed
  then show ?thesis
    using assms(2) by (simp add: disk_holds_def)
qed


text \<open>With no files beyond the last block, what is appended is on disk.\<close>

lemma bc_append_on_disk:
  assumes st: "stores r s ps" and none: "\<And>i. block_total r (length ps) \<le> i \<Longrightarrow> fmlookup (files (ft s)) (BlockFile i) = None"
  obtains s' where "bc_append sha img r now p s = Inr ((True, OK), s')" "stores r s' (ps @ [p])"
    "\<And>i. block_total r (length (ps @ [p])) \<le> i \<Longrightarrow> fmlookup (files (ft s')) (BlockFile i) = None"
proof (rule bc_append_frame [OF st, of sha img now p])
  fix s'
  assume a: "bc_append sha img r now p s = Inr ((True, OK), s')" "stores r s' (ps @ [p])"
    and frame: "\<And>x. x \<noteq> BlockFile (length ps div (r - 1)) \<Longrightarrow> fmlookup (files (ft s')) x = fmlookup (files (ft s)) x"
  have "fmlookup (files (ft s')) (BlockFile i) = None" if "block_total r (length (ps @ [p])) \<le> i" for i
  proof -
    have "length ps div (r - 1) < i"
      using that block_total_Suc [OF storesD(1) [OF st], of "length ps"] by simp
    moreover from this have "block_total r (length ps) \<le> i"
      using block_total_eq [OF storesD(1) [OF st], of "length ps"] by (simp split: if_splits)
    ultimately show ?thesis
      using frame [of "BlockFile i"] none [of i] by simp
  qed
  with a show thesis
    by (rule that)
qed

section \<open>The store as a list of payloads\<close>

text \<open>
  What the blockchains above rely on: appending adds a payload at the end, a payload can be read
  at its position, and the number of records tells where the last payload is.
\<close>

locale record_store =
  fixes holds :: "'s \<Rightarrow> 'p list \<Rightarrow> bool"
    and app :: "'p \<Rightarrow> 's \<Rightarrow> ((bool \<times> ExitCode) \<times> 's) res"
    and rd :: "nat \<Rightarrow> 's \<Rightarrow> (('p Record option \<times> ExitCode) \<times> 's) res"
    and count :: "'s \<Rightarrow> nat"
    and place :: "nat \<Rightarrow> nat"
  assumes app_adds: "holds s ps \<Longrightarrow> \<exists>s'. app p s = Inr ((True, OK), s') \<and> holds s' (ps @ [p])"
    and rd_reads: "holds s ps \<Longrightarrow> k < length ps \<Longrightarrow>
          \<exists>s'. rd (place k) s = Inr ((Some (PAYLOAD (ps ! k)), OK), s') \<and> holds s' ps"
    and count_last: "holds s ps \<Longrightarrow> count s = (if ps = [] then 0 else place (length ps - 1) + 2)"
begin

lemma read_after_append:
  assumes "holds s ps" "k \<le> length ps"
  shows "\<exists>s1 s2. app p s = Inr ((True, OK), s1) \<and>
    rd (place k) s1 = Inr ((Some (PAYLOAD ((ps @ [p]) ! k)), OK), s2) \<and> holds s2 (ps @ [p])"
proof -
  obtain s1 where s1: "app p s = Inr ((True, OK), s1)" "holds s1 (ps @ [p])"
    using app_adds [OF assms(1)] by blast
  then show ?thesis
    using rd_reads [OF s1(2), of k] assms(2) by auto
qed

lemma latest_record:
  assumes "holds s ps" "ps \<noteq> []"
  shows "2 \<le> count s \<and> (\<exists>s'. rd (count s - 2) s = Inr ((Some (PAYLOAD (last ps)), OK), s') \<and> holds s' ps)"
  using assms rd_reads [OF assms(1), of "length ps - 1"] count_last [OF assms(1)]
  by (auto simp: last_conv_nth)

end

lemma payload_index_last:
  assumes "2 \<le> r" "ps \<noteq> []"
  shows "payload_index r (length ps - 1) + 2 = length ps + block_total r (length ps)"
proof -
  obtain m where "length ps = Suc m"
    using assms(2) by (cases ps) auto
  then show ?thesis
    using block_total_Suc [OF assms(1), of m] by (simp add: payload_index_def)
qed

interpretation gstore: record_store "stores GRADIDO_BLOCK_SIZE" "bc_append sha img GRADIDO_BLOCK_SIZE now"
  "get_record GRADIDO_BLOCK_SIZE now'" rec_count "payload_index GRADIDO_BLOCK_SIZE"
  for sha and img :: "'p Record \<Rightarrow> bytes" and now now'
proof
  fix s :: "'p Blockchain" and ps p
  assume st: "stores GRADIDO_BLOCK_SIZE s ps"
  show "\<exists>s'. bc_append sha img GRADIDO_BLOCK_SIZE now p s = Inr ((True, OK), s')
      \<and> stores GRADIDO_BLOCK_SIZE s' (ps @ [p])"
    by (rule bc_append_refines [OF st, of sha img now p]) (simp only: sum.inject, blast)
next
  fix s :: "'p Blockchain" and ps k
  assume st: "stores GRADIDO_BLOCK_SIZE s ps" and k: "k < length ps"
  show "\<exists>s'. get_record GRADIDO_BLOCK_SIZE now' (payload_index GRADIDO_BLOCK_SIZE k) s
      = Inr ((Some (PAYLOAD (ps ! k)), OK), s') \<and> stores GRADIDO_BLOCK_SIZE s' ps"
    by (rule get_record_ok [OF st k]) blast
next
  fix s :: "'p Blockchain" and ps
  assume st: "stores GRADIDO_BLOCK_SIZE s ps"
  show "rec_count s = (if ps = [] then 0 else payload_index GRADIDO_BLOCK_SIZE (length ps - 1) + 2)"
    using storesD(1,4) [OF st] payload_index_last [of GRADIDO_BLOCK_SIZE ps] by simp
qed

lemma append_all_refines:
  assumes "stores r s ps"
  shows "\<exists>s'. append_all sha img r now qs OK s = Inr ((True, OK), s') \<and> stores r s' (ps @ qs)"
  using assms
proof (induction qs arbitrary: s ps)
  case (Cons q qs)
  obtain s1 where s1: "bc_append sha img r now q s = Inr ((True, OK), s1)" "stores r s1 (ps @ [q])"
    by (rule bc_append_refines [OF Cons.prems]) blast
  then show ?case
    using Cons.IH [OF s1(2)] by auto
qed auto


section \<open>The checksum records\<close>

lemma bc_append_in_block:
  assumes st: "stores r s ps" and part: "length ps mod (r - 1) \<noteq> 0"
    and d: "fetched_data (desc (length ps div (r - 1)) (ft s)) = Some d"
  obtains s' where "bc_append sha img r now p s = Inr ((True, OK), s')" "stores r s' (ps @ [p])"
    "file_contents (BlockFile (length ps div (r - 1))) (ft s') =
       (file_contents (BlockFile (length ps div (r - 1))) (ft s))
         [length ps mod (r - 1) := PAYLOAD p,
          length ps mod (r - 1) + 1 := CHECKSUM (calc_checksum sha img
            (checksum_field img (d ! (length ps mod (r - 1)))) (PAYLOAD p))]"
    "fetched_data (desc (length ps div (r - 1)) (ft s')) = Some d"
proof -
  obtain s1 where s1: "maybe_flush_cache now s = Inr s1" "store_step r s s1"
      "\<And>j. length (tiles (ft s)) \<le> j + 1 \<Longrightarrow> desc j (ft s1) = desc j (ft s)"
    by (rule maybe_flush_cache_step [OF storesD(2) [OF st]]) (rule that)
  have st1: "stores r s1 ps"
    by (rule stores_store_step [OF st s1(2)]) (simp add: s1(3))
  have len: "length (tiles (ft s)) = length ps div (r - 1) + 1"
    using storesD(1,3) [OF st] part block_total_eq [of r "length ps"] by simp
  have d1: "fetched_data (desc (length ps div (r - 1)) (ft s1)) = Some d"
    using s1(3) [of "length ps div (r - 1)"] d len by simp
  have same: "file_contents x (ft s1) = file_contents x (ft s)" for x
    using s1(2) by (simp add: store_step_def cache_step_def file_contents_def)
  have pos: "rec_count s1 mod r = length ps mod (r - 1) + 1"
    using storesD(1,4) [OF st1] rec_count_mod [of r "length ps"] part by simp
  obtain s' where s': "append_to_block sha img r p (length ps mod (r - 1) + 1) s1 = Inr ((True, OK), s')"
    "stores r s' (ps @ [p])"
    "\<And>d. fetched_data (desc (length ps div (r - 1)) (ft s1)) = Some d \<Longrightarrow>
       file_contents (BlockFile (length ps div (r - 1))) (ft s') =
         (file_contents (BlockFile (length ps div (r - 1))) (ft s1))
           [length ps mod (r - 1) := PAYLOAD p,
            length ps mod (r - 1) + 1 := CHECKSUM (calc_checksum sha img
              (checksum_field img (d ! (length ps mod (r - 1)))) (PAYLOAD p))]"
    "fetched_data (desc (length ps div (r - 1)) (ft s')) = fetched_data (desc (length ps div (r - 1)) (ft s1))"
    by (rule append_to_block_refines [OF st1 part]) (rule that)
  show thesis
    by (rule that [of s']) (use s' s1(1) pos d1 same in \<open>simp_all add: bc_append_def\<close>)
qed

lemma bc_append_first:
  assumes st: "stores r s []"
  obtains s' where "bc_append sha img r now p s = Inr ((True, OK), s')" "stores r s' [p]"
    "file_contents (BlockFile 0) (ft s') =
       PAYLOAD p # CHECKSUM (calc_checksum sha img zero_checksum (PAYLOAD p)) # replicate (r - 2) EMPTY"
    "fetched_data (desc 0 (ft s')) = Some (file_contents (BlockFile 0) (ft s'))"
    "\<And>x. x \<noteq> BlockFile 0 \<Longrightarrow> fmlookup (files (ft s')) x = fmlookup (files (ft s)) x"
proof -
  obtain s1 where s1: "maybe_flush_cache now s = Inr s1" "store_step r s s1"
      "\<And>j. length (tiles (ft s)) \<le> j + 1 \<Longrightarrow> desc j (ft s1) = desc j (ft s)"
    by (rule maybe_flush_cache_step [OF storesD(2) [OF st]]) (rule that)
  have st1: "stores r s1 []"
    by (rule stores_store_step [OF st s1(2)]) (simp add: s1(3))
  have pos: "rec_count s1 mod r = 0"
    using storesD(1,4) [OF st1] by simp
  have full: "length ([] :: 'a list) mod (r - 1) = 0"
    by simp
  obtain s' where s': "append_new_block sha img r p s1 = Inr ((True, OK), s')" "stores r s' ([] @ [p])"
    "file_contents (BlockFile (length ([] :: 'a list) div (r - 1))) (ft s') =
       PAYLOAD p # CHECKSUM (calc_checksum sha img zero_checksum (PAYLOAD p)) # replicate (r - 2) EMPTY"
    "fetched_data (desc (length ([] :: 'a list) div (r - 1)) (ft s')) =
       Some (file_contents (BlockFile (length ([] :: 'a list) div (r - 1))) (ft s'))"
    "\<And>x. x \<noteq> BlockFile (length ([] :: 'a list) div (r - 1)) \<Longrightarrow>
       fmlookup (files (ft s')) x = fmlookup (files (ft s1)) x"
    by (rule append_new_block_refines [OF st1 full, of sha img p]) (rule that)
  show thesis
    by (rule that [of s'])
      (use s' s1(1,2) pos in \<open>simp_all add: bc_append_def store_step_def cache_step_def\<close>)
qed

text \<open>A store with one record, and no other file: the starting point of the witnesses.\<close>

lemma one_record_store:
  assumes "2 \<le> r"
  obtains s :: "'p Blockchain" where "stores r s [p]"
    "file_contents (BlockFile 0) (ft s) =
       PAYLOAD p # CHECKSUM (calc_checksum sha img zero_checksum (PAYLOAD p)) # replicate (r - 2) EMPTY"
    "fetched_data (desc 0 (ft s)) = Some (file_contents (BlockFile 0) (ft s))"
    "\<And>i. 0 < i \<Longrightarrow> fmlookup (files (ft s)) (BlockFile i) = None"
proof -
  obtain s0 :: "'p Blockchain"
    where s0: "Blockchain_new r 0 fmempty [] 1 1 = Inr s0" "stores r s0 []"
    using assms by (rule empty_store [of r 1 1])
  then have none: "fmlookup (files (ft s0)) x = None" for x
    using assms by (auto simp: Blockchain_new_def FileTile_new_def)
  obtain s where s: "stores r s [p]"
    "file_contents (BlockFile 0) (ft s) =
       PAYLOAD p # CHECKSUM (calc_checksum sha img zero_checksum (PAYLOAD p)) # replicate (r - 2) EMPTY"
    "fetched_data (desc 0 (ft s)) = Some (file_contents (BlockFile 0) (ft s))"
    "\<And>x. x \<noteq> BlockFile 0 \<Longrightarrow> fmlookup (files (ft s)) x = fmlookup (files (ft s0)) x"
    by (rule bc_append_first [OF s0(2), of sha img 0 p]) (rule that)
  show thesis
    by (rule that [OF s(1-3)]) (simp add: s(4) none)
qed


section \<open>Properties\<close>

text \<open>
  C14. Refinement of the record store: on a store that holds the payloads \<open>ps\<close>, \<open>append\<close> succeeds and
  the store then holds \<open>ps @ [p]\<close>; every payload, old and new, is read back by \<open>get_record\<close> at its
  position.
\<close>

theorem append_then_read:
  assumes "stores GRADIDO_BLOCK_SIZE s ps" "k \<le> length ps"
  shows "\<exists>s1 s2. bc_append sha img GRADIDO_BLOCK_SIZE now p s = Inr ((True, OK), s1) \<and>
    get_record GRADIDO_BLOCK_SIZE now' (payload_index GRADIDO_BLOCK_SIZE k) s1
      = Inr ((Some (PAYLOAD ((ps @ [p]) ! k)), OK), s2) \<and>
    stores GRADIDO_BLOCK_SIZE s2 (ps @ [p])"
  using assms by (rule gstore.read_after_append)

theorem append_then_read_witness:
  "\<exists>s s1 s2. Blockchain_new GRADIDO_BLOCK_SIZE 0 fmempty [] 100 100 = Inr s \<and>
    bc_append (\<lambda>b. b) (\<lambda>_. []) GRADIDO_BLOCK_SIZE 5 (42 :: nat) s = Inr ((True, OK), s1) \<and>
    get_record GRADIDO_BLOCK_SIZE 6 0 s1 = Inr ((Some (PAYLOAD 42), OK), s2)"
proof -
  obtain s :: "nat Blockchain"
    where "Blockchain_new GRADIDO_BLOCK_SIZE 0 fmempty [] 100 100 = Inr s" "stores GRADIDO_BLOCK_SIZE s []"
    by (rule empty_store [of GRADIDO_BLOCK_SIZE 100 100]) (simp_all add: GRADIDO_BLOCK_SIZE_def)
  with append_then_read [of s "[]" 0 "\<lambda>b. b" "\<lambda>_. []" 5 42 6] show ?thesis
    by (auto simp: payload_index_def)
qed

text \<open>
  C22. Recovery: after a restart on the files of a store that holds \<open>ps\<close>, with no block file beyond
  the last block, validating the blocks one by one succeeds and gives a store that holds \<open>ps\<close> again.
\<close>

theorem restart_recovers:
  assumes "stores r s ps" "length ts = block_total r (length ps)"
    and "\<And>i. block_total r (length ps) \<le> i \<Longrightarrow> fmlookup (files (ft s)) (BlockFile i) = None"
  shows "\<exists>s0 s'. Blockchain_new r (block_total r (length ps)) (files (ft s)) [] cache interval = Inr s0 \<and>
    revalidate r ts s0 = Inr ((True, OK), s') \<and> stores r s' ps"
proof -
  have "disk_holds r (files (ft s)) ps"
    using assms(1,3) by (rule stores_disk_holds)
  then obtain s0 where s0: "Blockchain_new r (block_total r (length ps)) (files (ft s)) [] cache interval = Inr s0"
      "validating r s0 ps 0"
    by (rule start_validating [OF storesD(1) [OF assms(1)]])
  then show ?thesis
    using revalidate_ok [OF s0(2), of ts] assms(2) by auto
qed

theorem restart_recovers_witness:
  "\<exists>s s0 s' :: nat Blockchain. stores 3 s [7] \<and>
    Blockchain_new 3 1 (files (ft s)) [] 100 100 = Inr s0 \<and> revalidate 3 [5] s0 = Inr ((True, OK), s') \<and>
    stores 3 s' [7]"
proof -
  obtain s :: "nat Blockchain" where s: "stores 3 s [7]"
    "\<And>i. 0 < i \<Longrightarrow> fmlookup (files (ft s)) (BlockFile i) = None"
    by (rule one_record_store [of 3 7]) (simp, rule that)
  have one: "block_total 3 (length [7 :: nat]) = 1"
    by (simp add: block_total_def)
  have "\<exists>s0 s'. Blockchain_new 3 1 (files (ft s)) [] 100 100 = Inr s0 \<and>
      revalidate 3 [5] s0 = Inr ((True, OK), s') \<and> stores 3 s' [7]"
    using restart_recovers [of 3 s "[7]" "[5]" 100 100, unfolded one] s by simp
  with s(1) show ?thesis
    by blast
qed



text \<open>
  The chain breaks when records are appended without a read in between: the third record of a
  block is followed by a checksum computed from zero bytes and not from the second checksum.
\<close>

theorem stale_tail_breaks_chain:
  assumes "stores r s []" "4 \<le> r"
  shows "\<exists>s1 s2 s3. bc_append sha img r now p1 s = Inr ((True, OK), s1) \<and>
    bc_append sha img r now p2 s1 = Inr ((True, OK), s2) \<and>
    bc_append sha img r now p3 s2 = Inr ((True, OK), s3) \<and>
    file_contents (BlockFile 0) (ft s3) ! 3 = CHECKSUM (sha (zero_checksum @ img (PAYLOAD p3)))"
proof -
  obtain s1 where s1: "bc_append sha img r now p1 s = Inr ((True, OK), s1)" "stores r s1 [p1]"
    "file_contents (BlockFile 0) (ft s1) =
       PAYLOAD p1 # CHECKSUM (calc_checksum sha img zero_checksum (PAYLOAD p1)) # replicate (r - 2) EMPTY"
    "fetched_data (desc 0 (ft s1)) = Some (file_contents (BlockFile 0) (ft s1))"
    by (rule bc_append_first [OF assms(1)]) (rule that)
  have one: "length [p1] mod (r - 1) = 1" "length [p1] div (r - 1) = 0"
    "length [p1, p2] mod (r - 1) = 2" "length [p1, p2] div (r - 1) = 0"
    using assms(2) by simp_all
  obtain s2 where s2: "bc_append sha img r now p2 s1 = Inr ((True, OK), s2)" "stores r s2 [p1, p2]"
    "file_contents (BlockFile 0) (ft s2) = (file_contents (BlockFile 0) (ft s1))
       [1 := PAYLOAD p2, 2 := CHECKSUM (calc_checksum sha img
         (checksum_field img (file_contents (BlockFile 0) (ft s1) ! 1)) (PAYLOAD p2))]"
    "fetched_data (desc 0 (ft s2)) = Some (file_contents (BlockFile 0) (ft s1))"
    by (rule bc_append_in_block [OF s1(2), of "file_contents (BlockFile 0) (ft s1)" sha img now p2])
      (use one s1(4) in \<open>simp_all add: numeral_2_eq_2\<close>)
  obtain s3 where s3: "bc_append sha img r now p3 s2 = Inr ((True, OK), s3)"
    "file_contents (BlockFile 0) (ft s3) = (file_contents (BlockFile 0) (ft s2))
       [2 := PAYLOAD p3, 3 := CHECKSUM (calc_checksum sha img
         (checksum_field img (file_contents (BlockFile 0) (ft s1) ! 2)) (PAYLOAD p3))]"
    by (rule bc_append_in_block [OF s2(2), of "file_contents (BlockFile 0) (ft s1)" sha img now p3])
      (use one s2(4) in \<open>simp_all add: numeral_3_eq_3\<close>)
  obtain m where "r = Suc (Suc (Suc (Suc m)))"
    using assms(2) by (auto simp: numeral_eq_Suc le_iff_add)
  then have "file_contents (BlockFile 0) (ft s1) ! 2 = EMPTY"
    "3 < length (file_contents (BlockFile 0) (ft s2))"
    using s1(3) s2(3) by (simp_all add: numeral_2_eq_2)
  then show ?thesis
    using s1(1) s2(1) s3 by (auto simp: checksum_field_def calc_checksum_def)
qed

theorem stale_tail_breaks_chain_witness:
  "\<exists>s s1 s2 s3 :: nat Blockchain. Blockchain_new 4 0 fmempty [] 1 1 = Inr s \<and>
    bc_append (\<lambda>b. b) (\<lambda>_. [1]) 4 9 1 s = Inr ((True, OK), s1) \<and>
    bc_append (\<lambda>b. b) (\<lambda>_. [1]) 4 9 2 s1 = Inr ((True, OK), s2) \<and>
    bc_append (\<lambda>b. b) (\<lambda>_. [1]) 4 9 3 s2 = Inr ((True, OK), s3) \<and>
    file_contents (BlockFile 0) (ft s3) ! 3 = CHECKSUM (zero_checksum @ [1])"
proof -
  obtain s :: "nat Blockchain"
    where s: "Blockchain_new 4 0 fmempty [] 1 1 = Inr s" "stores 4 s []"
    by (rule empty_store [of 4 1 1]) simp_all
  with stale_tail_breaks_chain [of 4 s "\<lambda>b. b" "\<lambda>_. [1]" 9 1 2 3] show ?thesis
    by auto
qed

text \<open>
  Validation accepts whatever checksum a block carries: replacing the bytes of its checksum
  record changes neither the result nor the exit code.
\<close>

theorem validate_block_ignores_checksum:
  "validate_block i (rs @ CHECKSUM c # rs') must_be_full ec t =
   validate_block i (rs @ CHECKSUM c' # rs') must_be_full ec t"
proof -
  have "scan_block (rs @ CHECKSUM c # rs') fin he hp = scan_block (rs @ CHECKSUM c' # rs') fin he hp"
    for fin he hp
    by (induction rs arbitrary: fin he hp) (auto split: Record.splits)
  then show ?thesis
    by (simp add: validate_block_def)
qed

text \<open>
  A truncated store cannot be used: when the last block is not full, appending after
  \<open>truncate(0)\<close> throws, because the record counter still refers to the removed blocks.
\<close>

theorem append_after_truncate_throws:
  assumes "stores r s ps" "length ps mod (r - 1) \<noteq> 0"
  shows "bc_append sha img r now p (truncate 0 s) = Inl (Throw ''TileFile: index too large'')"
proof -
  have "rec_count s mod r \<noteq> 0"
    using storesD(1,4) [OF assms(1)] rec_count_mod [of r "length ps"] assms(2) by simp
  then show ?thesis
    by (simp add: bc_append_def maybe_flush_cache_def flush_cache_def truncate_def truncate_tail_def
        get_tile_count_def append_to_block_def get_tile_def)
qed

theorem append_after_truncate_throws_witness:
  "\<exists>s :: nat Blockchain. stores 3 s [7] \<and>
    bc_append (\<lambda>b. b) (\<lambda>_. []) 3 5 8 (truncate 0 s) = Inl (Throw ''TileFile: index too large'')"
proof -
  obtain s :: "nat Blockchain" where s: "stores 3 s [7]"
    by (rule one_record_store [of 3 7]) simp_all
  then show ?thesis
    using append_after_truncate_throws [of 3 s "[7]" "\<lambda>b. b" "\<lambda>_. []" 5 8] by auto
qed

text \<open>
  A missing block file or one of the wrong length is not recovered: opening the tile reports
  neither of the two states the recovery code looks for, so the validation throws.
\<close>

theorem damaged_block_file_throws:
  assumes "now \<le> next_cache_flush_timestamp s" "i = checksum_valid_block_count s"
    and "i < length (tiles (ft s))" "index (desc i (ft s)) = i" "file_handle (desc i (ft s)) = NoHandle"
    and "io_script (ft s) = []" "pool_ok (mem_pool (ft s))" "0 < r"
    and "check_file2 r (ft s) (BlockFile i) = MISSING_FILE \<or> check_file2 r (ft s) (BlockFile i) = BAD_LENGTH"
  shows "validate_next_checksum r now s = Inl (Throw ''bad block file, cannot recover'')"
proof -
  have "\<exists>t1. sync_from_file r i (ft s) = Inr (False, t1) \<and> state (desc i t1) \<noteq> MISSING_FILE
      \<and> state (desc i t1) \<noteq> BAD_LENGTH"
    using assms(9)
  proof
    assume miss: "check_file2 r (ft s) (BlockFile i) = MISSING_FILE"
    let ?t1 = "set_state i TILE_OK (set_handle i (Opened (BlockFile i) 0)
        ((ft s)\<lparr>files := fmupd (BlockFile i) new_file (files (ft s))\<rparr>))"
    have op: "open_file r i (ft s) = (True, ?t1)"
      using assms miss by (simp add: open_file_def Let_def)
    have pool: "pool_ok (mem_pool ?t1)" "i < length (tiles ?t1)"
      using assms by (simp_all add: setter_defs)
    obtain mp d where "alloc_tile_data r i ?t1
        = Inr (upd_desc i (\<lambda>x. x\<lparr>fetched_data := Some d\<rparr>) (?t1\<lparr>mem_pool := mp\<rparr>))"
      by (rule alloc_tile_data_cases [OF pool]) (rule that)
    with op show ?thesis
      using assms
      by (auto simp: sync_from_file_def fread_def setter_defs io_next_def file_contents_def new_file_def)
  next
    assume "check_file2 r (ft s) (BlockFile i) = BAD_LENGTH"
    then show ?thesis
      using assms by (auto simp: sync_from_file_def open_file_def set_state_def)
  qed
  then show ?thesis
    using assms by (auto simp: validate_next_checksum_def maybe_flush_cache_def get_tile_count_def Let_def)
qed

theorem damaged_block_file_throws_witness:
  "\<exists>s. Blockchain_new 3 1 (fmempty :: (file_ref, nat os_file) fmap) [] 1 1 = Inr s \<and>
    validate_next_checksum 3 0 s = Inl (Throw ''bad block file, cannot recover'')"
proof -
  obtain s where s: "Blockchain_new 3 1 (fmempty :: (file_ref, nat os_file) fmap) [] 1 1 = Inr s"
    by (simp add: Blockchain_new_def)
  then have "validate_next_checksum 3 0 s = Inl (Throw ''bad block file, cannot recover'')"
    by (intro damaged_block_file_throws [of 0 s 0 3])
      (auto simp: Blockchain_new_def FileTile_new_def add_checked_tile_def create_tile_desc_def
        TileDesc_reset_def desc_def check_file2_def Let_def)
  with s show ?thesis
    by blast
qed

end
