(* ===== verification/Blockchain_Base.thy ===== *)
theory Blockchain_Base
  imports Block_Recovery
begin

text \<open>
  \<open>src/blockchain_base_deprecated.h\<close> and \<open>src/blockchain_base.h\<close>: what all blockchains have in
  common. A blockchain validates its stored blocks or fetches them from a sibling node, buffers the
  transactions that arrive meanwhile, and then appends them in the order of their sequence numbers.
  The virtual methods a concrete blockchain implements are the fields of \<open>child\<close>, its indexes the type
  \<open>'c\<close>. Tasks pushed to the worker pool and requests handed to the communication layer are collected
  in \<open>outgoing\<close>. A handler runs under the object's lock, so handlers are atomic; the clock is read
  once per handler (\<open>now\<close>).
\<close>

section \<open>State\<close>

datatype State = INITIAL | FETCHING_CHECKSUMS | FETCHING_BLOCKS | VALIDATING | READY

datatype task = ContinueValidationTask | ContinueTransactionsTask | ContinueInitTask

datatype request =
    push_task task nat
  | require_block_checksums bytes
  | require_block_data bytes u32

text \<open>\<open>Batch<T>\<close>: a null pointer is \<open>None\<close>; \<open>size\<close> is the number of elements behind the pointer.\<close>

record 'p Batch =
  buff :: "'p list option"
  reset_blockchain :: bool

record ('p, 'c) child =
  child_latest :: "nat \<Rightarrow> 'p Blockchain \<Rightarrow> (u64 option \<times> 'p Blockchain) res"
  child_id :: "'p list \<Rightarrow> u64 res"
  child_calc :: "nat \<Rightarrow> 'p list \<Rightarrow> 'c \<Rightarrow> (bool \<times> 'p list \<times> 'c) res"
  child_clear :: "'c \<Rightarrow> 'c"
  child_index :: "nat \<Rightarrow> nat \<Rightarrow> 'p Blockchain \<Rightarrow> 'c \<Rightarrow> (bool \<times> 'p Blockchain \<times> 'c) res"
  child_ready :: "'c \<Rightarrow> request list \<times> 'c"
  child_valid :: "'p list \<Rightarrow> bool"
  chain_sha :: "bytes \<Rightarrow> bytes"
  chain_img :: "'p Record \<Rightarrow> bytes"
  sizeof_T :: nat
  from_bytes :: "bytes \<Rightarrow> 'p"
  batch_size :: nat
  topic_reset_allowed :: bool

record ('p, 'c) chain =
  chain_state :: State
  storage :: "'p Blockchain"
  indexes :: 'c
  fetch_endpoint :: bytes
  fetched_checksums :: "bytes list"
  fetched_record_count :: u64
  fetched_checksum_expecting_last :: bool
  block_to_fetch :: u32
  fetched_data_count :: u64
  indexed_blocks :: nat
  inbound :: "'p Batch list"
  outgoing :: "request list"

definition BLOCKCHAIN_RESET_TIMEOUT_SECONDS :: nat where
  "BLOCKCHAIN_RESET_TIMEOUT_SECONDS = 5"

definition chain_new :: "'p Blockchain \<Rightarrow> 'c \<Rightarrow> ('p, 'c) chain" where
  "chain_new s c =
     \<lparr>chain_state = INITIAL, storage = s, indexes = c, fetch_endpoint = [], fetched_checksums = [],
      fetched_record_count = 0, fetched_checksum_expecting_last = False, block_to_fetch = 0,
      fetched_data_count = 0, indexed_blocks = 0, inbound = [], outgoing = []\<rparr>"

definition send :: "request \<Rightarrow> ('p, 'c) chain \<Rightarrow> ('p, 'c) chain" where
  "send r b = b\<lparr>outgoing := outgoing b @ [r]\<rparr>"


section \<open>The queue of inbound batches\<close>

text \<open>
  \<open>std::priority_queue\<close> with the comparison of sequence numbers: the top is a batch with the largest
  number. The list is kept in descending order; the standard leaves the order of equal numbers open,
  here they keep the order of arrival. The comparison reads the first record of both batches, so it
  has no meaning for a batch without a buffer.
\<close>

definition batch_id :: "('p, 'c) child \<Rightarrow> 'p Batch \<Rightarrow> u64 res" where
  "batch_id ch b =
     (case buff b of None \<Rightarrow> Inl (Undefined ''null pointer'') | Some rs \<Rightarrow> child_id ch rs)"

fun queue_push :: "('p, 'c) child \<Rightarrow> 'p Batch \<Rightarrow> 'p Batch list \<Rightarrow> 'p Batch list res" where
  "queue_push ch b [] = Inr [b]"
| "queue_push ch b (x # xs) =
     bind_res (batch_id ch x) (\<lambda>i. bind_res (batch_id ch b) (\<lambda>j.
       if i < j then Inr (b # x # xs)
       else bind_res (queue_push ch b xs) (\<lambda>ys. Inr (x # ys))))"


section \<open>Fetching from a sibling\<close>

definition fetch_next_block :: "('p, 'c) chain \<Rightarrow> ('p, 'c) chain" where
  "fetch_next_block b = send (require_block_data (fetch_endpoint b) (block_to_fetch b)) b"

definition reset_validation :: "('p, 'c) child \<Rightarrow> ('p, 'c) chain \<Rightarrow> ('p, 'c) chain" where
  "reset_validation ch b =
     send (push_task ContinueValidationTask BLOCKCHAIN_RESET_TIMEOUT_SECONDS)
       (b\<lparr>chain_state := INITIAL, storage := Block_Storage.truncate 0 (storage b),
          indexes := child_clear ch (indexes b), indexed_blocks := 0\<rparr>)"

definition start_validation :: "('p, 'c) child \<Rightarrow> ('p, 'c) chain \<Rightarrow> ('p, 'c) chain" where
  "start_validation ch b =
     send (push_task ContinueValidationTask 0)
       (b\<lparr>chain_state := VALIDATING, indexes := child_clear ch (indexes b), indexed_blocks := 0\<rparr>)"

text \<open>A message of the stream of records: the bytes of a record, or the end (\<open>!br.success()\<close>).\<close>

definition on_block_record ::
  "('p, 'c) child \<Rightarrow> nat \<Rightarrow> bytes option \<Rightarrow> ('p, 'c) chain \<Rightarrow> ('p, 'c) chain res" where
  "on_block_record ch now br b =
     (if chain_state b \<noteq> FETCHING_BLOCKS
      then Inl (Throw ''group register on_block_record(): wrong state'')
      else case br of
        None \<Rightarrow>
          Inr (if unat (block_to_fetch b) = length (fetched_checksums b) then
                 (if fetched_data_count b \<noteq> fetched_record_count b then reset_validation ch b
                  else start_validation ch b)
               else
                 (if fetched_data_count b \<noteq> fetched_record_count b then reset_validation ch b
                  else fetch_next_block (b\<lparr>block_to_fetch := block_to_fetch b + 1\<rparr>)))
      | Some bs \<Rightarrow>
          bind_res
            (if fetched_data_count b mod of_nat GRADIDO_BLOCK_SIZE < of_nat (GRADIDO_BLOCK_SIZE - 1) \<and>
                fetched_data_count b + 1 < fetched_record_count b
             then
               (if length bs + 1 < sizeof_T ch then Inl (Undefined ''memcpy beyond the end of the record'')
                else bind_res (validated_append (child_valid ch) (chain_sha ch) (chain_img ch) GRADIDO_BLOCK_SIZE now
                       [from_bytes ch bs] OK (storage b)) (\<lambda>(_, s). Inr (b\<lparr>storage := s\<rparr>)))
             else Inr b)
            (\<lambda>b1. Inr (b1\<lparr>fetched_data_count := fetched_data_count b1 + 1\<rparr>)))"

text \<open>A message of the stream of checksums: size and checksum of a block, or the end.\<close>

definition on_block_checksum ::
  "('p, 'c) child \<Rightarrow> (u32 \<times> bytes) option \<Rightarrow> ('p, 'c) chain \<Rightarrow> ('p, 'c) chain res" where
  "on_block_checksum ch bc b =
     (if chain_state b \<noteq> FETCHING_CHECKSUMS then Inl (Throw ''on_block_checksum(): wrong state'')
      else case bc of
        None \<Rightarrow>
          Inr (fetch_next_block
            (b\<lparr>chain_state := FETCHING_BLOCKS, block_to_fetch := 0, fetched_data_count := 0\<rparr>))
      | Some (block_size, checksum) \<Rightarrow>
          (if fetched_checksum_expecting_last b then Inr (reset_validation ch b)
           else Inr (b\<lparr>fetched_checksum_expecting_last := (block_size < of_nat GRADIDO_BLOCK_SIZE),
                       fetched_record_count := fetched_record_count b + ucast block_size,
                       fetched_checksums := fetched_checksums b @ [checksum]\<rparr>)))"


section \<open>Validation\<close>

definition validate_next_batch :: "('p, 'c) child \<Rightarrow> nat \<Rightarrow> ('p, 'c) chain \<Rightarrow> ('p, 'c) chain res" where
  "validate_next_batch ch now b =
     (if get_checksum_valid_block_count (storage b) = get_block_count (storage b) then
        bind_res (child_index ch now (indexed_blocks b) (storage b) (indexes b)) (\<lambda>(done, s, c).
          let b1 = b\<lparr>chain_state := READY, storage := s, indexes := c\<rparr>
          in Inr (if done
                  then (case child_ready ch c of
                          (rs, c1) \<Rightarrow> b1\<lparr>indexes := c1, outgoing := outgoing b1 @ rs\<rparr>)
                  else reset_validation ch b1))
      else
        bind_res (validate_next_checksum GRADIDO_BLOCK_SIZE now (storage b)) (\<lambda>((res, _), s).
          let b1 = b\<lparr>storage := s\<rparr>
          in if \<not> res then Inr (reset_validation ch b1)
             else bind_res (child_index ch now (indexed_blocks b) s (indexes b)) (\<lambda>(done, s1, c).
               let b2 = b1\<lparr>storage := s1, indexes := c\<rparr>
               in Inr (if done
                       then (send (push_task ContinueValidationTask 0) b2)\<lparr>indexed_blocks := indexed_blocks b + 1\<rparr>
                       else reset_validation ch b2))))"

text \<open>The argument \<open>sibling\<close> is the answer of \<open>get_random_sibling_endpoint\<close> or \<open>get_fetch_endpoint\<close>.\<close>

definition continue_validation ::
  "('p, 'c) child \<Rightarrow> nat \<Rightarrow> bytes option \<Rightarrow> ('p, 'c) chain \<Rightarrow> ('p, 'c) chain res" where
  "continue_validation ch now sibling b =
     (case chain_state b of
        INITIAL \<Rightarrow>
          Inr (if 0 < get_block_count (storage b) then start_validation ch b
               else case sibling of
                 Some e \<Rightarrow>
                   send (require_block_checksums e)
                     (b\<lparr>fetch_endpoint := e, chain_state := FETCHING_CHECKSUMS, fetched_record_count := 0,
                        fetched_checksums := [], fetched_checksum_expecting_last := False\<rparr>)
               | None \<Rightarrow>
                   (case child_ready ch (indexes b) of
                      (rs, c) \<Rightarrow>
                        send (push_task ContinueTransactionsTask 0)
                          (b\<lparr>chain_state := READY, indexes := c, outgoing := outgoing b @ rs\<rparr>)))
      | VALIDATING \<Rightarrow> validate_next_batch ch now b
      | _ \<Rightarrow> Inl (Throw ''continue_validation(): wrong state''))"


section \<open>Appending transactions\<close>

text \<open>One round of the loop: the next state and whether the loop goes on.\<close>

definition continue_round ::
  "('p, 'c) child \<Rightarrow> nat \<Rightarrow> 'p Batch \<Rightarrow> ('p, 'c) chain \<Rightarrow> (bool \<times> ('p, 'c) chain) res" where
  "continue_round ch now batch b =
     (if reset_blockchain batch then
        (if \<not> topic_reset_allowed ch then Inl (Throw ''cannot reset topic'')
         else Inr (True, b\<lparr>storage := Block_Storage.truncate 0 (storage b), indexed_blocks := 0,
                           indexes := child_clear ch (indexes b)\<rparr>))
      else case buff batch of
        None \<Rightarrow> Inl (Throw ''empty batch'')
      | Some [] \<Rightarrow> Inl (Throw ''empty batch'')
      | Some rs \<Rightarrow>
          bind_res (child_latest ch now (storage b)) (\<lambda>(latest, s).
            bind_res (child_id ch rs) (\<lambda>curr_seq_num.
              let b1 = b\<lparr>storage := s\<rparr>;
                  push_back = (\<lambda>b2. bind_res (queue_push ch batch (inbound b2)) (\<lambda>q. Inr (b2\<lparr>inbound := q\<rparr>)))
              in if (case latest of Some seq_num \<Rightarrow> curr_seq_num = seq_num + 1
                                  | None \<Rightarrow> topic_reset_allowed ch \<or> curr_seq_num = 1) then
                   bind_res (child_calc ch (get_rec_count s) rs (indexes b)) (\<lambda>(proceed, rs', c).
                     if proceed then
                       bind_res (validated_append (child_valid ch) (chain_sha ch) (chain_img ch) GRADIDO_BLOCK_SIZE now
                           rs' OK s) (\<lambda>(_, s1). Inr (True, b1\<lparr>storage := s1, indexes := c\<rparr>))
                     else bind_res (push_back (b1\<lparr>indexes := c\<rparr>)) (\<lambda>b2. Inr (False, b2)))
                 else if (case latest of Some seq_num \<Rightarrow> curr_seq_num \<le> seq_num | None \<Rightarrow> False) then Inr (True, b1)
                 else bind_res (push_back b1) (\<lambda>b2. Inr (False, reset_validation ch b2)))))"

fun continue_loop :: "('p, 'c) child \<Rightarrow> nat \<Rightarrow> nat \<Rightarrow> ('p, 'c) chain \<Rightarrow> (bool \<times> ('p, 'c) chain) res" where
  "continue_loop ch now 0 b = Inr (True, b)"
| "continue_loop ch now (Suc i) b =
     (case inbound b of
        [] \<Rightarrow> Inr (True, b)
      | batch # q \<Rightarrow>
          bind_res (continue_round ch now batch (b\<lparr>inbound := q\<rparr>)) (\<lambda>(go_on, b1).
            if go_on then continue_loop ch now i b1 else Inr (False, b1)))"

definition continue_with_transactions ::
  "('p, 'c) child \<Rightarrow> nat \<Rightarrow> ('p, 'c) chain \<Rightarrow> ('p, 'c) chain res" where
  "continue_with_transactions ch now b =
     (if chain_state b \<noteq> READY then Inr b
      else bind_res (continue_loop ch now (batch_size ch) b) (\<lambda>(finished, b1).
        Inr (if finished \<and> inbound b1 \<noteq> [] then send (push_task ContinueTransactionsTask 0) b1 else b1)))"

definition add_transaction ::
  "('p, 'c) child \<Rightarrow> nat \<Rightarrow> 'p Batch \<Rightarrow> ('p, 'c) chain \<Rightarrow> ('p, 'c) chain res" where
  "add_transaction ch now batch b =
     bind_res (queue_push ch batch (inbound b)) (\<lambda>q. continue_with_transactions ch now (b\<lparr>inbound := q\<rparr>))"


text \<open>
  \<open>BlockchainBase\<close> of \<open>src/blockchain_base.h\<close> has the same code except for the round: there is no
  reset of a topic, and a first transaction is not accepted into an empty blockchain.
\<close>

definition continue_round_grpr ::
  "('p, 'c) child \<Rightarrow> nat \<Rightarrow> 'p Batch \<Rightarrow> ('p, 'c) chain \<Rightarrow> (bool \<times> ('p, 'c) chain) res" where
  "continue_round_grpr ch now batch b =
     (case buff batch of
        None \<Rightarrow> Inl (Throw ''empty batch'')
      | Some [] \<Rightarrow> Inl (Throw ''empty batch'')
      | Some rs \<Rightarrow>
          bind_res (child_latest ch now (storage b)) (\<lambda>(latest, s).
            bind_res (child_id ch rs) (\<lambda>curr_seq_num.
              let b1 = b\<lparr>storage := s\<rparr>;
                  push_back = (\<lambda>b2. bind_res (queue_push ch batch (inbound b2)) (\<lambda>q. Inr (b2\<lparr>inbound := q\<rparr>)))
              in if (case latest of Some seq_num \<Rightarrow> curr_seq_num = seq_num + 1 | None \<Rightarrow> False) then
                   bind_res (child_calc ch (get_rec_count s) rs (indexes b)) (\<lambda>(proceed, rs', c).
                     if proceed then
                       bind_res (validated_append (child_valid ch) (chain_sha ch) (chain_img ch) GRADIDO_BLOCK_SIZE now
                           rs' OK s) (\<lambda>(_, s1). Inr (True, b1\<lparr>storage := s1, indexes := c\<rparr>))
                     else bind_res (push_back (b1\<lparr>indexes := c\<rparr>)) (\<lambda>b2. Inr (False, b2)))
                 else if (case latest of Some seq_num \<Rightarrow> curr_seq_num \<le> seq_num | None \<Rightarrow> False) then Inr (True, b1)
                 else bind_res (push_back b1) (\<lambda>b2. Inr (False, reset_validation ch b2)))))"

fun continue_loop_grpr ::
  "('p, 'c) child \<Rightarrow> nat \<Rightarrow> nat \<Rightarrow> ('p, 'c) chain \<Rightarrow> (bool \<times> ('p, 'c) chain) res" where
  "continue_loop_grpr ch now 0 b = Inr (True, b)"
| "continue_loop_grpr ch now (Suc i) b =
     (case inbound b of
        [] \<Rightarrow> Inr (True, b)
      | batch # q \<Rightarrow>
          bind_res (continue_round_grpr ch now batch (b\<lparr>inbound := q\<rparr>)) (\<lambda>(go_on, b1).
            if go_on then continue_loop_grpr ch now i b1 else Inr (False, b1)))"

definition continue_with_grpr_transactions ::
  "('p, 'c) child \<Rightarrow> nat \<Rightarrow> ('p, 'c) chain \<Rightarrow> ('p, 'c) chain res" where
  "continue_with_grpr_transactions ch now b =
     (if chain_state b \<noteq> READY then Inr b
      else bind_res (continue_loop_grpr ch now (batch_size ch) b) (\<lambda>(finished, b1).
        Inr (if finished \<and> inbound b1 \<noteq> [] then send (push_task ContinueTransactionsTask 0) b1 else b1)))"


section \<open>Queries\<close>

definition get_transaction_count :: "('p, 'c) chain \<Rightarrow> nat" where
  "get_transaction_count b =
     (if chain_state b \<noteq> READY then 0
      else if get_rec_count (storage b) = 0 then 0
      else get_rec_count (storage b) - get_block_count (storage b))"

text \<open>\<open>get_transaction2\<close> dereferences the record it is given.\<close>

definition get_transaction2 ::
  "nat \<Rightarrow> nat \<Rightarrow> ('p, 'c) chain \<Rightarrow> ('p Record option \<times> ('p, 'c) chain) res" where
  "get_transaction2 now seq_num b =
     (if get_rec_count (storage b) \<le> seq_num then Inr (None, b)
      else bind_res (get_record GRADIDO_BLOCK_SIZE now seq_num (storage b)) (\<lambda>((r, _), s).
        case r of
          None \<Rightarrow> Inl (Undefined ''null pointer'')
        | Some t \<Rightarrow> Inr (Some t, b\<lparr>storage := s\<rparr>)))"

text \<open>
  The bytes sent for a record: \<open>sizeof(T)\<close> bytes of the payload, or as many from the start of the
  checksum; a record of another type is sent as an empty string.
\<close>

definition record_reply :: "('p, 'c) child \<Rightarrow> 'p Record \<Rightarrow> bytes" where
  "record_reply ch r =
     (case r of other_record_type _ \<Rightarrow> [] | _ \<Rightarrow> take (sizeof_T ch) (drop 1 (chain_img ch r)))"

definition get_block_record ::
  "('p, 'c) child \<Rightarrow> nat \<Rightarrow> nat \<Rightarrow> ('p, 'c) chain \<Rightarrow> (bytes option \<times> ('p, 'c) chain) res" where
  "get_block_record ch now seq_num b =
     (let block_num = seq_num div GRADIDO_BLOCK_SIZE mod 2 ^ 32
      in if get_block_count (storage b) \<le> block_num then Inr (None, b)
         else bind_res (get_block GRADIDO_BLOCK_SIZE now block_num (storage b)) (\<lambda>((d, _), s).
           case d of
             None \<Rightarrow> Inl (Undefined ''null pointer'')
           | Some rs \<Rightarrow>
               (if length rs \<le> seq_num mod GRADIDO_BLOCK_SIZE
                then Inl (Undefined ''record beyond the end of the block'')
                else let r = rs ! (seq_num mod GRADIDO_BLOCK_SIZE); b1 = b\<lparr>storage := s\<rparr>
                     in Inr (if r = EMPTY then None else Some (record_reply ch r), b1))))"

text \<open>
  \<open>strcpy\<close> of a checksum field into the zeroed checksum of a \<open>BlockInfo\<close>: it stops at the first zero
  byte, and a field without one is overrun.
\<close>

definition copy_checksum :: "('p, 'c) child \<Rightarrow> 'p Record \<Rightarrow> bytes res" where
  "copy_checksum ch r =
     bind_res (c_str (checksum_field (chain_img ch) r)) (\<lambda>cs.
       Inr (cs @ replicate (BLOCKCHAIN_CHECKSUM_SIZE - length cs) 0))"

text \<open>
  The last block: the size comes from the position \<open>j\<close> of the checksum, the checksum from the record
  \<open>rec2[j]\<close>, which is the record at position \<open>2 * j\<close>.
\<close>

definition last_block_info :: "('p, 'c) child \<Rightarrow> 'p Record list \<Rightarrow> (nat \<times> bytes) option res" where
  "last_block_info ch rs =
     (let j = length (takeWhile (\<lambda>r. case r of CHECKSUM _ \<Rightarrow> False | _ \<Rightarrow> True) rs)
      in if j = length rs then Inr None
         else if length rs \<le> 2 * j then Inl (Undefined ''record beyond the end of the block'')
         else bind_res (copy_checksum ch (rs ! (2 * j))) (\<lambda>cs. Inr (Some (j + 1, cs))))"

fun block_infos ::
  "('p, 'c) child \<Rightarrow> nat \<Rightarrow> nat list \<Rightarrow> 'p Blockchain \<Rightarrow> ((nat \<times> bytes) list \<times> 'p Blockchain) res" where
  "block_infos ch now [] s = Inr ([], s)"
| "block_infos ch now (i # is) s =
     bind_res (get_block GRADIDO_BLOCK_SIZE now i s) (\<lambda>((d, _), s1).
       case d of
         None \<Rightarrow> Inl (Undefined ''null pointer'')
       | Some rs \<Rightarrow>
           if i + 1 = get_block_count s1 then
             bind_res (last_block_info ch rs) (\<lambda>bi. Inr (case bi of None \<Rightarrow> [] | Some x \<Rightarrow> [x], s1))
           else bind_res (copy_checksum ch (rs ! (GRADIDO_BLOCK_SIZE - 1))) (\<lambda>cs.
             bind_res (block_infos ch now is s1) (\<lambda>(bis, s2). Inr ((GRADIDO_BLOCK_SIZE, cs) # bis, s2))))"

definition get_checksums ::
  "('p, 'c) child \<Rightarrow> nat \<Rightarrow> ('p, 'c) chain \<Rightarrow> ((nat \<times> bytes) list \<times> ('p, 'c) chain) res" where
  "get_checksums ch now b =
     bind_res (block_infos ch now [0..<get_block_count (storage b)] (storage b)) (\<lambda>(bis, s).
       Inr (bis, b\<lparr>storage := s\<rparr>))"



section \<open>Serving other nodes\<close>

text \<open>
  One run of \<open>BlockProvider\<close> (\<open>src/gradido_events.h\<close>) for a blockchain the node has: the reply with
  the next record of the requested block, or the end of the stream. The number of records provided
  before is also the number of writes done.
\<close>

definition BlockProvider_run ::
  "('p, 'c) child \<Rightarrow> nat \<Rightarrow> nat \<Rightarrow> nat \<Rightarrow> ('p, 'c) chain \<Rightarrow> (bytes option \<times> ('p, 'c) chain) res" where
  "BlockProvider_run ch now block_id records_provided ab =
     (let offset = GRADIDO_BLOCK_SIZE * block_id; seq_num = records_provided + offset
      in if records_provided = GRADIDO_BLOCK_SIZE then Inr (None, ab)
         else get_block_record ch now seq_num ab)"

text \<open>The stream of replies to a request for a block, up to its end.\<close>

fun block_stream ::
  "('p, 'c) child \<Rightarrow> nat \<Rightarrow> nat \<Rightarrow> nat \<Rightarrow> nat \<Rightarrow> ('p, 'c) chain \<Rightarrow> (bytes option list \<times> ('p, 'c) chain) res"
where
  "block_stream ch now block_id 0 k ab = Inr ([], ab)"
| "block_stream ch now block_id (Suc fuel) k ab =
     bind_res (BlockProvider_run ch now block_id k ab) (\<lambda>(reply, ab1).
       case reply of
         None \<Rightarrow> Inr ([None], ab1)
       | Some r \<Rightarrow> bind_res (block_stream ch now block_id fuel (k + 1) ab1) (\<lambda>(rs, ab2). Inr (Some r # rs, ab2)))"

end
