(* ===== verification/Translate.thy ===== *)
theory Translate
  imports Complex_Main Blockchain_Base
begin

text \<open>
  \<open>src/blockchain_gradido_translate.cpp\<close>: the translation of the messages that arrive from the consensus
  service into batches of records. The message classes are those declared in
  \<open>proto/gradido/gradido.proto\<close> and the protocol files of Hedera, as records of their fields; decoding a
  byte string into a message is the protobuf library, an argument of the definitions. A failed
  \<open>ParseFromString\<close> is not noticed by the code, so these arguments are total.
\<close>

section \<open>Messages\<close>

text \<open>A \<open>double\<close>: a rational number, or \<open>None\<close> for an infinity or a value that is not a number.\<close>

type_synonym pb_double = "rat option"

record pb_Timestamp =
  pb_seconds :: i64
  pb_nanos :: i32

record pb_AccountID =
  pb_acc_shardnum :: i64
  pb_acc_realmnum :: i64
  pb_accountnum :: i64

record pb_TopicID =
  pb_shardnum :: i64
  pb_realmnum :: i64
  pb_topicnum :: i64

record pb_TransactionID =
  pb_transactionvalidstart :: pb_Timestamp
  pb_accountid :: pb_AccountID

record ConsensusTopicResponse =
  pb_consensustimestamp :: pb_Timestamp
  pb_message :: bytes
  pb_runninghash :: bytes
  pb_sequencenumber :: u64
  pb_runninghashversion :: u64

record SignaturePair =
  pb_pub_key :: bytes
  pb_ed25519 :: bytes

record pb_Amount =
  pb_pubkey :: bytes
  pb_amount :: pb_double

record pb_LocalTransfer =
  pb_local_sender :: pb_Amount
  pb_local_receiver :: bytes

record CrossGroupTransfer =
  pb_cross_sender :: pb_Amount
  pb_cross_receiver :: bytes
  pb_other_group :: bytes
  pb_paired_transaction_id :: pb_Timestamp

datatype pb_Transfer = pb_local pb_LocalTransfer | pb_inbound CrossGroupTransfer | pb_outbound CrossGroupTransfer
  | pb_no_transfer

record GroupFriendsUpdate =
  pb_group :: bytes
  pb_action :: i32

record GroupMemberUpdate =
  pb_user_pubkey :: bytes
  pb_member_update_type :: i32
  pb_member_paired_id :: pb_Timestamp
  pb_target_group :: bytes

datatype pb_Data =
    pb_transfer pb_Transfer
  | pb_creation pb_Amount
  | pb_group_friends_update GroupFriendsUpdate
  | pb_group_member_update GroupMemberUpdate
  | pb_debug_reset_blockchain_mark
  | pb_other_data

record pb_TransactionBody =
  pb_memo :: bytes
  pb_version_number :: u64
  pb_data :: pb_Data

record GradidoTransaction =
  pb_sig_pair :: "SignaturePair list"
  pb_body_bytes :: bytes

record AddGroupToRegister =
  pb_alias :: bytes
  pb_topic_id :: pb_TopicID
  pb_reset_group_register :: bool


section \<open>Sizes\<close>

text \<open>
  The sizes of the packed structs: \<open>Transaction\<close> is its header (96 bytes), a signature (96), the count of
  signatures and the type, a union whose largest members are the transfers between groups (140), the
  result and the memo.
\<close>

definition sizeof_Signature :: nat where
  "sizeof_Signature = PUB_KEY_LENGTH + SIGNATURE_LENGTH"

definition sizeof_Transaction :: nat where
  "sizeof_Transaction = 96 + sizeof_Signature + 1 + 1 + 140 + 1 + MEMO_MAIN_SIZE"

definition MEMO_PART_SIZE :: nat where
  "MEMO_PART_SIZE = max sizeof_Transaction (MEMO_FULL_SIZE - MEMO_MAIN_SIZE)"

definition SIGNATURES_PER_RECORD :: nat where
  "SIGNATURES_PER_RECORD = sizeof_Transaction div sizeof_Signature"

definition MAXIMUM_SIGNATURE_COUNT :: nat where
  "MAXIMUM_SIGNATURE_COUNT = SIGNATURES_PER_RECORD * (MAX_RECORD_PARTS - NON_SIGNATURE_PARTS) + SIGNATURES_IN_MAIN_PART"

lemma sizes:
  "sizeof_Transaction = 351" "MEMO_PART_SIZE = 351" "SIGNATURES_PER_RECORD = 3" "MAXIMUM_SIGNATURE_COUNT = 10"
  by (simp_all add: sizeof_Transaction_def sizeof_Signature_def MEMO_PART_SIZE_def SIGNATURES_PER_RECORD_def
      MAXIMUM_SIGNATURE_COUNT_def PUB_KEY_LENGTH_def SIGNATURE_LENGTH_def MEMO_MAIN_SIZE_def MEMO_FULL_SIZE_def
      MAX_RECORD_PARTS_def NON_SIGNATURE_PARTS_def SIGNATURES_IN_MAIN_PART_def)


section \<open>Parts of messages\<close>

definition translate_Timestamp_from_pb :: "pb_Timestamp \<Rightarrow> HederaTimestamp" where
  "translate_Timestamp_from_pb ts = HederaTimestamp (pb_seconds ts) (pb_nanos ts)"

definition translate_Timestamp_to_pb :: "HederaTimestamp \<Rightarrow> pb_Timestamp" where
  "translate_Timestamp_to_pb ts = \<lparr>pb_seconds = seconds ts, pb_nanos = nanos ts\<rparr>"

definition translate_AccountID_from_pb :: "pb_AccountID \<Rightarrow> HederaAccountID" where
  "translate_AccountID_from_pb v =
     \<lparr>acc_shardNum = pb_acc_shardnum v, acc_realmNum = pb_acc_realmnum v, accountNum = pb_accountnum v\<rparr>"

definition translate_AccountID_to_pb :: "HederaAccountID \<Rightarrow> pb_AccountID" where
  "translate_AccountID_to_pb v =
     \<lparr>pb_acc_shardnum = acc_shardNum v, pb_acc_realmnum = acc_realmNum v, pb_accountnum = accountNum v\<rparr>"

definition translate_TopicID_from_pb :: "pb_TopicID \<Rightarrow> HederaTopicID" where
  "translate_TopicID_from_pb v = \<lparr>shardNum = pb_shardnum v, realmNum = pb_realmnum v, topicNum = pb_topicnum v\<rparr>"

definition translate_TopicID_to_pb :: "HederaTopicID \<Rightarrow> pb_TopicID" where
  "translate_TopicID_to_pb v = \<lparr>pb_shardnum = shardNum v, pb_realmnum = realmNum v, pb_topicnum = topicNum v\<rparr>"

definition translate_TransactionID_from_pb :: "pb_TransactionID \<Rightarrow> HederaTransactionID" where
  "translate_TransactionID_from_pb v =
     \<lparr>transactionValidStart = translate_Timestamp_from_pb (pb_transactionvalidstart v),
      accountID = translate_AccountID_from_pb (pb_accountid v)\<rparr>"

definition translate_TransactionID_to_pb :: "HederaTransactionID \<Rightarrow> pb_TransactionID" where
  "translate_TransactionID_to_pb v =
     \<lparr>pb_transactionvalidstart = translate_Timestamp_to_pb (transactionValidStart v),
      pb_accountid = translate_AccountID_to_pb (accountID v)\<rparr>"

text \<open>
  \<open>memcpy(field, s.c_str(), n)\<close>: the string is followed by one null byte; reading more than that has no
  defined meaning.
\<close>

definition copy_exact :: "nat \<Rightarrow> bytes \<Rightarrow> bytes res" where
  "copy_exact n s = (if length s + 1 < n then Inl (Undefined ''read beyond the string'') else Inr (take n (s @ [0])))"

definition translate_HederaTransaction_from_pb :: "ConsensusTopicResponse \<Rightarrow> HederaTransaction res" where
  "translate_HederaTransaction_from_pb v =
     bind_res (copy_exact HEDERA_RUNNING_HASH_LENGTH (pb_runninghash v)) (\<lambda>h.
       Inr \<lparr>consensusTimestamp = translate_Timestamp_from_pb (pb_consensustimestamp v), runningHash = h,
            sequenceNumber = pb_sequencenumber v, runningHashVersion = pb_runninghashversion v\<rparr>)"

definition translate_HederaTransaction_to_pb :: "HederaTransaction \<Rightarrow> ConsensusTopicResponse" where
  "translate_HederaTransaction_to_pb v =
     \<lparr>pb_consensustimestamp = translate_Timestamp_to_pb (consensusTimestamp v), pb_message = [],
      pb_runninghash = take HEDERA_RUNNING_HASH_LENGTH (runningHash v), pb_sequencenumber = sequenceNumber v,
      pb_runninghashversion = runningHashVersion v\<rparr>"

definition translate_Signature_from_pb :: "SignaturePair \<Rightarrow> Signature res" where
  "translate_Signature_from_pb p =
     bind_res (copy_exact PUB_KEY_LENGTH (pb_pub_key p)) (\<lambda>k.
       bind_res (copy_exact SIGNATURE_LENGTH (pb_ed25519 p)) (\<lambda>s. Inr \<lparr>sig_pubkey = k, sig_signature = s\<rparr>))"

definition translate_Signature_to_pb :: "SignaturePair list \<Rightarrow> Signature \<Rightarrow> SignaturePair list" where
  "translate_Signature_to_pb sig_map s =
     sig_map @ [\<lparr>pb_pub_key = take PUB_KEY_LENGTH (sig_pubkey s), pb_ed25519 = take SIGNATURE_LENGTH (sig_signature s)\<rparr>]"

text \<open>The conversion of a \<open>double\<close> to \<open>uint64_t\<close> truncates, and is undefined outside of the range.\<close>

definition u64_of_double :: "pb_double \<Rightarrow> u64 res" where
  "u64_of_double x =
     (case x of
        None \<Rightarrow> Inl (Undefined ''conversion of a double'')
      | Some r \<Rightarrow>
          (if -1 < r \<and> r < 2 ^ 64 then Inr (if r < 0 then 0 else word_of_int \<lfloor>r\<rfloor>)
           else Inl (Undefined ''conversion of a double'')))"

section \<open>Records of the group register\<close>

definition reset_batch :: "'p Batch" where
  "reset_batch = \<lparr>buff = None, reset_blockchain = True\<rparr>"

definition translate_group_from_ctr ::
  "(bytes \<Rightarrow> AddGroupToRegister) \<Rightarrow> ConsensusTopicResponse \<Rightarrow> GroupRegisterRecord Batch res" where
  "translate_group_from_ctr parse t =
     (let tb = parse (pb_message t)
      in if pb_reset_group_register tb then Inr reset_batch
         else
           let a = takeWhile (\<lambda>x. x \<noteq> 0) (pb_alias tb)
           in if GROUP_ALIAS_LENGTH \<le> length a then Inl (Undefined ''strcpy beyond the alias'')
              else bind_res (translate_HederaTransaction_from_pb t) (\<lambda>h.
                Inr \<lparr>buff = Some [GROUP_RECORD
                        \<lparr>gr_alias = a @ replicate (GROUP_ALIAS_LENGTH - length a) 0,
                         topic_id = translate_TopicID_from_pb (pb_topic_id tb), success = False,
                         gr_hedera_transaction = h,
                         gr_signature = \<lparr>sig_pubkey = replicate PUB_KEY_LENGTH 0,
                                         sig_signature = replicate SIGNATURE_LENGTH 0\<rparr>\<rparr>],
                     reset_blockchain = False\<rparr>))"


section \<open>Transactions of a group\<close>

definition fresh_user :: "bytes \<Rightarrow> UserTransfer" where
  "fresh_user u = \<lparr>new_balance = gv_zero, prev_transfer_rec_num = 0, user = u\<rparr>"

definition gradidos :: "pb_double \<Rightarrow> GradidoValue res" where
  "gradidos x = bind_res (u64_of_double x) (\<lambda>n. Inr (GradidoValue n 0))"

definition translate_creation :: "pb_Amount \<Rightarrow> TransactionBody res" where
  "translate_creation r =
     bind_res (gradidos (pb_amount r)) (\<lambda>v.
       bind_res (copy_exact PUB_KEY_LENGTH (pb_pubkey r)) (\<lambda>u.
         Inr (gradido_creation
           \<lparr>new_balance = gv_zero, prev_transfer_rec_num = 0, user = u, creation_amount = v\<rparr>)))"

definition translate_friends_update :: "GroupFriendsUpdate \<Rightarrow> TransactionBody res" where
  "translate_friends_update f =
     bind_res (copy_field PUB_KEY_LENGTH (pb_group f)) (\<lambda>g.
       Inr (if pb_action f = 0 then add_group_friend g else remove_group_friend g))"

definition translate_move :: "GroupMemberUpdate \<Rightarrow> bytes \<Rightarrow> MoveUser res" where
  "translate_move m u =
     bind_res (copy_field PUB_KEY_LENGTH (pb_target_group m)) (\<lambda>g.
       Inr \<lparr>paired_transaction_id = translate_Timestamp_from_pb (pb_member_paired_id m), other_group = g,
            mu_user = u, mu_state = \<lparr>new_balance = gv_zero, prev_transfer_rec_num = 0\<rparr>\<rparr>)"

definition translate_member_update :: "GroupMemberUpdate \<Rightarrow> TransactionBody res" where
  "translate_member_update m =
     (let mut = ucast (pb_member_update_type m) :: u8
      in bind_res (copy_exact PUB_KEY_LENGTH (pb_user_pubkey m)) (\<lambda>u.
           if mut = 0 then Inr (add_user u)
           else bind_res (translate_move m u) (\<lambda>mv.
             Inr (if mut = 1 then move_user_inbound mv else move_user_outbound mv))))"

definition translate_local :: "pb_LocalTransfer \<Rightarrow> TransactionBody res" where
  "translate_local l =
     bind_res (gradidos (pb_amount (pb_local_sender l))) (\<lambda>v.
       bind_res (copy_exact PUB_KEY_LENGTH (pb_pubkey (pb_local_sender l))) (\<lambda>s.
         bind_res (copy_exact PUB_KEY_LENGTH (pb_local_receiver l)) (\<lambda>r.
           Inr (local_transfer \<lparr>lt_amount = v, lt_sender = fresh_user s, lt_receiver = fresh_user r\<rparr>))))"

definition translate_cross ::
  "CrossGroupTransfer \<Rightarrow> (GradidoValue \<Rightarrow> bytes \<Rightarrow> bytes \<Rightarrow> HederaTimestamp \<Rightarrow> bytes \<Rightarrow> TransactionBody)
     \<Rightarrow> TransactionBody res" where
  "translate_cross x mk =
     bind_res (gradidos (pb_amount (pb_cross_sender x))) (\<lambda>v.
       bind_res (copy_exact PUB_KEY_LENGTH (pb_pubkey (pb_cross_sender x))) (\<lambda>s.
         bind_res (copy_exact PUB_KEY_LENGTH (pb_cross_receiver x)) (\<lambda>r.
           bind_res (copy_field PUB_KEY_LENGTH (pb_other_group x)) (\<lambda>g.
             Inr (mk v s r (translate_Timestamp_from_pb (pb_paired_transaction_id x)) g)))))"

definition translate_transfer :: "pb_Transfer \<Rightarrow> TransactionBody res" where
  "translate_transfer g2 =
     (case g2 of
        pb_local l \<Rightarrow> translate_local l
      | pb_inbound x \<Rightarrow> translate_cross x (\<lambda>v s r ts g. inbound_transfer
          \<lparr>paired_transaction_id = ts, other_group = g, it_amount = v, it_sender = s, it_receiver = fresh_user r\<rparr>)
      | pb_outbound x \<Rightarrow> translate_cross x (\<lambda>v s r ts g. outbound_transfer
          \<lparr>paired_transaction_id = ts, other_group = g, ot_amount = v, ot_sender = fresh_user s, ot_receiver = r\<rparr>)
      | pb_no_transfer \<Rightarrow> Inr (other_transaction_type 0))"

definition translate_data :: "pb_Data \<Rightarrow> TransactionBody res" where
  "translate_data d =
     (case d of
        pb_creation r \<Rightarrow> translate_creation r
      | pb_group_friends_update f \<Rightarrow> translate_friends_update f
      | pb_group_member_update m \<Rightarrow> translate_member_update m
      | pb_transfer g2 \<Rightarrow> translate_transfer g2
      | _ \<Rightarrow> Inr (other_transaction_type 0))"

text \<open>
  The memo: short enough for the main record with its terminator, or its first bytes there and the rest,
  cut to the size of a part, in a record of its own.
\<close>

definition multipart_memo :: "bytes \<Rightarrow> bool" where
  "multipart_memo m \<longleftrightarrow> MEMO_MAIN_SIZE - 1 < length m"

definition main_memo :: "bytes \<Rightarrow> bytes" where
  "main_memo m =
     (if multipart_memo m then take MEMO_MAIN_SIZE m else m @ replicate (MEMO_MAIN_SIZE - length m) 0)"

definition memo_records :: "bytes \<Rightarrow> GradidoRecord list" where
  "memo_records m =
     (if multipart_memo m
      then let other_part = take (MEMO_PART_SIZE - 1) (drop MEMO_MAIN_SIZE m)
           in [MEMO (other_part @ replicate (MEMO_PART_SIZE - length other_part) 0)]
      else [])"

definition sig_part_count :: "nat \<Rightarrow> nat" where
  "sig_part_count n =
     (if n \<le> SIGNATURES_IN_MAIN_PART then 0 else (n - SIGNATURES_IN_MAIN_PART - 1) div SIGNATURES_PER_RECORD + 1)"

definition Signature_zero :: Signature where
  "Signature_zero = \<lparr>sig_pubkey = replicate PUB_KEY_LENGTH 0, sig_signature = replicate SIGNATURE_LENGTH 0\<rparr>"

text \<open>The inner loop over \<open>j\<close>: up to \<open>k\<close> signatures from position \<open>cs\<close>, until \<open>n\<close> have been copied.\<close>

fun sig_part :: "SignaturePair list \<Rightarrow> nat \<Rightarrow> nat \<Rightarrow> nat \<Rightarrow> (Signature list \<times> nat) res" where
  "sig_part ps n 0 cs = Inr ([], cs)"
| "sig_part ps n (Suc k) cs =
     (if length ps \<le> cs then Inl (Undefined ''signature beyond the list'')
      else bind_res (translate_Signature_from_pb (ps ! cs)) (\<lambda>s.
        if cs + 1 = n then Inr ([s], cs + 1)
        else bind_res (sig_part ps n k (cs + 1)) (\<lambda>(ss, cs'). Inr (s # ss, cs'))))"

fun sig_records :: "SignaturePair list \<Rightarrow> nat \<Rightarrow> nat \<Rightarrow> nat \<Rightarrow> GradidoRecord list res" where
  "sig_records ps n 0 cs = Inr []"
| "sig_records ps n (Suc i) cs =
     bind_res (sig_part ps n SIGNATURES_PER_RECORD cs) (\<lambda>(ss, cs').
       bind_res (sig_records ps n i cs') (\<lambda>rs.
         Inr (SIGNATURES (ss @ replicate (SIGNATURES_PER_RECORD - length ss) Signature_zero) # rs)))"

text \<open>
  The whole translation. The exceptions for a wrong number of signatures end in the handler, which turns
  the message into a reset of the blockchain. The number of signatures is kept in a byte.
\<close>

definition translate_gradido_from_ctr ::
  "(bytes \<Rightarrow> GradidoTransaction) \<Rightarrow> (bytes \<Rightarrow> pb_TransactionBody) \<Rightarrow> ConsensusTopicResponse
     \<Rightarrow> GradidoRecord Batch res" where
  "translate_gradido_from_ctr parse_gt parse_tb t =
     (let gt = parse_gt (pb_message t);
          tb = parse_tb (pb_body_bytes gt);
          ps = pb_sig_pair gt;
          count = of_nat (length ps) :: u8;
          n = unat count
      in if n < MINIMUM_SIGNATURE_COUNT \<or> MAXIMUM_SIGNATURE_COUNT < n then Inr reset_batch
         else bind_res (translate_Signature_from_pb (ps ! 0)) (\<lambda>sig.
           bind_res (translate_HederaTransaction_from_pb t) (\<lambda>h.
             if pb_data tb = pb_debug_reset_blockchain_mark then Inr reset_batch
             else bind_res (translate_data (pb_data tb)) (\<lambda>bd.
               bind_res (sig_records ps n (sig_part_count n) SIGNATURES_IN_MAIN_PART) (\<lambda>srs.
                 let mrs = memo_records (pb_memo tb);
                     tr = Transaction_zero
                       \<lparr>version_number := ucast (pb_version_number tb),
                        parts := of_nat (1 + (if multipart_memo (pb_memo tb) then 1 else 0) + sig_part_count n),
                        hedera_transaction := h, tr_signature := sig, signature_count := count, body := bd,
                        result := result_code UNKNOWN, memo := main_memo (pb_memo tb)\<rparr>
                 in Inr \<lparr>buff = Some (GRADIDO_TRANSACTION tr # mrs @ srs), reset_blockchain = False\<rparr>)))))"

text \<open>\<open>PushTransactionsTask::run\<close>: the translated batch is handed to the blockchain.\<close>

definition PushTransactionsTask_run ::
  "(ConsensusTopicResponse \<Rightarrow> 'p Batch res) \<Rightarrow> ('p, 'c) child \<Rightarrow> nat \<Rightarrow> ConsensusTopicResponse \<Rightarrow> ('p, 'c) chain
     \<Rightarrow> ('p, 'c) chain res" where
  "PushTransactionsTask_run translate ch now t b =
     bind_res (translate t) (\<lambda>batch. add_transaction ch now batch b)"


section \<open>Reading a batch back\<close>

text \<open>
  The memo and the signatures a batch holds, as the comments of the data structures describe them: a memo
  whose main part does not end with a null character goes on in the next record, and the main record
  tells how many signatures follow.
\<close>

definition batch_memo :: "GradidoRecord list \<Rightarrow> bytes" where
  "batch_memo rs =
     (case rs of
        GRADIDO_TRANSACTION tr # MEMO m # _ \<Rightarrow>
          (if last (memo tr) \<noteq> 0 then memo tr @ takeWhile (\<lambda>x. x \<noteq> 0) m else takeWhile (\<lambda>x. x \<noteq> 0) (memo tr))
      | GRADIDO_TRANSACTION tr # _ \<Rightarrow> takeWhile (\<lambda>x. x \<noteq> 0) (memo tr)
      | _ \<Rightarrow> [])"

fun record_signatures :: "GradidoRecord \<Rightarrow> Signature list" where
  "record_signatures (SIGNATURES ss) = ss"
| "record_signatures _ = []"

definition batch_signatures :: "GradidoRecord list \<Rightarrow> Signature list" where
  "batch_signatures rs =
     (case rs of
        GRADIDO_TRANSACTION tr # rest \<Rightarrow>
          take (unat (signature_count tr)) (tr_signature tr # concat (map record_signatures rest))
      | _ \<Rightarrow> [])"

section \<open>Lemmas\<close>

text \<open>The parts of messages survive the translation to the message class and back.\<close>

lemma parts_round_trip [simp]:
  "translate_Timestamp_from_pb (translate_Timestamp_to_pb ts) = ts"
  "translate_AccountID_from_pb (translate_AccountID_to_pb a) = a"
  "translate_TopicID_from_pb (translate_TopicID_to_pb p) = p"
  "translate_TransactionID_from_pb (translate_TransactionID_to_pb i) = i"
  by (simp_all add: translate_Timestamp_from_pb_def translate_Timestamp_to_pb_def translate_AccountID_from_pb_def
      translate_AccountID_to_pb_def translate_TopicID_from_pb_def translate_TopicID_to_pb_def
      translate_TransactionID_from_pb_def translate_TransactionID_to_pb_def)

lemma copy_exact_fits: "length s = n \<Longrightarrow> copy_exact n s = Inr s"
  by (simp add: copy_exact_def)

lemma HederaTransaction_round_trip:
  "length (runningHash h) = HEDERA_RUNNING_HASH_LENGTH \<Longrightarrow>
   translate_HederaTransaction_from_pb (translate_HederaTransaction_to_pb h) = Inr h"
  by (simp add: translate_HederaTransaction_from_pb_def translate_HederaTransaction_to_pb_def copy_exact_fits)

definition signature_fits :: "SignaturePair \<Rightarrow> bool" where
  "signature_fits p \<longleftrightarrow> length (pb_pub_key p) = PUB_KEY_LENGTH \<and> length (pb_ed25519 p) = SIGNATURE_LENGTH"

definition signature_of :: "SignaturePair \<Rightarrow> Signature" where
  "signature_of p = \<lparr>sig_pubkey = pb_pub_key p, sig_signature = pb_ed25519 p\<rparr>"

lemma translate_Signature_fits:
  "signature_fits p \<Longrightarrow> translate_Signature_from_pb p = Inr (signature_of p)"
  by (simp add: signature_fits_def translate_Signature_from_pb_def copy_exact_fits signature_of_def)

text \<open>The records with further signatures.\<close>

lemma sig_part_eq:
  assumes "list_all signature_fits ps" "n = length ps" "cs < n"
  shows "sig_part ps n k cs = Inr (map signature_of (take k (drop cs ps)), cs + min k (n - cs))"
  using assms(3)
proof (induction k arbitrary: cs)
  case (Suc k)
  have first: "translate_Signature_from_pb (ps ! cs) = Inr (signature_of (ps ! cs))"
    using assms(1,2) Suc.prems by (intro translate_Signature_fits) (simp add: list_all_length)
  have split: "drop cs ps = ps ! cs # drop (cs + 1) ps"
    using assms(2) Suc.prems by (simp add: Cons_nth_drop_Suc)
  show ?case
    using first assms(2) Suc by (auto simp: split)
qed simp

lemma sig_records_eq:
  assumes "list_all signature_fits ps" "n = length ps" "cs < n" "n - cs \<le> 3 * i" "3 * i < n - cs + 3"
  shows "\<exists>rs k. sig_records ps n i cs = Inr rs \<and> length rs = i \<and> list_all (\<lambda>r. \<exists>ss. r = SIGNATURES ss) rs \<and>
    concat (map record_signatures rs) = map signature_of (drop cs ps) @ replicate k Signature_zero"
  using assms(3-5)
proof (induction i arbitrary: cs)
  case (Suc i)
  have part: "sig_part ps n 3 cs = Inr (map signature_of (take 3 (drop cs ps)), cs + min 3 (n - cs))"
    using assms(1,2) Suc.prems(1) by (rule sig_part_eq)
  show ?case
  proof (cases "n - cs \<le> 3")
    case True
    then have "i = 0"
      using Suc.prems by simp
    then show ?thesis
      using True assms(2) part by (auto simp: sizes)
  next
    case False
    have "cs + 3 < n" "n - (cs + 3) \<le> 3 * i" "3 * i < n - (cs + 3) + 3"
      using False Suc.prems unfolding mult_Suc_right by linarith+
    then obtain rs k where "sig_records ps n i (cs + 3) = Inr rs" "length rs = i"
        "list_all (\<lambda>r. \<exists>ss. r = SIGNATURES ss) rs"
        "concat (map record_signatures rs) = map signature_of (drop (cs + 3) ps) @ replicate k Signature_zero"
      using Suc.IH [of "cs + 3"] by blast
    moreover have "map signature_of (take 3 (drop cs ps)) @ map signature_of (drop (cs + 3) ps) @ zs
        = map signature_of (drop cs ps) @ zs" for zs
      by (metis append_assoc append_take_drop_id drop_drop add.commute map_append)
    ultimately show ?thesis
      using False assms(2) part by (auto simp: sizes) (metis append_assoc)
  qed
qed simp

text \<open>The memo.\<close>

lemma memo_read_back:
  assumes "0 \<notin> set m" "length m \<le> MEMO_MAIN_SIZE + (MEMO_PART_SIZE - 1)" "memo tr = main_memo m"
    and "list_all (\<lambda>r. \<exists>ss. r = SIGNATURES ss) srs"
  shows "batch_memo (GRADIDO_TRANSACTION tr # memo_records m @ srs) = m"
proof (cases "multipart_memo m")
  case True
  then have long: "16 \<le> length m" "take 16 m \<noteq> []"
    by (auto simp: multipart_memo_def MEMO_MAIN_SIZE_def)
  then have "last (take 16 m) \<in> set m"
    by (meson last_in_set in_set_takeD)
  then have "last (take 16 m) \<noteq> 0"
    using assms(1) by auto
  moreover have "0 \<notin> set (drop 16 m)"
    using assms(1) by (meson in_set_dropD)
  ultimately show ?thesis
    using True assms(2,3)
    by (simp add: batch_memo_def memo_records_def main_memo_def MEMO_MAIN_SIZE_def sizes takeWhile_padded)
next
  case False
  then have "batch_memo (GRADIDO_TRANSACTION tr # srs) = takeWhile (\<lambda>x. x \<noteq> 0) (memo tr)"
    using assms(4) by (cases srs) (auto simp: batch_memo_def)
  then show ?thesis
    using False assms(1,3) by (simp add: memo_records_def main_memo_def takeWhile_padded)
qed

text \<open>The signatures.\<close>

lemma sig_part_count_small: "sig_part_count n \<le> 3" if "n \<le> 10"
proof -
  have "(n - 2) div 3 \<le> 2"
    using that by linarith
  then show ?thesis
    by (simp add: sig_part_count_def sizes SIGNATURES_IN_MAIN_PART_def numeral_2_eq_2)
qed

lemma all_sig_records:
  assumes "list_all signature_fits ps" "ps \<noteq> []"
  obtains rs k where "sig_records ps (length ps) (sig_part_count (length ps)) SIGNATURES_IN_MAIN_PART = Inr rs"
    "length rs = sig_part_count (length ps)" "list_all (\<lambda>r. \<exists>ss. r = SIGNATURES ss) rs"
    "concat (map record_signatures rs) = map signature_of (drop 1 ps) @ replicate k Signature_zero"
proof (cases "length ps \<le> 1")
  case True
  then show thesis
    using that [of "[]" 0] by (simp add: sig_part_count_def SIGNATURES_IN_MAIN_PART_def)
next
  case False
  then have "sig_part_count (length ps) = (length ps - 2) div 3 + 1"
    by (simp add: sig_part_count_def sizes SIGNATURES_IN_MAIN_PART_def numeral_2_eq_2)
  then have "length ps - 1 \<le> 3 * sig_part_count (length ps)" "3 * sig_part_count (length ps) < length ps - 1 + 3"
    using False by linarith+
  then show thesis
    using sig_records_eq [OF assms(1) refl, of 1] False that by (auto simp: SIGNATURES_IN_MAIN_PART_def)
qed

lemma record_signatures_memo: "concat (map record_signatures (memo_records m)) = []"
  by (simp add: memo_records_def Let_def)

lemma signatures_read_back:
  assumes "unat (signature_count tr) = length ps" "ps \<noteq> []" "tr_signature tr = signature_of (ps ! 0)"
    and "concat (map record_signatures srs) = map signature_of (drop 1 ps) @ replicate k Signature_zero"
  shows "batch_signatures (GRADIDO_TRANSACTION tr # memo_records m @ srs) = map signature_of ps"
proof -
  obtain p qs where "ps = p # qs"
    using assms(2) by (cases ps) auto
  then show ?thesis
    using assms(1,3,4) by (simp add: batch_signatures_def record_signatures_memo)
qed

text \<open>
  C33. A message with one to ten signatures and a memo that fits is translated into a batch from which the
  memo and all signatures can be read back in order; the main record tells the number of records, which
  is within the limit, and holds the translated data.
\<close>

theorem translation_keeps_memo_and_signatures:
  assumes "parse_gt (pb_message t) = gt" "parse_tb (pb_body_bytes gt) = tb"
    and "pb_sig_pair gt \<noteq> []" "length (pb_sig_pair gt) \<le> MAXIMUM_SIGNATURE_COUNT"
    and "list_all signature_fits (pb_sig_pair gt)" "length (pb_runninghash t) = HEDERA_RUNNING_HASH_LENGTH"
    and "pb_data tb \<noteq> pb_debug_reset_blockchain_mark" "translate_data (pb_data tb) = Inr bd"
    and "0 \<notin> set (pb_memo tb)" "length (pb_memo tb) \<le> MEMO_MAIN_SIZE + (MEMO_PART_SIZE - 1)"
  shows "\<exists>tr rest. translate_gradido_from_ctr parse_gt parse_tb t
        = Inr \<lparr>buff = Some (GRADIDO_TRANSACTION tr # rest), reset_blockchain = False\<rparr> \<and>
    unat (parts tr) = 1 + length rest \<and> 1 + length rest \<le> MAX_RECORD_PARTS \<and> body tr = bd \<and>
    batch_memo (GRADIDO_TRANSACTION tr # rest) = pb_memo tb \<and>
    batch_signatures (GRADIDO_TRANSACTION tr # rest) = map signature_of (pb_sig_pair gt)"
proof -
  define ps where "ps = pb_sig_pair gt"
  define m where "m = pb_memo tb"
  have small: "length ps \<le> 10" "ps \<noteq> []"
    using assms(3,4) by (simp_all add: ps_def sizes)
  have count: "unat (of_nat (length ps) :: u8) = length ps"
    using small by (simp add: unat_of_nat)
  obtain srs k where srs: "sig_records ps (length ps) (sig_part_count (length ps)) SIGNATURES_IN_MAIN_PART = Inr srs"
    "length srs = sig_part_count (length ps)" "list_all (\<lambda>r. \<exists>ss. r = SIGNATURES ss) srs"
    "concat (map record_signatures srs) = map signature_of (drop 1 ps) @ replicate k Signature_zero"
    by (rule all_sig_records [of ps]) (use assms(5) small in \<open>simp_all add: ps_def\<close>)
  obtain h where h: "translate_HederaTransaction_from_pb t = Inr h"
    using assms(6) by (simp add: translate_HederaTransaction_from_pb_def copy_exact_fits)
  have sig: "translate_Signature_from_pb (ps ! 0) = Inr (signature_of (ps ! 0))"
    using assms(5) small by (intro translate_Signature_fits) (simp add: ps_def list_all_length)
  define np where "np = 1 + (if multipart_memo m then 1 else 0) + sig_part_count (length ps)"
  define tr where "tr = Transaction_zero
     \<lparr>version_number := ucast (pb_version_number tb), parts := of_nat np,
      hedera_transaction := h, tr_signature := signature_of (ps ! 0), signature_count := of_nat (length ps),
      body := bd, result := result_code UNKNOWN, memo := main_memo m\<rparr>"
  have run: "translate_gradido_from_ctr parse_gt parse_tb t
      = Inr \<lparr>buff = Some (GRADIDO_TRANSACTION tr # memo_records m @ srs), reset_blockchain = False\<rparr>"
    using small count srs(1) h sig assms(7,8)
    by (simp add: translate_gradido_from_ctr_def assms(1,2) Let_def tr_def np_def MINIMUM_SIGNATURE_COUNT_def sizes
        flip: ps_def m_def)
  have len: "1 + length (memo_records m @ srs) = np"
    by (simp add: np_def srs(2) memo_records_def Let_def)
  then have "1 + length (memo_records m @ srs) \<le> MAX_RECORD_PARTS"
    using sig_part_count_small [OF small(1)] by (simp add: np_def MAX_RECORD_PARTS_def)
  moreover from this have "unat (parts tr) = 1 + length (memo_records m @ srs)"
    unfolding len by (simp add: tr_def unat_of_nat MAX_RECORD_PARTS_def)
  moreover have "batch_memo (GRADIDO_TRANSACTION tr # memo_records m @ srs) = m"
    using assms(9,10) srs(3) by (intro memo_read_back) (simp_all add: m_def tr_def)
  moreover have "batch_signatures (GRADIDO_TRANSACTION tr # memo_records m @ srs) = map signature_of ps"
    using count small(2) srs(4) by (intro signatures_read_back) (simp_all add: tr_def)
  moreover have "body tr = bd"
    by (simp add: tr_def)
  ultimately show ?thesis
    using run by (intro exI [of _ tr] exI [of _ "memo_records m @ srs"]) (simp add: ps_def m_def)
qed

text \<open>A message with two signatures and a memo of twenty characters.\<close>

definition sample_pair :: "u8 \<Rightarrow> SignaturePair" where
  "sample_pair k = \<lparr>pb_pub_key = replicate PUB_KEY_LENGTH k, pb_ed25519 = replicate SIGNATURE_LENGTH k\<rparr>"

definition sample_body :: pb_TransactionBody where
  "sample_body = \<lparr>pb_memo = replicate 20 97, pb_version_number = 1,
     pb_data = pb_creation \<lparr>pb_pubkey = replicate PUB_KEY_LENGTH 5, pb_amount = Some 3\<rparr>\<rparr>"

definition sample_message :: ConsensusTopicResponse where
  "sample_message = \<lparr>pb_consensustimestamp = \<lparr>pb_seconds = 1, pb_nanos = 0\<rparr>, pb_message = [],
     pb_runninghash = replicate HEDERA_RUNNING_HASH_LENGTH 0, pb_sequencenumber = 1, pb_runninghashversion = 3\<rparr>"

theorem translation_keeps_memo_and_signatures_witness:
  "\<exists>tr rest. translate_gradido_from_ctr
        (\<lambda>_. \<lparr>pb_sig_pair = [sample_pair 1, sample_pair 2], pb_body_bytes = []\<rparr>) (\<lambda>_. sample_body) sample_message
        = Inr \<lparr>buff = Some (GRADIDO_TRANSACTION tr # rest), reset_blockchain = False\<rparr> \<and>
    batch_memo (GRADIDO_TRANSACTION tr # rest) = replicate 20 97 \<and>
    batch_signatures (GRADIDO_TRANSACTION tr # rest) = [signature_of (sample_pair 1), signature_of (sample_pair 2)]"
proof -
  obtain bd where bd: "translate_data (pb_data sample_body) = Inr bd"
    by (simp add: sample_body_def translate_data_def translate_creation_def gradidos_def u64_of_double_def copy_exact_def)
  have ps: "list_all signature_fits [sample_pair 1, sample_pair 2]"
    by (simp add: signature_fits_def sample_pair_def)
  have "pb_data sample_body \<noteq> pb_debug_reset_blockchain_mark" "0 \<notin> set (pb_memo sample_body)"
    "length (pb_memo sample_body) \<le> MEMO_MAIN_SIZE + (MEMO_PART_SIZE - 1)"
    "length (pb_runninghash sample_message) = HEDERA_RUNNING_HASH_LENGTH"
    by (simp_all add: sample_body_def sample_message_def sizes MEMO_MAIN_SIZE_def)
  then obtain tr rest where "translate_gradido_from_ctr
        (\<lambda>_. \<lparr>pb_sig_pair = [sample_pair 1, sample_pair 2], pb_body_bytes = []\<rparr>) (\<lambda>_. sample_body) sample_message
        = Inr \<lparr>buff = Some (GRADIDO_TRANSACTION tr # rest), reset_blockchain = False\<rparr>"
      "batch_memo (GRADIDO_TRANSACTION tr # rest) = pb_memo sample_body"
      "batch_signatures (GRADIDO_TRANSACTION tr # rest) = map signature_of [sample_pair 1, sample_pair 2]"
    using translation_keeps_memo_and_signatures
      [of "\<lambda>_. \<lparr>pb_sig_pair = [sample_pair 1, sample_pair 2], pb_body_bytes = []\<rparr>" sample_message
        "\<lparr>pb_sig_pair = [sample_pair 1, sample_pair 2], pb_body_bytes = []\<rparr>" "\<lambda>_. sample_body" sample_body bd] bd ps
    by (auto simp: sizes)
  then show ?thesis
    by (auto simp: sample_body_def)
qed

text \<open>
  The byte that counts the signatures wraps around: a message with 257 of them is taken for one with a
  single signature, and one without signatures resets the blockchain.
\<close>

lemma signature_count_wraps:
  assumes "length (pb_sig_pair (parse_gt (pb_message t))) = 257"
    and "signature_fits (pb_sig_pair (parse_gt (pb_message t)) ! 0)"
    and "length (pb_runninghash t) = HEDERA_RUNNING_HASH_LENGTH"
    and "pb_data (parse_tb (pb_body_bytes (parse_gt (pb_message t)))) = pb_creation r" "translate_creation r = Inr bd"
  shows "\<exists>tr rest. translate_gradido_from_ctr parse_gt parse_tb t
      = Inr \<lparr>buff = Some (GRADIDO_TRANSACTION tr # rest), reset_blockchain = False\<rparr> \<and> signature_count tr = 1"
  using assms
  by (simp add: translate_gradido_from_ctr_def Let_def MINIMUM_SIGNATURE_COUNT_def sizes translate_Signature_fits
      translate_HederaTransaction_from_pb_def copy_exact_fits translate_data_def sig_part_count_def
      SIGNATURES_IN_MAIN_PART_def)

lemma no_signature_resets:
  "pb_sig_pair (parse_gt (pb_message t)) = [] \<Longrightarrow> translate_gradido_from_ctr parse_gt parse_tb t = Inr reset_batch"
  by (simp add: translate_gradido_from_ctr_def Let_def MINIMUM_SIGNATURE_COUNT_def)

end
