(* ===== verification/Decay.thy ===== *)
theory Decay
  imports Gradido_Def Complex_Main
begin

text \<open>
  \<open>src/gradidomath/gradidomath.c\<close> and \<open>BlockchainGradido::calc_deflation\<close>: the decay of a balance
  over time. MPFR is used through its documented contract: every function returns the exact result
  rounded, in the given direction, to a number of the default precision. The rounding is therefore
  the parameter \<open>rnd\<close>; the number type is any field with a floor function, so the functions can be
  evaluated on rationals, while logarithm and exponential of the decay factor are real.
\<close>

section \<open>The arithmetic library\<close>

datatype mpfr_rnd = MPFR_RNDN | MPFR_RNDZ

type_synonym 'a rounding = "mpfr_rnd \<Rightarrow> 'a \<Rightarrow> 'a"

text \<open>
  What the code relies on: rounding is monotone, results are representable, and so are the integers
  whose significant part fits into 53 bits (the default precision).
\<close>

definition mpfr_rounding :: "'a::floor_ceiling rounding \<Rightarrow> bool" where
  "mpfr_rounding rnd \<longleftrightarrow>
     (\<forall>m x y. x \<le> y \<longrightarrow> rnd m x \<le> rnd m y) \<and>
     (\<forall>m k e. \<bar>k\<bar> \<le> 2 ^ 53 \<longrightarrow> rnd m (of_int (k * 2 ^ e)) = of_int (k * 2 ^ e)) \<and>
     (\<forall>m m' x. rnd m (rnd m' x) = rnd m' x)"

text \<open>Conversions to machine integers: towards zero, to the nearest (ties to even), low bits.\<close>

definition trunc_int :: "'a::floor_ceiling \<Rightarrow> int" where
  "trunc_int x = (if 0 \<le> x then \<lfloor>x\<rfloor> else \<lceil>x\<rceil>)"

definition round_even :: "'a::floor_ceiling \<Rightarrow> int" where
  "round_even x =
     (let f = \<lfloor>x\<rfloor>; r = x - of_int f
      in if 2 * r < 1 then f else if 1 < 2 * r then f + 1 else if even f then f else f + 1)"

definition mpfr_get_si :: "'a::floor_ceiling \<Rightarrow> int" where
  "mpfr_get_si x = max (- (2 ^ 63)) (min (2 ^ 63 - 1) (round_even x))"

definition mpz_get_si :: "int \<Rightarrow> int" where
  "mpz_get_si z = (if - (2 ^ 63) \<le> z \<and> z < 2 ^ 63 then z else sgn z * (\<bar>z\<bar> mod 2 ^ 63))"


section \<open>Decay\<close>

definition GRADIDO_DECIMAL_CONVERSION_FACTOR :: int where
  "GRADIDO_DECIMAL_CONVERSION_FACTOR = 1000000"

record GradidoWithDecimal =
  gradido :: int
  decimal :: int

definition calculateDecayFactor :: "real rounding \<Rightarrow> int \<Rightarrow> real" where
  "calculateDecayFactor rnd days_per_year =
     (let temp = rnd MPFR_RNDN (ln 50);
          decay_factor = rnd MPFR_RNDN (ln 100);
          temp = rnd MPFR_RNDN (temp - decay_factor);
          decay_factor = rnd MPFR_RNDN (of_int (days_per_year * 60 * 60 * 24));
          decay_factor = rnd MPFR_RNDN (temp / decay_factor)
      in rnd MPFR_RNDZ (exp decay_factor))"

definition calculateDecayFactorForDuration :: "'a::floor_ceiling rounding \<Rightarrow> 'a \<Rightarrow> nat \<Rightarrow> 'a" where
  "calculateDecayFactorForDuration rnd decay_factor secs = rnd MPFR_RNDN (decay_factor ^ secs)"

text \<open>Returns the new decimal part and the new integer part.\<close>

definition calculateDecayFast ::
  "'a::floor_ceiling rounding \<Rightarrow> 'a \<Rightarrow> 'a \<Rightarrow> int \<Rightarrow> 'a \<times> int" where
  "calculateDecayFast rnd decay_for_duration gradido_decimal gradido_cent =
     (let temp = rnd MPFR_RNDN (gradido_decimal + of_int gradido_cent);
          temp = rnd MPFR_RNDN (temp * decay_for_duration);
          gradido_cent = trunc_int temp;
          gradido_decimal = rnd MPFR_RNDN (temp - of_int gradido_cent)
      in (gradido_decimal, gradido_cent))"

definition calculateDecayForDuration ::
  "'a::floor_ceiling rounding \<Rightarrow> 'a \<Rightarrow> GradidoWithDecimal \<Rightarrow> GradidoWithDecimal" where
  "calculateDecayForDuration rnd decay_for_duration input =
     (let gradido_decimal = rnd MPFR_RNDN (of_int (decimal input));
          gradido_decimal =
            rnd MPFR_RNDN (gradido_decimal / of_int GRADIDO_DECIMAL_CONVERSION_FACTOR);
          (gradido_decimal, gdd_cent) =
            calculateDecayFast rnd decay_for_duration gradido_decimal (gradido input);
          gradido_decimal =
            rnd MPFR_RNDN (gradido_decimal * of_int GRADIDO_DECIMAL_CONVERSION_FACTOR)
      in \<lparr>gradido = mpz_get_si gdd_cent, decimal = mpfr_get_si gradido_decimal\<rparr>)"

definition calculateDecay ::
  "'a::floor_ceiling rounding \<Rightarrow> GradidoWithDecimal \<Rightarrow> nat \<Rightarrow> 'a \<Rightarrow> GradidoWithDecimal" where
  "calculateDecay rnd input secs decay_factor =
     calculateDecayForDuration rnd (calculateDecayFactorForDuration rnd decay_factor secs) input"

text \<open>
  \<open>calc_deflation\<close>: the amount is converted to a signed number and back, the duration to an unsigned
  one. The environment is the rounding and the decay factor the constructor calculated.
\<close>

type_synonym 'a decay_env = "'a rounding \<times> 'a"

definition calc_deflation ::
  "'a::floor_ceiling decay_env \<Rightarrow> HederaTimestamp \<Rightarrow> HederaTimestamp \<Rightarrow> GradidoValue \<Rightarrow> GradidoValue" where
  "calc_deflation env t0 t1 val0 =
     (if amount val0 = 0 \<and> decimal_amount val0 = 0 then gv_zero
      else let d = ts_minus t1 t0;
               gradidos = \<lparr>gradido = sint (amount val0), decimal = uint (decimal_amount val0)\<rparr>;
               gradidos = calculateDecay (fst env) gradidos (unat (seconds d)) (snd env)
           in GradidoValue (word_of_int (gradido gradidos)) (word_of_int (decimal gradidos)))"


section \<open>Bounds\<close>

lemma round_even_bounds:
  assumes "of_int a \<le> x" "x \<le> of_int b"
  shows "a \<le> round_even x" "round_even x \<le> b"
proof -
  have "a \<le> \<lfloor>x\<rfloor>"
    using assms(1) by (simp add: le_floor_iff)
  then show "a \<le> round_even x"
    by (auto simp: round_even_def Let_def)
  show "round_even x \<le> b"
  proof (cases "x = of_int \<lfloor>x\<rfloor>")
    case True
    then have "round_even x = \<lfloor>x\<rfloor>"
      by (simp add: round_even_def Let_def)
    then show ?thesis
      using assms(2) by (simp add: floor_le_iff le_less_trans)
  next
    case False
    then have "of_int \<lfloor>x\<rfloor> < x"
      using of_int_floor_le [of x] by linarith
    then have "\<lfloor>x\<rfloor> < b"
      using assms(2) by (metis le_less_trans not_le of_int_less_iff)
    then show ?thesis
      by (auto simp: round_even_def Let_def)
  qed
qed

lemma mpfr_rounding_mono: "mpfr_rounding rnd \<Longrightarrow> x \<le> y \<Longrightarrow> rnd m x \<le> rnd m y"
  by (simp add: mpfr_rounding_def)

lemma mpfr_rounding_int: "mpfr_rounding rnd \<Longrightarrow> \<bar>k\<bar> \<le> 2 ^ 53 \<Longrightarrow> rnd m (of_int k) = of_int k"
  unfolding mpfr_rounding_def by (metis mult.right_neutral power_0)

lemma mpfr_rounding_simps:
  assumes "mpfr_rounding rnd"
  shows "rnd m 0 = 0" "rnd m 1 = 1" "rnd m 1000000 = 1000000" "rnd m (rnd m' x) = rnd m' x"
    "rnd m (2 ^ n) = 2 ^ n"
proof -
  show "rnd m 0 = 0" "rnd m 1 = 1" "rnd m 1000000 = 1000000"
    using mpfr_rounding_int [OF assms, of 0 m] mpfr_rounding_int [OF assms, of 1 m]
      mpfr_rounding_int [OF assms, of 1000000 m] by simp_all
  show "rnd m (rnd m' x) = rnd m' x"
    using assms by (simp add: mpfr_rounding_def)
  have "\<bar>1 :: int\<bar> \<le> 2 ^ 53"
    by simp
  then have "rnd m (of_int (1 * 2 ^ n)) = of_int (1 * 2 ^ n)"
    using assms unfolding mpfr_rounding_def by blast
  then show "rnd m (2 ^ n) = 2 ^ n"
    by simp
qed

text \<open>Rounding keeps a number between two representable bounds.\<close>

lemma mpfr_rounding_between:
  assumes "mpfr_rounding rnd" "a \<le> x" "x \<le> b" "rnd m a = a" "rnd m b = b"
  shows "a \<le> rnd m x" "rnd m x \<le> b"
  using assms mpfr_rounding_mono by metis+

lemma calculateDecayFast_bounds:
  assumes r: "mpfr_rounding rnd" and f: "0 \<le> f" "f \<le> 1" and d: "0 \<le> d" "d \<le> 1"
    and g: "0 \<le> g" "g < 2 ^ 63" and D: "calculateDecayFast rnd f d g = (d', g')"
  shows "0 \<le> d'" "d' \<le> 1" "0 \<le> g'" "g' \<le> 2 ^ 63" "g < 2 ^ 53 \<Longrightarrow> g' \<le> g + 1"
    "g < 2 ^ 53 \<Longrightarrow> g' = g + 1 \<Longrightarrow> d' = 0"
proof -
  define t1 where "t1 = rnd MPFR_RNDN (d + of_int g)"
  define t2 where "t2 = rnd MPFR_RNDN (t1 * f)"
  have g': "g' = trunc_int t2" and d': "d' = rnd MPFR_RNDN (t2 - of_int g')"
    using D by (auto simp: calculateDecayFast_def t1_def t2_def Let_def)
  have "of_int (g + 1) \<le> (of_int (2 ^ 63) :: 'a)"
    using g(2) by (subst of_int_le_iff) linarith
  then have "of_int g + 1 \<le> (2 ^ 63 :: 'a)"
    unfolding of_int_add of_int_1 of_int_power of_int_numeral .
  then have up: "d + of_int g \<le> 2 ^ 63"
    using d by linarith
  have low: "0 \<le> d + of_int g"
    using d g by simp
  have t1: "0 \<le> t1" "t1 \<le> 2 ^ 63"
    unfolding t1_def
    by (fact mpfr_rounding_between [OF r low up mpfr_rounding_simps(1) [OF r] mpfr_rounding_simps(5) [OF r]])+
  have le1: "0 \<le> t1 * f" "t1 * f \<le> t1"
    using t1(1) f by (simp_all add: mult_left_le)
  have fix1: "rnd m t1 = t1" for m
    by (simp add: t1_def mpfr_rounding_simps [OF r])
  have t2: "0 \<le> t2" "t2 \<le> t1"
    unfolding t2_def by (fact mpfr_rounding_between [OF r le1 mpfr_rounding_simps(1) [OF r] fix1])+
  have fl: "g' = \<lfloor>t2\<rfloor>"
    using g' t2 by (simp add: trunc_int_def)
  show "0 \<le> g'" "g' \<le> 2 ^ 63"
    using t1 t2 unfolding fl by (simp_all add: floor_le_iff le_less_trans)
  have frac: "0 \<le> t2 - of_int g'" "t2 - of_int g' \<le> 1"
    using fl floor_correct [of t2] by simp_all
  show "0 \<le> d'" "d' \<le> 1"
    unfolding d'
    by (fact mpfr_rounding_between [OF r frac mpfr_rounding_simps(1) [OF r] mpfr_rounding_simps(2) [OF r]])+
  have t1_up: "t1 \<le> of_int (g + 1)" if "g < 2 ^ 53"
  proof -
    have "\<bar>g + 1\<bar> \<le> 2 ^ 53" "d + of_int g \<le> of_int (g + 1)"
      using that g d by simp_all
    then show ?thesis
      unfolding t1_def
      using mpfr_rounding_between(2) [OF r low _ mpfr_rounding_simps(1) [OF r] mpfr_rounding_int [OF r]]
      by blast
  qed
  show "g' \<le> g + 1" if "g < 2 ^ 53"
  proof -
    have "t1 \<le> of_int (g + 1)"
      using that by (rule t1_up)
    then have "t2 < of_int (g + 1) + 1"
      using t2(2) by linarith
    then show ?thesis
      unfolding fl by (simp add: floor_le_iff)
  qed
  show "d' = 0" if "g < 2 ^ 53" "g' = g + 1"
  proof -
    have "t1 \<le> of_int (g + 1)"
      using that(1) by (rule t1_up)
    then have "t2 - of_int g' = 0"
      using t2(2) frac(1) that(2) by simp
    then show ?thesis
      unfolding d' by (simp add: mpfr_rounding_simps [OF r])
  qed
qed

lemma calculateDecayForDuration_bounds:
  assumes r: "mpfr_rounding rnd" and f: "0 \<le> f" "f \<le> 1"
    and g: "0 \<le> gradido v" "gradido v < 2 ^ 63" and d: "0 \<le> decimal v" "decimal v \<le> 1000000"
    and D: "calculateDecayForDuration rnd f v = w"
  shows "0 \<le> decimal w" "decimal w \<le> 1000000" "0 \<le> gradido w"
    "gradido v < 2 ^ 53 \<Longrightarrow> gradido w * 1000000 + decimal w \<le> (gradido v + 1) * 1000000"
proof -
  define d0 where "d0 = rnd MPFR_RNDN (rnd MPFR_RNDN (of_int (decimal v)) / 1000000)"
  obtain d1 c where fast: "calculateDecayFast rnd f d0 (gradido v) = (d1, c)"
    by fastforce
  define d2 where "d2 = rnd MPFR_RNDN (d1 * 1000000)"
  have w: "w = \<lparr>gradido = mpz_get_si c, decimal = mpfr_get_si d2\<rparr>"
    using D fast by (simp add: calculateDecayForDuration_def GRADIDO_DECIMAL_CONVERSION_FACTOR_def
        d0_def d2_def)
  have "rnd MPFR_RNDN (of_int (decimal v)) = of_int (decimal v)"
    using d by (intro mpfr_rounding_int [OF r]) simp
  then have q: "0 \<le> rnd MPFR_RNDN (of_int (decimal v)) / 1000000"
      "rnd MPFR_RNDN (of_int (decimal v)) / 1000000 \<le> 1"
    using d by simp_all
  have d0: "0 \<le> d0" "d0 \<le> 1"
    unfolding d0_def
    by (fact mpfr_rounding_between [OF r q mpfr_rounding_simps(1) [OF r] mpfr_rounding_simps(2) [OF r]])+
  note F = calculateDecayFast_bounds [OF r f d0 g fast]
  have m: "0 \<le> d1 * 1000000" "d1 * 1000000 \<le> 1000000"
    using F(1,2) by simp_all
  have d2: "0 \<le> d2" "d2 \<le> 1000000"
    unfolding d2_def
    by (fact mpfr_rounding_between [OF r m mpfr_rounding_simps(1) [OF r] mpfr_rounding_simps(3) [OF r]])+
  have re: "0 \<le> round_even d2" "round_even d2 \<le> 1000000"
    using d2 round_even_bounds [of 0 d2 1000000] by simp_all
  then have dec: "decimal w = round_even d2"
    by (simp add: w mpfr_get_si_def)
  show "0 \<le> decimal w" "decimal w \<le> 1000000"
    using re dec by simp_all
  show "0 \<le> gradido w"
    using F(3,4) by (simp add: w mpz_get_si_def)
  show "gradido w * 1000000 + decimal w \<le> (gradido v + 1) * 1000000" if small: "gradido v < 2 ^ 53"
  proof -
    have c: "gradido w = c" "c \<le> gradido v + 1"
      using F(3) F(5) [OF small] small by (simp_all add: w mpz_get_si_def)
    show ?thesis
    proof (cases "c = gradido v + 1")
      case True
      then have "d2 = 0"
        using F(6) [OF small] by (simp add: d2_def mpfr_rounding_simps [OF r])
      then have "decimal w = 0"
        by (simp add: dec round_even_def)
      with c True show ?thesis
        by simp
    next
      case False
      with c re dec show ?thesis
        by simp
    qed
  qed
qed

lemma calculateDecayFactorForDuration_bounds:
  assumes r: "mpfr_rounding rnd" and f: "0 \<le> f" "f \<le> 1"
  shows "0 \<le> calculateDecayFactorForDuration rnd f n" "calculateDecayFactorForDuration rnd f n \<le> 1"
proof -
  have p: "0 \<le> f ^ n" "f ^ n \<le> 1"
    using f by (simp_all add: power_le_one)
  show "0 \<le> calculateDecayFactorForDuration rnd f n" "calculateDecayFactorForDuration rnd f n \<le> 1"
    unfolding calculateDecayFactorForDuration_def
    by (fact mpfr_rounding_between [OF r p mpfr_rounding_simps(1) [OF r] mpfr_rounding_simps(2) [OF r]])+
qed

text \<open>A decayed balance is weakly valid, and exceeds the balance by less than one gradido.\<close>

definition decay_env_ok :: "'a::floor_ceiling decay_env \<Rightarrow> bool" where
  "decay_env_ok env \<longleftrightarrow> mpfr_rounding (fst env) \<and> 0 \<le> snd env \<and> snd env \<le> 1"

lemma calc_deflation_weak:
  assumes "decay_env_ok env" "gv_weak v" "unat (amount v) < 2 ^ 63"
  shows "gv_weak (calc_deflation env t0 t1 v)"
proof (cases "amount v = 0 \<and> decimal_amount v = 0")
  case True
  then show ?thesis
    by (simp add: calc_deflation_def gv_weak_def gv_zero_def)
next
  case False
  define n where "n = unat (seconds (ts_minus t1 t0))"
  let ?v = "\<lparr>gradido = sint (amount v), decimal = uint (decimal_amount v)\<rparr>"
  define w where "w = calculateDecay (fst env) ?v n (snd env)"
  have f: "0 \<le> calculateDecayFactorForDuration (fst env) (snd env) n"
      "calculateDecayFactorForDuration (fst env) (snd env) n \<le> 1"
    using assms(1) calculateDecayFactorForDuration_bounds by (auto simp: decay_env_ok_def)
  have r: "mpfr_rounding (fst env)"
    using assms(1) by (simp add: decay_env_ok_def)
  have "0 \<le> gradido ?v" "gradido ?v < 2 ^ 63" "0 \<le> decimal ?v" "decimal ?v \<le> 1000000"
    using assms(2,3) sint_eq_unat [of "amount v"]
    by (simp_all add: gv_weak_def GRADIDO_VALUE_DECIMAL_AMOUNT_BASE_def uint_int_unat del: of_nat_unat)
  from calculateDecayForDuration_bounds(1,2) [OF r f this refl]
  have b: "0 \<le> decimal w \<and> decimal w \<le> 1000000"
    by (simp add: w_def calculateDecay_def)
  have "calc_deflation env t0 t1 v = GradidoValue (word_of_int (gradido w)) (word_of_int (decimal w))"
    using False by (auto simp: calc_deflation_def w_def n_def Let_def)
  with b show ?thesis
    by (simp add: gv_weak_def GRADIDO_VALUE_DECIMAL_AMOUNT_BASE_def unat_word_of_int nat_le_iff)
qed


section \<open>Properties\<close>

text \<open>
  The error of a rounding: at most \<open>e\<close> times the number, or \<open>e\<close> for numbers below one. MPFR documents
  correctly rounded results, which at 53 bits of precision have this property for \<open>e = 2 ^ -52\<close>.
\<close>

definition rounds_within :: "'a::floor_ceiling \<Rightarrow> 'a rounding \<Rightarrow> bool" where
  "rounds_within e rnd \<longleftrightarrow> (\<forall>m x. \<bar>rnd m x - x\<bar> \<le> e * max 1 \<bar>x\<bar>)"

lemma round_even_near: "\<bar>of_int (round_even x) - x\<bar> \<le> 1 / 2"
  using floor_correct [of x] by (auto simp: round_even_def Let_def abs_le_iff)

lemma rounds_withinD:
  assumes "rounds_within e rnd" "0 \<le> e" "0 \<le> x" "x \<le> b" "1 \<le> b"
  shows "\<bar>rnd m x - x\<bar> \<le> e * b"
proof -
  have "\<bar>rnd m x - x\<bar> \<le> e * max 1 \<bar>x\<bar>"
    using assms(1) by (simp add: rounds_within_def)
  also have "e * max 1 \<bar>x\<bar> \<le> e * b"
    using assms(2-5) by (intro mult_left_mono) auto
  finally show ?thesis .
qed

text \<open>The product of the balance and the factor, as \<open>calculateDecayFast\<close> has it before it splits it again.\<close>

lemma decayed_product_near:
  fixes x :: "'a::floor_ceiling"
  assumes a: "rounds_within e rnd" and e: "0 \<le> e" "8 * e \<le> 1" and x: "0 \<le> x" "x \<le> 1" and g: "0 \<le> g"
    and q: "0 \<le> q" "q \<le> 1" and f: "\<bar>f - q\<bar> \<le> e" "0 \<le> f" "f \<le> 1"
    and d: "\<bar>d - x\<bar> \<le> e" "0 \<le> d" "d \<le> 1"
    and t1: "t1 = rnd MPFR_RNDN (d + g)" "0 \<le> t1" and t2: "t2 = rnd MPFR_RNDN (t1 * f)"
  shows "\<bar>t2 - (x + g) * q\<bar> \<le> 6 * e * (x + g + 1)"
proof -
  define M where "M = x + g + 1"
  have M: "1 \<le> M" "0 \<le> x + g" "x + g \<le> M"
    using x g by (simp_all add: M_def)
  have eM: "e \<le> e * M" "0 \<le> e * M"
    using e M by (simp_all add: mult_le_cancel_left1)
  have "\<bar>t1 - (d + g)\<bar> \<le> e * (2 * M)"
    unfolding t1(1) by (rule rounds_withinD [OF a e(1)]) (use d g x in \<open>simp_all add: M_def\<close>)
  then have s1: "\<bar>t1 - (x + g)\<bar> \<le> 3 * (e * M)"
    using d(1) eM by (simp add: abs_le_iff)
  have "8 * (e * M) \<le> M"
    using mult_right_mono [OF e(2), of M] M by simp
  then have t1M: "t1 \<le> 2 * M"
    using s1 M unfolding abs_le_iff by linarith
  have "\<bar>t2 - t1 * f\<bar> \<le> e * (2 * M)"
    unfolding t2
  proof (rule rounds_withinD [OF a e(1)])
    show "0 \<le> t1 * f"
      using t1(2) f(2) by simp
    show "t1 * f \<le> 2 * M"
      using mult_left_le [OF f(3) t1(2)] t1M by simp
  qed (use M in simp)
  moreover have "\<bar>t1 * f - (x + g) * q\<bar> \<le> 4 * (e * M)"
  proof -
    have "t1 * f - (x + g) * q = (t1 - (x + g)) * f + (x + g) * (f - q)"
      by (simp add: algebra_simps)
    then have "\<bar>t1 * f - (x + g) * q\<bar> \<le> \<bar>t1 - (x + g)\<bar> * f + (x + g) * \<bar>f - q\<bar>"
      using abs_triangle_ineq [of "(t1 - (x + g)) * f" "(x + g) * (f - q)"] f(2) M(2) by (simp add: abs_mult)
    moreover have "\<bar>t1 - (x + g)\<bar> * f \<le> 3 * (e * M)"
      using mult_left_le [OF f(3), of "\<bar>t1 - (x + g)\<bar>"] s1 by simp
    moreover have "(x + g) * \<bar>f - q\<bar> \<le> M * e"
      by (rule mult_mono) (use M f(1) in simp_all)
    ultimately show ?thesis
      by (simp add: mult.commute)
  qed
  ultimately show ?thesis
    unfolding M_def [symmetric] by (simp add: abs_le_iff)
qed

text \<open>Splitting a number into its whole part and millionths.\<close>

lemma split_near:
  fixes t :: "'a::floor_ceiling"
  assumes r: "mpfr_rounding rnd" and a: "rounds_within e rnd" "0 \<le> e" and t: "0 \<le> t"
    and c: "c = trunc_int t" and d1: "d1 = rnd MPFR_RNDN (t - of_int c)" and d2: "d2 = rnd MPFR_RNDN (d1 * 1000000)"
  shows "\<bar>of_int (c * 1000000 + round_even d2) - 1000000 * t\<bar> \<le> 1 / 2 + 2000000 * e"
    "mpfr_get_si d2 = round_even d2" "0 \<le> round_even d2" "round_even d2 \<le> 1000000"
proof -
  have frac: "0 \<le> t - of_int c" "t - of_int c \<le> 1"
    using t floor_correct [of t] by (simp_all add: c trunc_int_def)
  have one: "\<bar>d1 - (t - of_int c)\<bar> \<le> e"
    unfolding d1 using rounds_withinD [OF a frac] by simp
  have "0 \<le> d1" "d1 \<le> 1"
    unfolding d1
    by (fact mpfr_rounding_between [OF r frac mpfr_rounding_simps(1) [OF r] mpfr_rounding_simps(2) [OF r]])+
  then have m: "0 \<le> d1 * 1000000" "d1 * 1000000 \<le> 1000000"
    by simp_all
  then have "\<bar>d2 - d1 * 1000000\<bar> \<le> e * 1000000"
    unfolding d2 by (intro rounds_withinD [OF a]) simp_all
  then have "\<bar>of_int c * 1000000 + of_int (round_even d2) - 1000000 * t\<bar> \<le> 1 / 2 + 2000000 * e"
    using one round_even_near [of d2] unfolding abs_le_iff by linarith
  then show "\<bar>of_int (c * 1000000 + round_even d2) - 1000000 * t\<bar> \<le> 1 / 2 + 2000000 * e"
    by simp
  have "0 \<le> d2" "d2 \<le> 1000000"
    unfolding d2
    by (fact mpfr_rounding_between [OF r m mpfr_rounding_simps(1) [OF r] mpfr_rounding_simps(3) [OF r]])+
  then show re: "0 \<le> round_even d2" "round_even d2 \<le> 1000000"
    using round_even_bounds [of 0 d2 1000000] by simp_all
  then show "mpfr_get_si d2 = round_even d2"
    by (simp add: mpfr_get_si_def)
qed


text \<open>A rounding that satisfies the contract: downwards to a multiple of \<open>2 ^ -53\<close>.\<close>

definition fixed_rounding :: "rat rounding" where
  "fixed_rounding m x = of_int \<lfloor>x * 2 ^ 53\<rfloor> / 2 ^ 53"

lemma mpfr_rounding_fixed: "mpfr_rounding fixed_rounding"
proof -
  have "fixed_rounding m x \<le> fixed_rounding m y" if "x \<le> y" for m x y
    using that by (simp add: fixed_rounding_def divide_right_mono floor_mono mult_right_mono)
  moreover have "fixed_rounding m (of_int k) = of_int k" for m k
  proof -
    have "(of_int k * 2 ^ 53 :: rat) = of_int (k * 2 ^ 53)"
      by simp
    then have "\<lfloor>of_int k * 2 ^ 53 :: rat\<rfloor> = k * 2 ^ 53"
      by (simp only: floor_of_int)
    then show ?thesis
      by (simp add: fixed_rounding_def)
  qed
  moreover have "fixed_rounding m (fixed_rounding m' x) = fixed_rounding m' x" for m m' x
    by (simp add: fixed_rounding_def)
  ultimately show ?thesis
    unfolding mpfr_rounding_def by blast
qed

lemma rounds_within_fixed: "rounds_within (1 / 2 ^ 53) fixed_rounding"
proof -
  have "\<bar>fixed_rounding m x - x\<bar> \<le> 1 / 2 ^ 53 * max 1 \<bar>x\<bar>" for m x
  proof -
    have "\<bar>fixed_rounding m x - x\<bar> \<le> 1 / 2 ^ 53"
      using floor_correct [of "x * 2 ^ 53"] by (simp add: fixed_rounding_def abs_le_iff field_simps)
    also have "\<dots> \<le> 1 / 2 ^ 53 * max 1 \<bar>x\<bar>"
      by (simp add: mult_le_cancel_left1 field_simps)
    finally show ?thesis .
  qed
  then show ?thesis
    by (simp add: rounds_within_def)
qed


text \<open>
  With exact arithmetic a balance never grows: the decayed value, in millionths, is at most the
  value before.
\<close>

theorem exact_decay_never_increases:
  assumes "0 \<le> f" "f \<le> 1" "0 \<le> gradido v" "gradido v < 2 ^ 53" "0 \<le> decimal v" "decimal v \<le> 1000000"
  shows "gradido (calculateDecay (\<lambda>_ x. x) v n f) * 1000000 + decimal (calculateDecay (\<lambda>_ x. x) v n f)
    \<le> gradido v * 1000000 + decimal v"
proof -
  define a where "a = (of_int (decimal v) / 1000000 + of_int (gradido v)) * f ^ n"
  define c where "c = \<lfloor>a\<rfloor>"
  have p: "0 \<le> f ^ n" "f ^ n \<le> 1"
    using assms(1,2) by (simp_all add: power_le_one)
  have s: "0 \<le> (of_int (decimal v) / 1000000 + of_int (gradido v) :: 'a)"
    using assms(3,5) by simp
  have a: "0 \<le> a" "a \<le> of_int (decimal v) / 1000000 + of_int (gradido v)"
    using p s by (simp_all add: a_def mult_left_le)
  have fr: "0 \<le> a - of_int c" "a - of_int c \<le> 1"
    using floor_correct [of a] by (simp_all add: c_def)
  define K where "K = gradido v * 1000000 + decimal v - c * 1000000"
  have up: "(a - of_int c) * 1000000 \<le> of_int K"
    using a(2) by (simp add: K_def algebra_simps)
  have re: "round_even ((a - of_int c) * 1000000) \<le> K"
      "0 \<le> round_even ((a - of_int c) * 1000000)" "round_even ((a - of_int c) * 1000000) \<le> 1000000"
    using round_even_bounds(2) [OF _ up, of 0] round_even_bounds [of 0 "(a - of_int c) * 1000000" 1000000] fr
    by simp_all
  have "of_int c \<le> a"
    by (simp add: c_def)
  then have "of_int (c * 1000000) \<le> (of_int (gradido v * 1000000 + decimal v) :: 'a)"
    using a(2) by (simp add: field_simps)
  then have "c * 1000000 \<le> gradido v * 1000000 + decimal v"
    by (simp only: of_int_le_iff)
  then have c: "c < 2 ^ 63"
    using assms(4,6) by simp
  have c0: "0 \<le> c"
    using a(1) by (simp add: c_def)
  have "trunc_int a = c"
    using a(1) by (simp add: trunc_int_def c_def)
  then have fast: "calculateDecayFast (\<lambda>_ x. x) (f ^ n) (of_int (decimal v) / 1000000) (gradido v) = (a - of_int c, c)"
    by (simp add: calculateDecayFast_def a_def)
  have "mpz_get_si c = c" "mpfr_get_si ((a - of_int c) * 1000000) = round_even ((a - of_int c) * 1000000)"
    using c c0 re by (simp_all add: mpz_get_si_def mpfr_get_si_def)
  with fast have "calculateDecay (\<lambda>_ x. x) v n f
      = \<lparr>gradido = c, decimal = round_even ((a - of_int c) * 1000000)\<rparr>"
    by (simp add: calculateDecay_def calculateDecayForDuration_def calculateDecayFactorForDuration_def
        GRADIDO_DECIMAL_CONVERSION_FACTOR_def)
  then show ?thesis
    using re(1) by (simp add: K_def)
qed

theorem exact_decay_never_increases_witness:
  "gradido (calculateDecay (\<lambda>_ x. x) \<lparr>gradido = 7, decimal = 250000\<rparr> 2 (1 / 2 :: rat)) * 1000000
   + decimal (calculateDecay (\<lambda>_ x. x) \<lparr>gradido = 7, decimal = 250000\<rparr> 2 (1 / 2 :: rat)) \<le> 7250000"
  using exact_decay_never_increases [of "1 / 2 :: rat" "\<lparr>gradido = 7, decimal = 250000\<rparr>" 2] by simp

text \<open>
  The decay factor is the one of the compound interest formula: with exact arithmetic, applying
  it once per second for a year halves the capital.
\<close>

theorem decay_factor_halves_in_a_year:
  assumes "0 < days"
  shows "calculateDecayFactorForDuration (\<lambda>_ x. x) (calculateDecayFactor (\<lambda>_ x. x) days)
    (nat (days * 60 * 60 * 24)) = 1 / 2"
proof -
  let ?n = "days * 60 * 60 * 24"
  have "exp ((ln 50 - ln 100) / of_int ?n :: real) ^ nat ?n
      = exp (of_nat (nat ?n) * ((ln 50 - ln 100) / of_int ?n))"
    by (simp only: exp_of_nat_mult)
  also have "of_nat (nat ?n) * ((ln 50 - ln 100) / of_int ?n) = (ln 50 - ln 100 :: real)"
    using assms by simp
  also have "exp (ln 50 - ln 100 :: real) = 1 / 2"
    by (simp add: exp_diff)
  finally show ?thesis
    by (simp add: calculateDecayFactorForDuration_def calculateDecayFactor_def Let_def)
qed

theorem decay_factor_halves_in_a_year_witness:
  "calculateDecayFactorForDuration (\<lambda>_ x. x) (calculateDecayFactor (\<lambda>_ x. x) 365) 31536000 = 1 / 2"
  using decay_factor_halves_in_a_year [of 365] by simp

text \<open>
  The decimal part may be rounded up to 1000000: one gradido, decayed by a ten-millionth,
  becomes zero gradidos and 1000000 millionths, which is not a normalised amount and compares as
  less than one gradido.
\<close>

theorem decay_denormalises:
  "calculateDecay (\<lambda>_ x. x) \<lparr>gradido = 1, decimal = 0\<rparr> 1 (9999999 / 10000000 :: rat)
     = \<lparr>gradido = 0, decimal = 1000000\<rparr> \<and>
   gv_less (GradidoValue 0 1000000) (GradidoValue 1 0) \<and> \<not> gv_valid (GradidoValue 0 1000000)"
proof -
  have f: "\<lfloor>9999999 / 10000000 :: rat\<rfloor> = 0" "\<lfloor>9999999 / 10 :: rat\<rfloor> = 999999"
    by (rule floor_unique; simp)+
  have fast: "calculateDecayFast (\<lambda>_ x. x) (9999999 / 10000000 :: rat) 0 1 = (9999999 / 10000000, 0)"
    by (simp add: calculateDecayFast_def trunc_int_def f)
  have "round_even (9999999 / 10 :: rat) = 1000000"
    by (simp add: round_even_def f)
  then have "mpfr_get_si (9999999 / 10 :: rat) = 1000000"
    by (simp add: mpfr_get_si_def)
  with fast have "calculateDecay (\<lambda>_ x. x) \<lparr>gradido = 1, decimal = 0\<rparr> 1 (9999999 / 10000000 :: rat)
     = \<lparr>gradido = 0, decimal = 1000000\<rparr>"
    by (simp add: calculateDecay_def calculateDecayForDuration_def calculateDecayFactorForDuration_def
        GRADIDO_DECIMAL_CONVERSION_FACTOR_def mpz_get_si_def)
  then show ?thesis
    by (simp add: gv_less_def gv_valid_def GRADIDO_VALUE_DECIMAL_AMOUNT_BASE_def)
qed

end
