(* ===== verification/Group_Ledger.thy ===== *)
theory Group_Ledger
  imports Decay
begin

text \<open>
  \<open>src/blockchain_gradido.cpp\<close>: the ledger of a group. The state holds the three indexes built from
  the blockchain, the paired transaction of another group that was received, and the request for
  the one that is awaited. \<open>calc_fields_and_update_indexes_for\<close> decides the result of a transaction,
  fills in its calculated fields and updates the indexes; \<open>add_index_data\<close> rebuilds the indexes from
  stored records. What the ledger asks of the node's facade is the argument \<open>gf\<close>: the blockchains of
  other groups this node has (\<open>get_group_blockchain\<close>) and whether a sibling node is configured, without
  which \<open>exec_once_paired_transaction_done\<close> throws. The number of records in the storage is the
  argument \<open>rec_count\<close>. \<open>paired_requests\<close> lists the requests handed to the facade, in order.
\<close>

section \<open>State\<close>

record UserInfo =
  current_balance :: GradidoValue
  last_record_with_balance :: u64
  timestamp_of_last_balance :: HederaTimestamp

definition UserInfo_new :: UserInfo where
  "UserInfo_new =
     \<lparr>current_balance = gv_zero, last_record_with_balance = 0, timestamp_of_last_balance = ts_zero\<rparr>"

record GroupLedger =
  user_index :: "(bytes, UserInfo) fmap"
  friend_group_index :: "(bytes, unit) fmap"
  outbound_transactions :: "(HederaTimestamp, u64) fmap"
  awaited_group :: bytes
  paired_transaction :: HederaTimestamp
  paired_tr :: Transaction
  waiting_for_paired :: bool
  paired_requests :: "(bytes \<times> HederaTimestamp) list"

definition GroupLedger_new :: GroupLedger where
  "GroupLedger_new =
     \<lparr>user_index = fmempty, friend_group_index = fmempty, outbound_transactions = fmempty,
      awaited_group = [], paired_transaction = ts_zero, paired_tr = Transaction_zero,
      waiting_for_paired = False, paired_requests = []\<rparr>"

text \<open>What another blockchain answers: \<open>get_paired_transaction\<close> and \<open>get_transaction\<close>.\<close>

record peer =
  peer_paired_transaction :: "HederaTimestamp \<Rightarrow> u64 option"
  peer_transaction :: "u64 \<Rightarrow> Transaction option"

record facade =
  get_group_blockchain :: "bytes \<Rightarrow> peer option"
  has_sibling :: bool

text \<open>The outcome: whether the batch may be stored, the transaction, and the new state.\<close>

type_synonym step = "(bool \<times> Transaction \<times> GroupLedger) res"

definition end_iterator :: "'a res" where
  "end_iterator = Inl (Undefined ''dereference of the end iterator'')"

definition reject :: "TransactionResult \<Rightarrow> Transaction \<Rightarrow> GroupLedger \<Rightarrow> step" where
  "reject r tr L = Inr (True, tr\<lparr>result := result_code r\<rparr>, L)"

definition now_of :: "Transaction \<Rightarrow> HederaTimestamp" where
  "now_of tr = consensusTimestamp (hedera_transaction tr)"

definition put_user :: "bytes \<Rightarrow> UserInfo \<Rightarrow> GroupLedger \<Rightarrow> GroupLedger" where
  "put_user u ui L = L\<lparr>user_index := fmupd u ui (user_index L)\<rparr>"


section \<open>Calculating the fields of a transaction\<close>

definition calc_gradido_creation ::
  "'a::floor_ceiling decay_env \<Rightarrow> u64 \<Rightarrow> Transaction \<Rightarrow> GradidoCreation \<Rightarrow> GroupLedger \<Rightarrow> step" where
  "calc_gradido_creation env rec_count tr c L =
     (case fmlookup (user_index L) (user c) of
        None \<Rightarrow> reject UNKNOWN_LOCAL_USER tr L
      | Some urec \<Rightarrow>
          (let bal = calc_deflation env (timestamp_of_last_balance urec) (now_of tr) (current_balance urec);
               c' = c\<lparr>new_balance := gv_plus bal (creation_amount c),
                      prev_transfer_rec_num := last_record_with_balance urec\<rparr>
           in Inr (True, tr\<lparr>body := gradido_creation c', result := result_code SUCCESS\<rparr>,
                   put_user (user c)
                     \<lparr>current_balance = gv_plus_assign bal (creation_amount c),
                      last_record_with_balance = rec_count,
                      timestamp_of_last_balance = now_of tr\<rparr> L)))"

definition calc_add_group_friend :: "Transaction \<Rightarrow> bytes \<Rightarrow> GroupLedger \<Rightarrow> step" where
  "calc_add_group_friend tr g L =
     bind_res (c_str g) (\<lambda>group.
       if fmlookup (friend_group_index L) group \<noteq> None then reject GROUP_IS_ALREADY_FRIEND tr L
       else Inr (True, tr\<lparr>result := result_code SUCCESS\<rparr>,
                 L\<lparr>friend_group_index := std_insert group () (friend_group_index L)\<rparr>))"

definition calc_remove_group_friend :: "Transaction \<Rightarrow> bytes \<Rightarrow> GroupLedger \<Rightarrow> step" where
  "calc_remove_group_friend tr g L =
     bind_res (c_str g) (\<lambda>group.
       if fmlookup (friend_group_index L) group = None then reject GROUP_IS_NOT_FRIEND tr L
       else Inr (True, tr\<lparr>result := result_code SUCCESS\<rparr>,
                 L\<lparr>friend_group_index := fmdrop group (friend_group_index L)\<rparr>))"

definition calc_add_user :: "u64 \<Rightarrow> Transaction \<Rightarrow> bytes \<Rightarrow> GroupLedger \<Rightarrow> step" where
  "calc_add_user rec_count tr u L =
     (if fmlookup (user_index L) u \<noteq> None then reject USER_ALREADY_EXISTS tr L
      else Inr (True, tr\<lparr>result := result_code SUCCESS\<rparr>,
                L\<lparr>user_index := std_insert u
                     (UserInfo_new\<lparr>last_record_with_balance := rec_count,
                                   timestamp_of_last_balance := now_of tr\<rparr>) (user_index L)\<rparr>))"

text \<open>The request to be called back once the other half of a cross-group transaction is known.\<close>

definition request_paired ::
  "facade \<Rightarrow> bool \<Rightarrow> bytes \<Rightarrow> HederaTimestamp \<Rightarrow> Transaction \<Rightarrow> GroupLedger \<Rightarrow> step" where
  "request_paired gf wait g ptid tr L =
     (if \<not> has_sibling gf then Inl (Throw ''need sibling to get paired transaction'')
      else Inr (False, tr,
        L\<lparr>awaited_group := g, paired_transaction := ptid,
          waiting_for_paired := (wait \<or> waiting_for_paired L),
          paired_requests := paired_requests L @ [(g, ptid)]\<rparr>))"

definition move_outbound_id :: "TransactionBody \<Rightarrow> HederaTimestamp option" where
  "move_outbound_id b =
     (case b of move_user_outbound m \<Rightarrow> Some (paired_transaction_id m) | _ \<Rightarrow> None)"

definition outbound_id :: "TransactionBody \<Rightarrow> HederaTimestamp option" where
  "outbound_id b =
     (case b of outbound_transfer t \<Rightarrow> Some (paired_transaction_id t) | _ \<Rightarrow> None)"

text \<open>
  The other half of a cross-group transaction: the one received from the facade if it matches, else
  the one the other group's blockchain has. \<open>MOVE_USER_INBOUND\<close> ignores the answer of
  \<open>get_paired_transaction\<close> (\<open>checked\<close> is false) and then reads an uninitialised number.
\<close>

definition paired_half ::
  "facade \<Rightarrow> bool \<Rightarrow> bool \<Rightarrow> bytes \<Rightarrow> HederaTimestamp \<Rightarrow> GroupLedger \<Rightarrow> Transaction option res" where
  "paired_half gf checked found g ptid L =
     (if found then Inr (Some (paired_tr L))
      else case get_group_blockchain gf g of
        None \<Rightarrow> Inr None
      | Some b \<Rightarrow>
          (case peer_paired_transaction b ptid of
             None \<Rightarrow> if checked then Inr None else Inl (Undefined ''uninitialised pt_seq_num'')
           | Some seq \<Rightarrow> Inr (peer_transaction b seq)))"

definition calc_move_user_inbound ::
  "facade \<Rightarrow> u64 \<Rightarrow> Transaction \<Rightarrow> MoveUser \<Rightarrow> GroupLedger \<Rightarrow> step" where
  "calc_move_user_inbound gf rec_count tr m L =
     (if fmlookup (user_index L) (mu_user m) \<noteq> None then reject USER_ALREADY_EXISTS tr L
      else bind_res (c_str (other_group m)) (\<lambda>sender_group.
        let ptid = paired_transaction_id m;
            found = (awaited_group L = sender_group \<and> move_outbound_id (body (paired_tr L)) = Some ptid)
        in bind_res (paired_half gf False found sender_group ptid L) (\<lambda>pt.
          case pt of
            None \<Rightarrow> request_paired gf True sender_group ptid tr L
          | Some tt \<Rightarrow>
              (if result tt \<noteq> result_code SUCCESS then reject OUTBOUND_TRANSACTION_FAILED tr L
               else Inr (True, tr\<lparr>result := result_code SUCCESS\<rparr>,
                      L\<lparr>user_index := std_insert (mu_user m)
                           \<lparr>current_balance = new_balance (mu_state m),
                            last_record_with_balance = rec_count,
                            timestamp_of_last_balance = now_of tr\<rparr> (user_index L)\<rparr>)))))"

definition calc_move_user_outbound :: "u64 \<Rightarrow> Transaction \<Rightarrow> MoveUser \<Rightarrow> GroupLedger \<Rightarrow> step" where
  "calc_move_user_outbound rec_count tr m L =
     (let L1 = L\<lparr>outbound_transactions :=
                   std_insert (paired_transaction_id m) (rec_count - 1) (outbound_transactions L)\<rparr>
      in if fmlookup (user_index L1) (mu_user m) = None then reject UNKNOWN_LOCAL_USER tr L1
         else Inr (True, tr\<lparr>result := result_code SUCCESS\<rparr>,
                   L1\<lparr>user_index := fmdrop (mu_user m) (user_index L1)\<rparr>))"

text \<open>
  \<open>LOCAL_TRANSFER\<close>: the sender's entry is read before it is known to exist; the entries of sender
  and receiver may be the same one, so the assignments are made in the order of the code.
\<close>

definition calc_local_transfer ::
  "'a::floor_ceiling decay_env \<Rightarrow> u64 \<Rightarrow> Transaction \<Rightarrow> LocalTransfer \<Rightarrow> GroupLedger \<Rightarrow> step" where
  "calc_local_transfer env rec_count tr lt L =
     (case fmlookup (user_index L) (user (lt_sender lt)) of
        None \<Rightarrow> end_iterator
      | Some r_sender \<Rightarrow>
          (let sender = user (lt_sender lt); receiver = user (lt_receiver lt);
               sender_amount =
                 calc_deflation env (timestamp_of_last_balance r_sender) (now_of tr) (current_balance r_sender)
           in case fmlookup (user_index L) receiver of
                None \<Rightarrow> reject UNKNOWN_LOCAL_USER tr L
              | Some _ \<Rightarrow>
                  (if gv_less sender_amount (lt_amount lt) then reject NOT_ENOUGH_GRADIDOS tr L
                   else
                     let L1 = put_user sender (r_sender\<lparr>current_balance := sender_amount\<rparr>) L;
                         r_receiver = the (fmlookup (user_index L1) receiver);
                         receiver_amount = calc_deflation env (timestamp_of_last_balance r_receiver)
                           (now_of tr) (current_balance r_receiver);
                         L2 = put_user receiver (r_receiver\<lparr>current_balance := receiver_amount\<rparr>) L1;
                         r_sender2 = the (fmlookup (user_index L2) sender);
                         r_receiver2 = the (fmlookup (user_index L2) receiver)
                     in bind_res (gv_minus sender_amount (lt_amount lt)) (\<lambda>sender_new.
                          let lt' = lt\<lparr>lt_sender := (lt_sender lt)
                                         \<lparr>new_balance := sender_new,
                                          prev_transfer_rec_num := last_record_with_balance r_sender2\<rparr>,
                                       lt_receiver := (lt_receiver lt)
                                         \<lparr>new_balance := gv_plus receiver_amount (lt_amount lt),
                                          prev_transfer_rec_num := last_record_with_balance r_receiver2\<rparr>\<rparr>;
                              L3 = put_user sender
                                     (r_sender2\<lparr>timestamp_of_last_balance := now_of tr,
                                                last_record_with_balance := rec_count\<rparr>) L2;
                              r_receiver3 = the (fmlookup (user_index L3) receiver);
                              L4 = put_user receiver
                                     (r_receiver3\<lparr>timestamp_of_last_balance := now_of tr,
                                                  last_record_with_balance := rec_count\<rparr>) L3
                          in Inr (True, tr\<lparr>body := local_transfer lt', result := result_code SUCCESS\<rparr>,
                                  L4)))))"

definition calc_inbound_transfer ::
  "'a::floor_ceiling decay_env \<Rightarrow> facade \<Rightarrow> u64 \<Rightarrow> Transaction \<Rightarrow> InboundTransfer
     \<Rightarrow> GroupLedger \<Rightarrow> step" where
  "calc_inbound_transfer env gf rec_count tr lt L =
     bind_res (c_str (other_group lt)) (\<lambda>sender_group.
       case fmlookup (user_index L) (user (it_receiver lt)) of
         None \<Rightarrow> reject UNKNOWN_LOCAL_USER tr L
       | Some r_receiver \<Rightarrow>
           (let ptid = paired_transaction_id lt;
                found = (awaited_group L = sender_group \<and> outbound_id (body (paired_tr L)) = Some ptid)
            in bind_res (paired_half gf True found sender_group ptid L) (\<lambda>pt.
              case pt of
                None \<Rightarrow> request_paired gf False sender_group ptid tr L
              | Some tt \<Rightarrow>
                  (if result tt \<noteq> result_code SUCCESS then reject OUTBOUND_TRANSACTION_FAILED tr L
                   else
                     let receiver_amount = calc_deflation env (timestamp_of_last_balance r_receiver)
                           (now_of tr) (current_balance r_receiver);
                         lt' = lt\<lparr>it_receiver := (it_receiver lt)
                                    \<lparr>new_balance := gv_plus receiver_amount (it_amount lt),
                                     prev_transfer_rec_num := last_record_with_balance r_receiver\<rparr>\<rparr>
                     in Inr (True, tr\<lparr>body := inbound_transfer lt', result := result_code SUCCESS\<rparr>,
                             put_user (user (it_receiver lt))
                               \<lparr>current_balance = receiver_amount,
                                last_record_with_balance = rec_count,
                                timestamp_of_last_balance = now_of tr\<rparr> L)))))"

definition calc_outbound_transfer ::
  "'a::floor_ceiling decay_env \<Rightarrow> u64 \<Rightarrow> Transaction \<Rightarrow> OutboundTransfer \<Rightarrow> GroupLedger \<Rightarrow> step" where
  "calc_outbound_transfer env rec_count tr lt L =
     (let L1 = L\<lparr>outbound_transactions :=
                   std_insert (paired_transaction_id lt) (rec_count - 1) (outbound_transactions L)\<rparr>
      in case fmlookup (user_index L1) (user (ot_sender lt)) of
           None \<Rightarrow> end_iterator
         | Some r_sender \<Rightarrow>
             (let sender_amount = calc_deflation env (timestamp_of_last_balance r_sender)
                    (now_of tr) (current_balance r_sender)
              in if gv_less sender_amount (ot_amount lt) then reject NOT_ENOUGH_GRADIDOS tr L1
                 else bind_res (gv_minus sender_amount (ot_amount lt)) (\<lambda>sender_new.
                   let lt' = lt\<lparr>ot_sender := (ot_sender lt)
                                  \<lparr>new_balance := sender_new,
                                   prev_transfer_rec_num := last_record_with_balance r_sender\<rparr>\<rparr>
                   in Inr (True, tr\<lparr>body := outbound_transfer lt', result := result_code SUCCESS\<rparr>,
                           put_user (user (ot_sender lt))
                             \<lparr>current_balance = sender_amount,
                              last_record_with_balance = rec_count,
                              timestamp_of_last_balance = now_of tr\<rparr> L1))))"

definition calc_fields_and_update_indexes_for ::
  "'a::floor_ceiling decay_env \<Rightarrow> facade \<Rightarrow> u64 \<Rightarrow> Transaction \<Rightarrow> GroupLedger \<Rightarrow> step" where
  "calc_fields_and_update_indexes_for env gf rec_count tr L =
     (if waiting_for_paired L then Inr (False, tr, L)
      else case body tr of
        gradido_creation c \<Rightarrow> calc_gradido_creation env rec_count tr c L
      | add_group_friend g \<Rightarrow> calc_add_group_friend tr g L
      | remove_group_friend g \<Rightarrow> calc_remove_group_friend tr g L
      | add_user u \<Rightarrow> calc_add_user rec_count tr u L
      | move_user_inbound m \<Rightarrow> calc_move_user_inbound gf rec_count tr m L
      | move_user_outbound m \<Rightarrow> calc_move_user_outbound rec_count tr m L
      | local_transfer lt \<Rightarrow> calc_local_transfer env rec_count tr lt L
      | inbound_transfer lt \<Rightarrow> calc_inbound_transfer env gf rec_count tr lt L
      | outbound_transfer lt \<Rightarrow> calc_outbound_transfer env rec_count tr lt L
      | _ \<Rightarrow> Inr (True, tr, L))"


text \<open>The other half of a cross-group transaction has arrived (the task that continues is pushed).\<close>

definition on_paired_transaction_done :: "Transaction \<Rightarrow> GroupLedger \<Rightarrow> GroupLedger" where
  "on_paired_transaction_done t L = L\<lparr>waiting_for_paired := False, paired_tr := t\<rparr>"

definition get_paired_transaction :: "HederaTimestamp \<Rightarrow> GroupLedger \<Rightarrow> u64 option" where
  "get_paired_transaction hti L = fmlookup (outbound_transactions L) hti"

definition get_users :: "GroupLedger \<Rightarrow> bytes list" where
  "get_users L = std_keys (user_index L)"

definition clear_indexes :: "GroupLedger \<Rightarrow> GroupLedger" where
  "clear_indexes L = L\<lparr>user_index := fmempty, friend_group_index := fmempty,
                       outbound_transactions := fmempty\<rparr>"


section \<open>Rebuilding the indexes from stored records\<close>

definition set_balance ::
  "bytes \<Rightarrow> GradidoValue \<Rightarrow> u64 \<Rightarrow> HederaTimestamp \<Rightarrow> GroupLedger \<Rightarrow> GroupLedger res" where
  "set_balance u bal recno ts L =
     (case fmlookup (user_index L) u of
        None \<Rightarrow> end_iterator
      | Some _ \<Rightarrow> Inr (put_user u \<lparr>current_balance = bal, last_record_with_balance = recno,
                                   timestamp_of_last_balance = ts\<rparr> L))"

definition index_transaction :: "u64 \<Rightarrow> Transaction \<Rightarrow> GroupLedger \<Rightarrow> GroupLedger res" where
  "index_transaction recno tr L =
     (case body tr of
        gradido_creation c \<Rightarrow> set_balance (user c) (new_balance c) recno (now_of tr) L
      | add_group_friend g \<Rightarrow> bind_res (c_str g) (\<lambda>group.
          Inr (L\<lparr>friend_group_index := std_insert group () (friend_group_index L)\<rparr>))
      | remove_group_friend g \<Rightarrow> bind_res (c_str g) (\<lambda>group.
          Inr (L\<lparr>friend_group_index := fmdrop group (friend_group_index L)\<rparr>))
      | add_user u \<Rightarrow>
          Inr (L\<lparr>user_index := std_insert u
                   (UserInfo_new\<lparr>last_record_with_balance := recno,
                                 timestamp_of_last_balance := now_of tr\<rparr>) (user_index L)\<rparr>)
      | move_user_inbound m \<Rightarrow>
          Inr (L\<lparr>user_index := std_insert (mu_user m)
                   (UserInfo_new\<lparr>current_balance := new_balance (mu_state m),
                                 last_record_with_balance := ucast (ucast recno :: u32)\<rparr>)
                   (user_index L)\<rparr>)
      | move_user_outbound m \<Rightarrow>
          Inr (L\<lparr>user_index := fmdrop (mu_user m) (user_index L),
                 outbound_transactions :=
                   std_insert (paired_transaction_id m) recno (outbound_transactions L)\<rparr>)
      | local_transfer lt \<Rightarrow>
          bind_res (set_balance (user (lt_sender lt)) (new_balance (lt_sender lt)) recno (now_of tr) L)
            (set_balance (user (lt_receiver lt)) (new_balance (lt_receiver lt)) recno (now_of tr))
      | inbound_transfer lt \<Rightarrow>
          set_balance (user (it_receiver lt)) (new_balance (it_receiver lt)) recno (now_of tr) L
      | outbound_transfer lt \<Rightarrow>
          bind_res (set_balance (user (ot_sender lt)) (new_balance (ot_sender lt)) recno (now_of tr) L)
            (\<lambda>L1. Inr (L1\<lparr>outbound_transactions :=
                std_insert (paired_transaction_id lt) recno (outbound_transactions L1)\<rparr>))
      | _ \<Rightarrow> Inr L)"

definition index_record :: "u64 \<Rightarrow> GradidoRecord \<Rightarrow> GroupLedger \<Rightarrow> GroupLedger res" where
  "index_record recno pp L =
     (case pp of
        GRADIDO_TRANSACTION tr \<Rightarrow>
          (if result tr = result_code SUCCESS then index_transaction recno tr L else Inr L)
      | _ \<Rightarrow> Inr L)"



section \<open>Lemmas on the handlers\<close>

lemma fmlookup_put_user [simp]:
  "fmlookup (user_index (put_user u ui L)) v = (if v = u then Some ui else fmlookup (user_index L) v)"
  by (simp add: put_user_def)

lemma put_user_same [simp]: "put_user u a (put_user u b L) = put_user u a L"
  by (simp add: put_user_def)

lemma put_user_swap: "u \<noteq> v \<Longrightarrow> put_user u a (put_user v b L) = put_user v b (put_user u a L)"
  by (simp add: put_user_def fmupd_reorder_neq)

lemma put_user_frame [simp]:
  "friend_group_index (put_user u ui L) = friend_group_index L"
  "outbound_transactions (put_user u ui L) = outbound_transactions L"
  "awaited_group (put_user u ui L) = awaited_group L"
  "paired_transaction (put_user u ui L) = paired_transaction L"
  "paired_tr (put_user u ui L) = paired_tr L"
  "waiting_for_paired (put_user u ui L) = waiting_for_paired L"
  "paired_requests (put_user u ui L) = paired_requests L"
  by (simp_all add: put_user_def)

lemma UserInfo_update_all [simp]:
  "ui\<lparr>current_balance := a, timestamp_of_last_balance := t, last_record_with_balance := n\<rparr> =
     \<lparr>current_balance = a, last_record_with_balance = n, timestamp_of_last_balance = t\<rparr>"
  by (cases ui) simp

lemma result_code_eq_SUCCESS [simp]: "result_code r = 0 \<longleftrightarrow> r = SUCCESS"
  by (cases r) simp_all

lemmas handler_defs =
  calc_gradido_creation_def calc_add_group_friend_def calc_remove_group_friend_def calc_add_user_def
  calc_move_user_inbound_def calc_move_user_outbound_def calc_local_transfer_def
  calc_inbound_transfer_def calc_outbound_transfer_def

lemmas outcome_defs = reject_def end_iterator_def request_paired_def

lemmas handler_splits = option.splits if_splits

text \<open>The part of the state the protocol is about, and how each group of operations treats it.\<close>

definition protocol ::
  "GroupLedger \<Rightarrow> bytes \<times> HederaTimestamp \<times> bool \<times> (bytes \<times> HederaTimestamp) list" where
  "protocol L = (awaited_group L, paired_transaction L, waiting_for_paired L, paired_requests L)"

text \<open>
  The three kinds of outcome: the transaction is stored with success; it is stored with another
  result and users and friend groups are as before; it is postponed, with a request to the facade.
\<close>

definition orderly :: "Transaction \<Rightarrow> GroupLedger \<Rightarrow> bool \<times> Transaction \<times> GroupLedger \<Rightarrow> bool" where
  "orderly tr L = (\<lambda>(proceed, tr', L').
     if proceed
     then protocol L' = protocol L \<and> (result tr' = result_code SUCCESS \<or>
       user_index L' = user_index L \<and> friend_group_index L' = friend_group_index L \<and> body tr' = body tr)
     else tr' = tr \<and> user_index L' = user_index L \<and> friend_group_index L' = friend_group_index L \<and>
       outbound_transactions L' = outbound_transactions L \<and>
       (waiting_for_paired L \<and> L' = L \<or>
        paired_requests L' = paired_requests L @ [(awaited_group L', paired_transaction L')]))"

lemma move_user_inbound_orderly:
  "calc_move_user_inbound gf n tr m L = Inr out \<Longrightarrow> orderly tr L out"
  by (cases "fmlookup (user_index L) (mu_user m)"; cases "c_str (other_group m)";
      cases "paired_half gf False (awaited_group L = projr (c_str (other_group m)) \<and>
        move_outbound_id (body (paired_tr L)) = Some (paired_transaction_id m))
        (projr (c_str (other_group m))) (paired_transaction_id m) L")
    (auto simp: calc_move_user_inbound_def outcome_defs orderly_def protocol_def Let_def
      split: option.split_asm if_split_asm)

lemma inbound_transfer_orderly:
  "calc_inbound_transfer env gf n tr lt L = Inr out \<Longrightarrow> orderly tr L out"
  by (cases "fmlookup (user_index L) (user (it_receiver lt))"; cases "c_str (other_group lt)";
      cases "paired_half gf True (awaited_group L = projr (c_str (other_group lt)) \<and>
        outbound_id (body (paired_tr L)) = Some (paired_transaction_id lt))
        (projr (c_str (other_group lt))) (paired_transaction_id lt) L")
    (auto simp: calc_inbound_transfer_def outcome_defs orderly_def protocol_def Let_def
      split: option.split_asm if_split_asm)

text \<open>When a cross-group transaction is postponed, and what is requested.\<close>

lemma move_user_inbound_postponed:
  assumes run: "calc_move_user_inbound gf n tr m L = Inr (False, tr', L')"
  obtains g where "c_str (other_group m) = Inr g" "fmlookup (user_index L) (mu_user m) = None"
    "L' = L\<lparr>awaited_group := g, paired_transaction := paired_transaction_id m,
       waiting_for_paired := True, paired_requests := paired_requests L @ [(g, paired_transaction_id m)]\<rparr>"
proof -
  have new: "fmlookup (user_index L) (mu_user m) = None"
    using run by (cases "fmlookup (user_index L) (mu_user m)") (auto simp: calc_move_user_inbound_def reject_def)
  then obtain g where g: "c_str (other_group m) = Inr g"
    using run by (cases "c_str (other_group m)") (auto simp: calc_move_user_inbound_def)
  obtain pt where pt: "paired_half gf False (awaited_group L = g \<and>
      move_outbound_id (body (paired_tr L)) = Some (paired_transaction_id m)) g (paired_transaction_id m) L
      = Inr pt"
    using run new g by (auto simp: calc_move_user_inbound_def bind_res_Inr_iff Let_def)
  have "request_paired gf True g (paired_transaction_id m) tr L = Inr (False, tr', L')"
    using run new g pt
    by (cases pt) (auto simp: calc_move_user_inbound_def reject_def Let_def split: if_split_asm)
  then show thesis
    by (intro that [OF g new]) (simp add: request_paired_def split: if_split_asm)
qed

lemma inbound_transfer_postponed:
  assumes run: "calc_inbound_transfer env gf n tr lt L = Inr (False, tr', L')"
  obtains g ui where "c_str (other_group lt) = Inr g"
    "fmlookup (user_index L) (user (it_receiver lt)) = Some ui"
    "L' = L\<lparr>awaited_group := g, paired_transaction := paired_transaction_id lt,
       waiting_for_paired := waiting_for_paired L,
       paired_requests := paired_requests L @ [(g, paired_transaction_id lt)]\<rparr>"
proof -
  obtain g where g: "c_str (other_group lt) = Inr g"
    using run by (cases "c_str (other_group lt)") (auto simp: calc_inbound_transfer_def)
  then obtain ui where ui: "fmlookup (user_index L) (user (it_receiver lt)) = Some ui"
    using run by (cases "fmlookup (user_index L) (user (it_receiver lt))")
      (auto simp: calc_inbound_transfer_def reject_def)
  obtain pt where pt: "paired_half gf True (awaited_group L = g \<and>
      outbound_id (body (paired_tr L)) = Some (paired_transaction_id lt)) g (paired_transaction_id lt) L
      = Inr pt"
    using run ui g by (auto simp: calc_inbound_transfer_def bind_res_Inr_iff Let_def)
  have "request_paired gf False g (paired_transaction_id lt) tr L = Inr (False, tr', L')"
    using run ui g pt
    by (cases pt) (auto simp: calc_inbound_transfer_def reject_def Let_def split: if_split_asm)
  then show thesis
    by (intro that [OF g ui]) (simp add: request_paired_def split: if_split_asm)
qed

lemma local_transfer_orderly:
  assumes "calc_local_transfer env n tr lt L = Inr out"
  shows "orderly tr L out"
proof -
  obtain proceed tr' L' where out: "out = (proceed, tr', L')"
    by (cases out)
  with assms have "proceed \<and> protocol L' = protocol L \<and> (result tr' = 0 \<or> L' = L \<and> body tr' = body tr)"
    by (cases "fmlookup (user_index L) (user (lt_sender lt))";
        cases "fmlookup (user_index L) (user (lt_receiver lt))")
      (auto simp: calc_local_transfer_def outcome_defs protocol_def Let_def bind_res_Inr_iff
        split: if_split_asm)
  then show ?thesis
    by (auto simp: orderly_def out)
qed

lemma outbound_orderly:
  "calc_outbound_transfer env n tr ot L = Inr out \<Longrightarrow> orderly tr L out"
  "calc_move_user_outbound n tr m L = Inr out \<Longrightarrow> orderly tr L out"
  by (auto simp: calc_outbound_transfer_def calc_move_user_outbound_def outcome_defs orderly_def protocol_def Let_def
      bind_res_Inr_iff split: option.split_asm if_split_asm)

lemma creation_orderly: "calc_gradido_creation env n tr c L = Inr out \<Longrightarrow> orderly tr L out"
  by (cases "fmlookup (user_index L) (user c)")
    (auto simp: calc_gradido_creation_def outcome_defs orderly_def protocol_def Let_def)

lemma friend_orderly:
  "calc_add_group_friend tr g L = Inr out \<Longrightarrow> orderly tr L out"
  "calc_remove_group_friend tr g L = Inr out \<Longrightarrow> orderly tr L out"
  by (cases "c_str g"; cases "fmlookup (friend_group_index L) (projr (c_str g))";
      auto simp: calc_add_group_friend_def calc_remove_group_friend_def outcome_defs orderly_def protocol_def)+

lemma add_user_orderly: "calc_add_user n tr u L = Inr out \<Longrightarrow> orderly tr L out"
  by (cases "fmlookup (user_index L) u") (auto simp: calc_add_user_def outcome_defs orderly_def protocol_def)

lemma orderly_same: "orderly tr L (True, tr, L)"
  by (simp add: orderly_def)

lemmas handlers_orderly =
  move_user_inbound_orderly inbound_transfer_orderly local_transfer_orderly
  outbound_orderly creation_orderly friend_orderly add_user_orderly

lemma calc_fields_orderly:
  assumes "calc_fields_and_update_indexes_for env gf n tr L = Inr out"
  shows "orderly tr L out"
proof (cases "waiting_for_paired L")
  case True
  with assms show ?thesis
    by (auto simp: calc_fields_and_update_indexes_for_def orderly_def)
next
  case False
  then show ?thesis
    using assms
    by (cases "body tr")
      (auto simp: calc_fields_and_update_indexes_for_def orderly_same intro: handlers_orderly)
qed

text \<open>The balance a user has at the time of a transaction.\<close>

definition deflated :: "'a::floor_ceiling decay_env \<Rightarrow> Transaction \<Rightarrow> UserInfo \<Rightarrow> GradidoValue" where
  "deflated env tr ui =
     calc_deflation env (timestamp_of_last_balance ui) (now_of tr) (current_balance ui)"

text \<open>A transfer between two different known users, in one equation.\<close>

lemma calc_local_transfer_eq:
  assumes "fmlookup (user_index L) (user (lt_sender lt)) = Some s"
    and "fmlookup (user_index L) (user (lt_receiver lt)) = Some r"
    and "user (lt_sender lt) \<noteq> user (lt_receiver lt)"
    and "\<not> gv_less (deflated env tr s) (lt_amount lt)" "gv_minus (deflated env tr s) (lt_amount lt) = Inr b"
  shows "calc_local_transfer env n tr lt L =
    Inr (True,
      tr\<lparr>body := local_transfer (lt
            \<lparr>lt_sender := (lt_sender lt)\<lparr>new_balance := b, prev_transfer_rec_num := last_record_with_balance s\<rparr>,
             lt_receiver := (lt_receiver lt)
               \<lparr>new_balance := gv_plus (deflated env tr r) (lt_amount lt),
                prev_transfer_rec_num := last_record_with_balance r\<rparr>\<rparr>),
         result := result_code SUCCESS\<rparr>,
      put_user (user (lt_receiver lt))
        \<lparr>current_balance = deflated env tr r, last_record_with_balance = n, timestamp_of_last_balance = now_of tr\<rparr>
        (put_user (user (lt_sender lt))
          \<lparr>current_balance = deflated env tr s, last_record_with_balance = n,
           timestamp_of_last_balance = now_of tr\<rparr> L))"
  using assms
  by (auto simp: calc_local_transfer_def deflated_def Let_def put_user_swap [of "user (lt_sender lt)" "user (lt_receiver lt)"])

end
