(* ===== verification/Ledger_Properties.thy ===== *)
theory Ledger_Properties
  imports Group_Ledger
begin

text \<open>
  The properties of the group ledger (\<open>src/blockchain_gradido.cpp\<close>): amounts recorded by transfers
  and creations, what a rejected or postponed transaction leaves alone, the reachable states of the
  waiting protocol, and how the indexes kept by a running node compare with those rebuilt from its
  records after a restart.
\<close>

section \<open>An environment for concrete inputs\<close>

text \<open>Exact arithmetic and no decay; it satisfies the contract of the rounding.\<close>

definition exact_env :: "rat decay_env" where
  "exact_env = ((\<lambda>_ x. x), 1)"

lemma decay_env_ok_exact: "decay_env_ok exact_env"
  by (simp add: decay_env_ok_def exact_env_def mpfr_rounding_def)

lemma round_even_of_int [simp]: "round_even (of_int k) = k"
  by (simp add: round_even_def)

lemma exact_decay_whole:
  "0 \<le> g \<Longrightarrow> g < 2 ^ 63 \<Longrightarrow>
   calculateDecay (\<lambda>_ x. x) \<lparr>gradido = g, decimal = 0\<rparr> n (1 :: rat) = \<lparr>gradido = g, decimal = 0\<rparr>"
  by (simp add: calculateDecay_def calculateDecayForDuration_def calculateDecayFactorForDuration_def
      calculateDecayFast_def trunc_int_def mpz_get_si_def mpfr_get_si_def round_even_def)

lemma exact_deflation_whole [simp]:
  assumes "unat a < 2 ^ 63"
  shows "calc_deflation exact_env t0 t1 (GradidoValue a 0) = GradidoValue a 0"
proof (cases "a = 0")
  case True
  then show ?thesis
    by (simp add: calc_deflation_def gv_zero_def)
next
  case False
  have "sint a = int (unat a)"
    using assms by (intro sint_eq_unat) simp
  moreover have "int (unat a) < 2 ^ 63"
    using assms by (metis of_nat_less_iff of_nat_numeral of_nat_power)
  moreover have "word_of_int (int (unat a)) = a"
    by simp
  ultimately show ?thesis
    using False exact_decay_whole [of "int (unat a)"]
    by (simp add: calc_deflation_def exact_env_def del: of_nat_unat)
qed


text \<open>Two users with ten gradidos each, and a transaction at second 1.\<close>

definition alice :: bytes where "alice = replicate PUB_KEY_LENGTH 1"
definition bob :: bytes where "bob = replicate PUB_KEY_LENGTH 2"

definition ten :: UserInfo where
  "ten = \<lparr>current_balance = GradidoValue 10 0, last_record_with_balance = 0,
          timestamp_of_last_balance = ts_zero\<rparr>"

definition two_users :: GroupLedger where
  "two_users = put_user bob ten (put_user alice ten GroupLedger_new)"

definition at_one :: "TransactionBody \<Rightarrow> Transaction" where
  "at_one b = Transaction_zero\<lparr>body := b, hedera_transaction :=
     HederaTransaction_zero\<lparr>consensusTimestamp := HederaTimestamp 1 0, sequenceNumber := 1\<rparr>\<rparr>"

definition entry_of :: "bytes \<Rightarrow> UserTransfer" where
  "entry_of u = \<lparr>new_balance = gv_zero, prev_transfer_rec_num = 0, user = u\<rparr>"

definition pay :: "u64 \<Rightarrow> LocalTransfer" where
  "pay a = \<lparr>lt_amount = GradidoValue a 0, lt_sender = entry_of alice, lt_receiver = entry_of bob\<rparr>"

lemma alice_bob [simp]: "alice \<noteq> bob" "bob \<noteq> alice"
  by (simp_all add: alice_def bob_def PUB_KEY_LENGTH_def)

lemma two_users_lookup [simp]:
  "fmlookup (user_index two_users) alice = Some ten" "fmlookup (user_index two_users) bob = Some ten"
  by (simp_all add: two_users_def)

lemma example_fields [simp]:
  "current_balance ten = GradidoValue 10 0"
  "lt_amount (pay a) = GradidoValue a 0" "user (lt_sender (pay a)) = alice" "user (lt_receiver (pay a)) = bob"
  by (simp_all add: ten_def pay_def entry_of_def)

lemma deflated_ten [simp]: "deflated exact_env tr ten = GradidoValue 10 0"
  by (simp add: deflated_def ten_def)


section \<open>Amounts\<close>

text \<open>
  C15. A local transfer between two different users whose sender has enough is accepted, and the
  balances it records conserve the money: the sender's new balance and the receiver's add up to
  their deflated balances, the sender's is the deflated balance less the amount.
\<close>

theorem transfer_records_conserve:
  assumes "decay_env_ok env" "gv_valid (lt_amount lt)"
    and "fmlookup (user_index L) (user (lt_sender lt)) = Some s"
    and "fmlookup (user_index L) (user (lt_receiver lt)) = Some r"
    and "user (lt_sender lt) \<noteq> user (lt_receiver lt)"
    and "gv_weak (current_balance s)" "unat (amount (current_balance s)) < 2 ^ 63"
    and "gv_weak (current_balance r)" "unat (amount (current_balance r)) < 2 ^ 63"
    and "\<not> gv_less (deflated env tr s) (lt_amount lt)"
    and "gv_value (deflated env tr r) + gv_value (lt_amount lt) < 2 ^ 64 * 1000000"
  shows "\<exists>lt' L'. calc_local_transfer env n tr lt L =
      Inr (True, tr\<lparr>body := local_transfer lt', result := result_code SUCCESS\<rparr>, L') \<and>
    gv_value (new_balance (lt_sender lt')) + gv_value (lt_amount lt) = gv_value (deflated env tr s) \<and>
    gv_value (new_balance (lt_sender lt')) + gv_value (new_balance (lt_receiver lt'))
      = gv_value (deflated env tr s) + gv_value (deflated env tr r)"
proof -
  have w: "gv_weak (deflated env tr s)" "gv_weak (deflated env tr r)"
    using assms by (simp_all add: deflated_def calc_deflation_weak)
  obtain b where b: "gv_minus (deflated env tr s) (lt_amount lt) = Inr b"
      "gv_value b = gv_value (deflated env tr s) - gv_value (lt_amount lt)"
      "gv_value (lt_amount lt) \<le> gv_value (deflated env tr s)"
    by (rule gv_minus_weak_value [OF w(1) assms(2,10)]) (rule that)
  have "gv_value (gv_plus (deflated env tr r) (lt_amount lt))
      = gv_value (deflated env tr r) + gv_value (lt_amount lt)"
    using gv_plus_weak_value(1) [OF w(2) assms(2)] assms(11) by simp
  then show ?thesis
    using b calc_local_transfer_eq [OF assms(3-5,10) b(1), of n]
    by (simp only:) (intro exI conjI, rule refl, simp_all)
qed

theorem transfer_records_conserve_witness:
  "\<exists>lt' L'. calc_local_transfer exact_env 5 (at_one (local_transfer (pay 3))) (pay 3) two_users =
      Inr (True, (at_one (local_transfer (pay 3)))
             \<lparr>body := local_transfer lt', result := result_code SUCCESS\<rparr>, L') \<and>
    gv_value (new_balance (lt_sender lt')) + 3000000 = 10000000 \<and>
    gv_value (new_balance (lt_sender lt')) + gv_value (new_balance (lt_receiver lt')) = 20000000"
  using transfer_records_conserve
    [OF decay_env_ok_exact, of "pay 3" two_users ten ten "at_one (local_transfer (pay 3))" 5]
  by (simp add: gv_valid_def gv_weak_def gv_value_def gv_less_def
      GRADIDO_VALUE_DECIMAL_AMOUNT_BASE_def del: result_code.simps)



definition grant :: "bytes \<Rightarrow> GradidoCreation" where
  "grant u = \<lparr>new_balance = gv_zero, prev_transfer_rec_num = 0, user = u,
              creation_amount = GradidoValue 4 0\<rparr>"




section \<open>Rejected and postponed transactions\<close>

text \<open>
  C17. A transaction that is stored with a result other than success leaves its own contents and the
  users, balances and friend groups as they were.
\<close>

theorem rejected_leaves_indexes:
  assumes "calc_fields_and_update_indexes_for env gf n tr L = Inr (True, tr', L')"
    and "result tr' \<noteq> result_code SUCCESS"
  shows "user_index L' = user_index L \<and> friend_group_index L' = friend_group_index L \<and> body tr' = body tr"
  using calc_fields_orderly [OF assms(1)] assms by (auto simp: orderly_def)

theorem rejected_leaves_indexes_witness:
  "\<exists>tr' L'. calc_fields_and_update_indexes_for exact_env \<lparr>get_group_blockchain = (\<lambda>_. None), has_sibling = False\<rparr>
      5 (at_one (local_transfer (pay 11))) two_users = Inr (True, tr', L') \<and>
    result tr' = result_code NOT_ENOUGH_GRADIDOS \<and> user_index L' = user_index two_users"
proof -
  let ?gf = "\<lparr>get_group_blockchain = (\<lambda>_. None), has_sibling = False\<rparr>"
  let ?tr = "at_one (local_transfer (pay 11))"
  have run: "calc_fields_and_update_indexes_for exact_env ?gf 5 ?tr two_users
      = Inr (True, ?tr\<lparr>result := result_code NOT_ENOUGH_GRADIDOS\<rparr>, two_users)"
    using deflated_ten [of ?tr]
    by (simp add: calc_fields_and_update_indexes_for_def calc_local_transfer_def reject_def at_one_def
        deflated_def gv_less_def two_users_def GroupLedger_new_def)
  from rejected_leaves_indexes [OF run] run show ?thesis
    by (simp add: at_one_def Transaction_zero_def)
qed

text \<open>
  A transaction that cannot proceed yet is not changed, and neither are users, balances, friend
  groups and known outbound transactions; it is postponed only while a paired transaction is awaited
  or because it is one half of a cross-group operation, whose request is then handed to the facade.
\<close>

theorem postponed_leaves_indexes:
  assumes "calc_fields_and_update_indexes_for env gf n tr L = Inr (False, tr', L')"
  shows "tr' = tr \<and> user_index L' = user_index L \<and> friend_group_index L' = friend_group_index L \<and>
    outbound_transactions L' = outbound_transactions L \<and>
    (waiting_for_paired L \<and> L' = L \<or>
     paired_requests L' = paired_requests L @ [(awaited_group L', paired_transaction L')])"
  using calc_fields_orderly [OF assms(1)] assms by (auto simp: orderly_def)

definition alone :: facade where
  "alone = \<lparr>get_group_blockchain = (\<lambda>_. None), has_sibling = True\<rparr>"

definition incoming :: InboundTransfer where
  "incoming = \<lparr>paired_transaction_id = HederaTimestamp 7 0, other_group = [103, 0],
     it_amount = GradidoValue 4 0, it_sender = alice, it_receiver = entry_of bob\<rparr>"

definition arriving :: MoveUser where
  "arriving = \<lparr>paired_transaction_id = HederaTimestamp 7 0, other_group = [103, 0],
     mu_user = replicate PUB_KEY_LENGTH 3,
     mu_state = \<lparr>new_balance = GradidoValue 4 0, prev_transfer_rec_num = 0\<rparr>\<rparr>"

lemma two_users_fields [simp]:
  "waiting_for_paired two_users = False" "paired_tr two_users = Transaction_zero"
  "awaited_group two_users = []" "paired_requests two_users = []"
  by (simp_all add: two_users_def GroupLedger_new_def)

lemma at_one_body [simp]: "body (at_one b) = b"
  by (simp add: at_one_def)

lemma incoming_postponed:
  "calc_fields_and_update_indexes_for exact_env alone 5 (at_one (inbound_transfer incoming)) two_users
     = Inr (False, at_one (inbound_transfer incoming),
         two_users\<lparr>awaited_group := [103], paired_transaction := HederaTimestamp 7 0,
           waiting_for_paired := False, paired_requests := [([103], HederaTimestamp 7 0)]\<rparr>)"
  by (simp add: calc_fields_and_update_indexes_for_def calc_inbound_transfer_def incoming_def
      entry_of_def c_str_def paired_half_def alone_def request_paired_def Let_def)

theorem postponed_leaves_indexes_witness:
  "\<exists>L'. calc_fields_and_update_indexes_for exact_env alone 5 (at_one (inbound_transfer incoming)) two_users
      = Inr (False, at_one (inbound_transfer incoming), L') \<and>
    user_index L' = user_index two_users \<and> paired_requests L' = [([103], HederaTimestamp 7 0)]"
  using postponed_leaves_indexes [OF incoming_postponed] incoming_postponed by simp

text \<open>
  An unknown sender is not rejected: a local or outbound transfer of a user without an entry
  dereferences the end iterator before the result is tested.
\<close>

theorem unknown_sender_undefined:
  "(fmlookup (user_index L) (user (lt_sender lt)) = None \<longrightarrow>
      undefined_behaviour (calc_local_transfer env n tr lt L)) \<and>
   (fmlookup (user_index L) (user (ot_sender ot)) = None \<longrightarrow>
      undefined_behaviour (calc_outbound_transfer env n tr ot L))"
  by (simp add: calc_local_transfer_def calc_outbound_transfer_def end_iterator_def)

theorem unknown_sender_undefined_witness:
  "undefined_behaviour
     (calc_local_transfer exact_env 5 (at_one (local_transfer (pay 3))) (pay 3) GroupLedger_new)"
  using unknown_sender_undefined 
    [of GroupLedger_new "pay 3" exact_env 5 "at_one (local_transfer (pay 3))"]
  by (simp add: GroupLedger_new_def)


section \<open>Cross-group transactions\<close>

text \<open>
  An inbound transfer succeeds only against an outbound transaction stored with success: the
  matching one received for this request, or the one the other group's blockchain gives for the
  paired transaction id.
\<close>

theorem inbound_needs_outbound:
  assumes "calc_inbound_transfer env gf n tr lt L = Inr (True, tr', L')"
    and "result tr' = result_code SUCCESS"
  shows "\<exists>g tt. c_str (other_group lt) = Inr g \<and> result tt = result_code SUCCESS \<and>
    (awaited_group L = g \<and> tt = paired_tr L \<and> outbound_id (body tt) = Some (paired_transaction_id lt) \<or>
     (\<exists>b seq. get_group_blockchain gf g = Some b \<and>
        peer_paired_transaction b (paired_transaction_id lt) = Some seq \<and>
        peer_transaction b seq = Some tt))"
proof -
  obtain g where g: "c_str (other_group lt) = Inr g"
    using assms by (auto simp: calc_inbound_transfer_def bind_res_Inr_iff)
  define found where
    "found \<longleftrightarrow> awaited_group L = g \<and> outbound_id (body (paired_tr L)) = Some (paired_transaction_id lt)"
  obtain tt where tt: "paired_half gf True found g (paired_transaction_id lt) L = Inr (Some tt)"
      "result tt = 0"
    using assms g
    by (cases "paired_half gf True found g (paired_transaction_id lt) L")
      (auto simp: calc_inbound_transfer_def outcome_defs found_def Let_def
        split: option.split_asm if_split_asm)
  then show ?thesis
    using g by (auto simp: paired_half_def found_def split: if_split_asm option.split_asm)
qed


definition granted :: Transaction where
  "granted = at_one (outbound_transfer \<lparr>paired_transaction_id = HederaTimestamp 7 0, other_group = [104, 0],
     ot_amount = GradidoValue 4 0, ot_sender = entry_of alice, ot_receiver = bob\<rparr>)"

lemma incoming_accepted:
  "calc_inbound_transfer exact_env alone 5 (at_one (inbound_transfer incoming)) incoming
     (two_users\<lparr>awaited_group := [103], paired_tr := granted\<rparr>) =
   Inr (True, (at_one (inbound_transfer incoming))
       \<lparr>body := inbound_transfer (incoming\<lparr>it_receiver := (entry_of bob)
           \<lparr>new_balance := gv_plus (GradidoValue 10 0) (GradidoValue 4 0), prev_transfer_rec_num := 0\<rparr>\<rparr>),
        result := result_code SUCCESS\<rparr>,
     put_user bob \<lparr>current_balance = GradidoValue 10 0, last_record_with_balance = 5,
         timestamp_of_last_balance = HederaTimestamp 1 0\<rparr>
       (two_users\<lparr>awaited_group := [103], paired_tr := granted\<rparr>))"
  by (simp add: calc_inbound_transfer_def incoming_def entry_of_def c_str_def paired_half_def now_of_def
      granted_def outbound_id_def at_one_def Transaction_zero_def Let_def ten_def two_users_def)

theorem inbound_needs_outbound_witness:
  "\<exists>tt. result tt = result_code SUCCESS \<and> outbound_id (body tt) = Some (paired_transaction_id incoming) \<and>
     tt = paired_tr (two_users\<lparr>awaited_group := [103], paired_tr := granted\<rparr>)"
  using inbound_needs_outbound [OF incoming_accepted] by (auto simp: alone_def)

text \<open>
  C19. A moved user or an inbound transfer that was postponed is decided as soon as its other half has
  been received: the result is success if the other half has success, and failure of the outbound
  transaction otherwise.
\<close>

theorem postponed_is_resumed:
  assumes "calc_fields_and_update_indexes_for env gf n tr L = Inr (False, tr, L')"
    and "\<not> waiting_for_paired L"
    and "body tr = move_user_inbound m \<and> move_outbound_id (body t) = Some (paired_transaction_id m) \<or>
         body tr = inbound_transfer lt \<and> outbound_id (body t) = Some (paired_transaction_id lt)"
  shows "\<exists>tr2 L2. calc_fields_and_update_indexes_for env gf n tr (on_paired_transaction_done t L')
      = Inr (True, tr2, L2) \<and>
    result tr2 = result_code (if result t = result_code SUCCESS then SUCCESS else OUTBOUND_TRANSACTION_FAILED)"
  using assms(3)
proof
  assume m: "body tr = move_user_inbound m \<and> move_outbound_id (body t) = Some (paired_transaction_id m)"
  then have "calc_move_user_inbound gf n tr m L = Inr (False, tr, L')"
    using assms(1,2) by (simp add: calc_fields_and_update_indexes_for_def)
  then obtain g where "c_str (other_group m) = Inr g" "fmlookup (user_index L) (mu_user m) = None"
      "L' = L\<lparr>awaited_group := g, paired_transaction := paired_transaction_id m,
         waiting_for_paired := True, paired_requests := paired_requests L @ [(g, paired_transaction_id m)]\<rparr>"
    by (rule move_user_inbound_postponed) (rule that)
  with m show ?thesis
    by (simp add: calc_fields_and_update_indexes_for_def calc_move_user_inbound_def reject_def
        on_paired_transaction_done_def paired_half_def Let_def)
next
  assume lt: "body tr = inbound_transfer lt \<and> outbound_id (body t) = Some (paired_transaction_id lt)"
  then have "calc_inbound_transfer env gf n tr lt L = Inr (False, tr, L')"
    using assms(1,2) by (simp add: calc_fields_and_update_indexes_for_def)
  then obtain g ui where "c_str (other_group lt) = Inr g"
      "fmlookup (user_index L) (user (it_receiver lt)) = Some ui"
      "L' = L\<lparr>awaited_group := g, paired_transaction := paired_transaction_id lt,
         waiting_for_paired := waiting_for_paired L,
         paired_requests := paired_requests L @ [(g, paired_transaction_id lt)]\<rparr>"
    by (rule inbound_transfer_postponed) (rule that)
  with lt show ?thesis
    by (simp add: calc_fields_and_update_indexes_for_def calc_inbound_transfer_def reject_def
        on_paired_transaction_done_def paired_half_def Let_def)
qed

theorem postponed_is_resumed_witness:
  "\<exists>L' tr2 L2. calc_fields_and_update_indexes_for exact_env alone 5 (at_one (inbound_transfer incoming))
       two_users = Inr (False, at_one (inbound_transfer incoming), L') \<and>
     calc_fields_and_update_indexes_for exact_env alone 5 (at_one (inbound_transfer incoming))
       (on_paired_transaction_done granted L') = Inr (True, tr2, L2) \<and>
     result tr2 = result_code SUCCESS"
  using postponed_is_resumed [OF incoming_postponed, where lt = incoming and t = granted and m = arriving]
  by (simp add: incoming_postponed)
    (simp add: granted_def outbound_id_def incoming_def at_one_def Transaction_zero_def)



section \<open>Reachable states of the waiting protocol\<close>

text \<open>
  The steps the ledger takes: a batch is processed, the facade delivers a paired transaction, the
  indexes are cleared, a stored record is indexed.
\<close>

inductive ledger_step :: "'a::floor_ceiling decay_env \<Rightarrow> GroupLedger \<Rightarrow> GroupLedger \<Rightarrow> bool"
  for env :: "'a decay_env" where
  process: "calc_fields_and_update_indexes_for env gf n tr L = Inr (proceed, tr', L') \<Longrightarrow> ledger_step env L L'"
| deliver: "ledger_step env L (on_paired_transaction_done t L)"
| clear: "ledger_step env L (clear_indexes L)"
| indexing: "index_record n r L = Inr L' \<Longrightarrow> ledger_step env L L'"

inductive ledger_reachable :: "'a::floor_ceiling decay_env \<Rightarrow> GroupLedger \<Rightarrow> bool"
  for env :: "'a decay_env" where
  start: "ledger_reachable env GroupLedger_new"
| step: "ledger_reachable env L \<Longrightarrow> ledger_step env L L' \<Longrightarrow> ledger_reachable env L'"

definition requested :: "GroupLedger \<Rightarrow> bool" where
  "requested L \<longleftrightarrow> (waiting_for_paired L \<longrightarrow>
     paired_requests L \<noteq> [] \<and> last (paired_requests L) = (awaited_group L, paired_transaction L))"

lemma requested_cong: "protocol L' = protocol L \<Longrightarrow> requested L' = requested L"
  by (simp add: protocol_def requested_def)

lemma set_balance_protocol: "set_balance u b n t L = Inr L' \<Longrightarrow> protocol L' = protocol L"
  by (auto simp: set_balance_def end_iterator_def protocol_def split: option.split_asm)

lemma index_record_protocol:
  assumes "index_record n r L = Inr L'"
  shows "protocol L' = protocol L"
proof -
  have field: "protocol (L\<lparr>user_index := a\<rparr>) = protocol L" "protocol (L\<lparr>friend_group_index := f\<rparr>) = protocol L"
      "protocol (L\<lparr>outbound_transactions := g\<rparr>) = protocol L"
      "protocol (L\<lparr>user_index := a, outbound_transactions := g\<rparr>) = protocol L" for a f g L
    by (simp_all add: protocol_def)
  show ?thesis
  proof (cases r)
    case (GRADIDO_TRANSACTION tr)
    then show ?thesis
      using assms
      by (cases "body tr")
        (auto simp: index_record_def index_transaction_def bind_res_Inr_iff field
          dest!: set_balance_protocol split: if_split_asm)
  qed (use assms in \<open>simp_all add: index_record_def\<close>)
qed


lemma ledger_step_requested: "ledger_step env L L' \<Longrightarrow> requested L \<Longrightarrow> requested L'"
proof (induction rule: ledger_step.induct)
  case (process gf n tr L proceed tr' L')
  then show ?case
    using calc_fields_orderly [OF process.hyps] by (auto simp: orderly_def requested_def protocol_def split: if_split_asm)
next
  case (indexing n r L L')
  then show ?case
    using requested_cong [OF index_record_protocol] by blast
qed (simp_all add: requested_def on_paired_transaction_done_def clear_indexes_def)

text \<open>
  C18. In every reachable state of the ledger, while it waits for a paired transaction the last request
  handed to the facade is the one for the awaited group and transaction.
\<close>

theorem waiting_was_requested:
  assumes "ledger_reachable env L" "waiting_for_paired L"
  shows "paired_requests L \<noteq> [] \<and> last (paired_requests L) = (awaited_group L, paired_transaction L)"
proof -
  from assms(1) have "requested L"
  proof (induction rule: ledger_reachable.induct)
    case start
    show ?case by (simp add: requested_def GroupLedger_new_def)
  qed (rule ledger_step_requested)
  with assms(2) show ?thesis
    by (simp add: requested_def)
qed

lemma arriving_waits:
  "calc_fields_and_update_indexes_for exact_env alone 0 (at_one (move_user_inbound arriving)) GroupLedger_new
     = Inr (False, at_one (move_user_inbound arriving),
         GroupLedger_new\<lparr>awaited_group := [103], paired_transaction := HederaTimestamp 7 0,
           waiting_for_paired := True, paired_requests := [([103], HederaTimestamp 7 0)]\<rparr>)"
  by (simp add: calc_fields_and_update_indexes_for_def calc_move_user_inbound_def arriving_def
      GroupLedger_new_def c_str_def paired_half_def alone_def request_paired_def Let_def)

theorem waiting_was_requested_witness:
  "\<exists>L. ledger_reachable exact_env L \<and> waiting_for_paired L \<and>
     last (paired_requests L) = (awaited_group L, paired_transaction L)"
proof -
  note r = ledger_reachable.step [OF ledger_reachable.start ledger_step.process [OF arriving_waits]]
  have "waiting_for_paired (GroupLedger_new\<lparr>awaited_group := [103], paired_transaction := HederaTimestamp 7 0,
      waiting_for_paired := True, paired_requests := [([103], HederaTimestamp 7 0)]\<rparr>)"
    by simp
  with r waiting_was_requested [OF r this] show ?thesis
    by blast
qed



section \<open>A running node and a restarted one\<close>

text \<open>The rebuilding of the indexes from numbered records.\<close>

fun replay :: "(u64 \<times> GradidoRecord) list \<Rightarrow> GroupLedger \<Rightarrow> GroupLedger res" where
  "replay [] L = Inr L"
| "replay ((n, r) # rs) L = bind_res (index_record n r L) (replay rs)"

definition keeps_index :: "TransactionBody \<Rightarrow> bool" where
  "keeps_index b = (case b of
      gradido_creation _ \<Rightarrow> True | add_group_friend _ \<Rightarrow> True | remove_group_friend _ \<Rightarrow> True
    | add_user _ \<Rightarrow> True | _ \<Rightarrow> False)"

lemma creation_replayed:
  "calc_gradido_creation env n tr c L = Inr (p, tr', L') \<Longrightarrow>
   p \<and> index_record n (GRADIDO_TRANSACTION tr') L = Inr L' \<and> protocol L' = protocol L"
  by (cases "fmlookup (user_index L) (user c)")
    (auto simp: calc_gradido_creation_def index_record_def index_transaction_def set_balance_def
      reject_def gv_plus_assign_def now_of_def protocol_def Let_def)

lemma friend_replayed:
  "body tr = add_group_friend g \<Longrightarrow> calc_add_group_friend tr g L = Inr (p, tr', L') \<Longrightarrow>
   p \<and> index_record n (GRADIDO_TRANSACTION tr') L = Inr L' \<and> protocol L' = protocol L"
  "body tr = remove_group_friend g \<Longrightarrow> calc_remove_group_friend tr g L = Inr (p, tr', L') \<Longrightarrow>
   p \<and> index_record n (GRADIDO_TRANSACTION tr') L = Inr L' \<and> protocol L' = protocol L"
  by (cases "c_str g"; cases "fmlookup (friend_group_index L) (projr (c_str g))";
      auto simp: calc_add_group_friend_def calc_remove_group_friend_def index_record_def
        index_transaction_def reject_def protocol_def)+

lemma add_user_replayed:
  "body tr = add_user u \<Longrightarrow> calc_add_user n tr u L = Inr (p, tr', L') \<Longrightarrow>
   p \<and> index_record n (GRADIDO_TRANSACTION tr') L = Inr L' \<and> protocol L' = protocol L"
  by (cases "fmlookup (user_index L) u")
    (auto simp: calc_add_user_def index_record_def index_transaction_def reject_def now_of_def protocol_def)

lemma step_replayed:
  assumes "calc_fields_and_update_indexes_for env gf n tr L = Inr (p, tr', L')"
    and "\<not> waiting_for_paired L" "keeps_index (body tr)"
  shows "p" "index_record n (GRADIDO_TRANSACTION tr') L = Inr L'" "\<not> waiting_for_paired L'"
proof -
  have "p \<and> index_record n (GRADIDO_TRANSACTION tr') L = Inr L' \<and> protocol L' = protocol L"
  proof (cases "body tr")
    case (gradido_creation c)
    with assms show ?thesis
      by (intro creation_replayed) (simp add: calc_fields_and_update_indexes_for_def)
  next
    case (add_group_friend g)
    with assms show ?thesis
      by (intro friend_replayed(1) [OF add_group_friend]) (simp add: calc_fields_and_update_indexes_for_def)
  next
    case (remove_group_friend g)
    with assms show ?thesis
      by (intro friend_replayed(2) [OF remove_group_friend]) (simp add: calc_fields_and_update_indexes_for_def)
  next
    case (add_user u)
    with assms show ?thesis
      by (intro add_user_replayed [OF add_user]) (simp add: calc_fields_and_update_indexes_for_def)
  qed (use assms in \<open>simp_all add: keeps_index_def\<close>)
  then show "p" "index_record n (GRADIDO_TRANSACTION tr') L = Inr L'" "\<not> waiting_for_paired L'"
    using assms(2) by (auto simp: protocol_def)
qed

definition balance :: "bytes \<Rightarrow> GroupLedger \<Rightarrow> GradidoValue option" where
  "balance u L = map_option current_balance (fmlookup (user_index L) u)"

text \<open>
  An accepted transfer between different users is not booked in a running node: the indexes then
  hold the deflated balances of sender and receiver, while the stored record, and so a restarted node,
  has the sender's balance less the amount and the receiver's plus the amount.
\<close>

theorem live_transfer_not_booked:
  assumes "fmlookup (user_index L) (user (lt_sender lt)) = Some s"
    and "fmlookup (user_index L) (user (lt_receiver lt)) = Some r"
    and "user (lt_sender lt) \<noteq> user (lt_receiver lt)"
    and "\<not> gv_less (deflated env tr s) (lt_amount lt)" "gv_minus (deflated env tr s) (lt_amount lt) = Inr b"
  shows "\<exists>tr' L1 L2. calc_local_transfer env n tr lt L = Inr (True, tr', L1) \<and>
    index_record n (GRADIDO_TRANSACTION tr') L = Inr L2 \<and>
    balance (user (lt_sender lt)) L1 = Some (deflated env tr s) \<and>
    balance (user (lt_receiver lt)) L1 = Some (deflated env tr r) \<and>
    balance (user (lt_sender lt)) L2 = Some b \<and>
    balance (user (lt_receiver lt)) L2 = Some (gv_plus (deflated env tr r) (lt_amount lt))"
  using assms
  by (simp add: calc_local_transfer_eq [OF assms] index_record_def index_transaction_def set_balance_def
      balance_def)

theorem live_transfer_not_booked_witness:
  "\<exists>tr' L1 L2. calc_local_transfer exact_env 5 (at_one (local_transfer (pay 3))) (pay 3) two_users
      = Inr (True, tr', L1) \<and>
    index_record 5 (GRADIDO_TRANSACTION tr') two_users = Inr L2 \<and>
    balance alice L1 = Some (GradidoValue 10 0) \<and> balance alice L2 = Some (GradidoValue 7 0)"
  using live_transfer_not_booked
    [of two_users "pay 3" ten ten exact_env "at_one (local_transfer (pay 3))" "GradidoValue 7 0" 5]
  by (auto simp: gv_less_def gv_minus_def)

text \<open>
  So a user can spend the same money again: with ten gradidos, two transfers of eight each, one
  after the other, are both accepted.
\<close>

lemma money_spent_twice:
  "\<exists>tr1 L1 tr2 L2.
    calc_fields_and_update_indexes_for exact_env alone 5 (at_one (local_transfer (pay 8))) two_users = Inr (True, tr1, L1) \<and>
    calc_fields_and_update_indexes_for exact_env alone 6 (at_one (local_transfer (pay 8))) L1 = Inr (True, tr2, L2) \<and>
    result tr1 = result_code SUCCESS \<and> result tr2 = result_code SUCCESS"
  using deflated_ten
  by (simp add: calc_fields_and_update_indexes_for_def calc_local_transfer_def deflated_def gv_less_def
      gv_minus_def Let_def)

end
