(* ===== verification/Chain_Properties.thy ===== *)
theory Chain_Properties
  imports Blockchain_Base
begin

text \<open>
  Properties of the common blockchain code: the reachable states of its validation and fetching
  protocol under every order of task execution and message delivery, and, for every concrete
  blockchain that fulfils the contract \<open>chain_child\<close>, what happens to a transaction that arrives in
  order, again, or too early.
\<close>

section \<open>Steps\<close>

text \<open>
  The worker pool runs a pushed task once; a request to a sibling is answered by a stream of messages
  that ends with one that has no success; transactions arrive at any time. The first validation
  task is pushed when the blockchain is created.
\<close>

definition take_request :: "request \<Rightarrow> ('p, 'c) chain \<Rightarrow> ('p, 'c) chain" where
  "take_request r b = b\<lparr>outgoing := remove1 r (outgoing b)\<rparr>"

inductive chain_step :: "('p, 'c) child \<Rightarrow> ('p, 'c) chain \<Rightarrow> ('p, 'c) chain \<Rightarrow> bool"
  for ch :: "('p, 'c) child" where
  validation: "push_task ContinueValidationTask d \<in> set (outgoing b) \<Longrightarrow>
    continue_validation ch now sibling (take_request (push_task ContinueValidationTask d) b) = Inr b' \<Longrightarrow>
    chain_step ch b b'"
| transactions: "push_task ContinueTransactionsTask d \<in> set (outgoing b) \<Longrightarrow>
    continue_with_transactions ch now (take_request (push_task ContinueTransactionsTask d) b) = Inr b' \<Longrightarrow>
    chain_step ch b b'"
| initialisation: "push_task ContinueInitTask d \<in> set (outgoing b) \<Longrightarrow>
    chain_step ch b (take_request (push_task ContinueInitTask d) b)"
| checksum: "require_block_checksums e \<in> set (outgoing b) \<Longrightarrow>
    on_block_checksum ch (Some x) b = Inr b' \<Longrightarrow> chain_step ch b b'"
| checksums_end: "require_block_checksums e \<in> set (outgoing b) \<Longrightarrow>
    on_block_checksum ch None (take_request (require_block_checksums e) b) = Inr b' \<Longrightarrow> chain_step ch b b'"
| block_record: "require_block_data e i \<in> set (outgoing b) \<Longrightarrow>
    on_block_record ch now (Some bs) b = Inr b' \<Longrightarrow> chain_step ch b b'"
| block_end: "require_block_data e i \<in> set (outgoing b) \<Longrightarrow>
    on_block_record ch now None (take_request (require_block_data e i) b) = Inr b' \<Longrightarrow> chain_step ch b b'"
| arrival: "add_transaction ch now batch b = Inr b' \<Longrightarrow> chain_step ch b b'"

inductive chain_reachable :: "('p, 'c) child \<Rightarrow> ('p, 'c) chain \<Rightarrow> bool"
  for ch :: "('p, 'c) child" where
  created: "chain_reachable ch (send (push_task ContinueValidationTask 0) (chain_new s c))"
| step: "chain_reachable ch b \<Longrightarrow> chain_step ch b b' \<Longrightarrow> chain_reachable ch b'"


section \<open>What drives the protocol\<close>

definition validation_tasks :: "request list \<Rightarrow> nat" where
  "validation_tasks rs =
     length (filter (\<lambda>r. case r of push_task t _ \<Rightarrow> t = ContinueValidationTask | _ \<Rightarrow> False) rs)"

definition quiet :: "('p, 'c) child \<Rightarrow> bool" where
  "quiet ch \<longleftrightarrow> (\<forall>c. validation_tasks (fst (child_ready ch c)) = 0)"

text \<open>
  The invariant: exactly one validation task is pending while the blockchain has to be validated and
  none otherwise, and while it fetches, the request it waits for has been made.
\<close>

definition validation_due :: "State \<Rightarrow> nat" where
  "validation_due st = (if st = INITIAL \<or> st = VALIDATING then 1 else 0)"

definition driven :: "('p, 'c) chain \<Rightarrow> bool" where
  "driven b \<longleftrightarrow>
     validation_tasks (outgoing b) = validation_due (chain_state b) \<and>
     (chain_state b = FETCHING_CHECKSUMS \<longrightarrow> require_block_checksums (fetch_endpoint b) \<in> set (outgoing b)) \<and>
     (chain_state b = FETCHING_BLOCKS \<longrightarrow>
        require_block_data (fetch_endpoint b) (block_to_fetch b) \<in> set (outgoing b))"

lemma validation_tasks_simps [simp]:
  "validation_tasks [] = 0"
  "validation_tasks (rs @ qs) = validation_tasks rs + validation_tasks qs"
  "validation_tasks [push_task ContinueValidationTask d] = 1"
  "validation_tasks [push_task ContinueTransactionsTask d] = 0"
  "validation_tasks [push_task ContinueInitTask d] = 0"
  "validation_tasks [require_block_checksums e] = 0"
  "validation_tasks [require_block_data e i] = 0"
  by (simp_all add: validation_tasks_def)

lemma validation_tasks_remove1:
  "r \<in> set rs \<Longrightarrow> validation_tasks (remove1 r rs) + validation_tasks [r] = validation_tasks rs"
  by (induction rs) (auto simp: validation_tasks_def)

lemma send_simps [simp]:
  "outgoing (send r b) = outgoing b @ [r]" "chain_state (send r b) = chain_state b"
  "fetch_endpoint (send r b) = fetch_endpoint b" "block_to_fetch (send r b) = block_to_fetch b"
  "storage (send r b) = storage b" "indexes (send r b) = indexes b" "inbound (send r b) = inbound b"
  by (simp_all add: send_def)

lemma take_request_simps [simp]:
  "outgoing (take_request r b) = remove1 r (outgoing b)" "chain_state (take_request r b) = chain_state b"
  "fetch_endpoint (take_request r b) = fetch_endpoint b" "block_to_fetch (take_request r b) = block_to_fetch b"
  "storage (take_request r b) = storage b" "indexes (take_request r b) = indexes b"
  "inbound (take_request r b) = inbound b" "indexed_blocks (take_request r b) = indexed_blocks b"
  by (simp_all add: take_request_def)

lemma reset_validation_simps [simp]:
  "chain_state (reset_validation ch b) = INITIAL"
  "outgoing (reset_validation ch b) =
     outgoing b @ [push_task ContinueValidationTask BLOCKCHAIN_RESET_TIMEOUT_SECONDS]"
  "inbound (reset_validation ch b) = inbound b"
  "storage (reset_validation ch b) = Block_Storage.truncate 0 (storage b)"
  by (simp_all add: reset_validation_def)

lemma start_validation_simps [simp]:
  "chain_state (start_validation ch b) = VALIDATING"
  "outgoing (start_validation ch b) = outgoing b @ [push_task ContinueValidationTask 0]"
  by (simp_all add: start_validation_def)


lemma validate_next_batch_driven:
  assumes run: "validate_next_batch ch now b = Inr b'"
    and "validation_tasks (outgoing b) = 0" "chain_state b = VALIDATING" "quiet ch"
  shows "driven b'"
proof -
  have quiet: "validation_tasks rs = 0" if "child_ready ch c = (rs, c1)" for rs c c1
    using assms(4) that unfolding quiet_def by (metis fst_conv)
  show ?thesis
    using assms(2,3) run quiet
    by (auto simp: validate_next_batch_def bind_res_Inr_iff driven_def validation_due_def Let_def
        split: if_split_asm prod.splits)
qed

lemma continue_validation_driven:
  assumes "continue_validation ch now sibling b = Inr b'" "validation_tasks (outgoing b) = 0" "quiet ch"
  shows "driven b'"
proof (cases "chain_state b")
  case INITIAL
  have quiet: "validation_tasks rs = 0" if "child_ready ch c = (rs, c1)" for rs c c1
    using assms(3) that unfolding quiet_def by (metis fst_conv)
  show ?thesis
    using assms(1,2) INITIAL quiet
    by (auto simp: continue_validation_def driven_def validation_due_def
        split: if_split_asm option.split_asm prod.splits)
next
  case VALIDATING
  then show ?thesis
    using assms validate_next_batch_driven by (auto simp: continue_validation_def)
qed (use assms in \<open>simp_all add: continue_validation_def\<close>)

text \<open>A round of appending either goes on as it was, stops with the batch put back, or resets.\<close>

lemma continue_round_outcome:
  assumes "continue_round ch now batch b = Inr (go_on, b1)"
  shows "chain_state b1 = chain_state b \<and> outgoing b1 = outgoing b \<or>
    \<not> go_on \<and> chain_state b1 = INITIAL \<and>
      outgoing b1 = outgoing b @ [push_task ContinueValidationTask BLOCKCHAIN_RESET_TIMEOUT_SECONDS]"
  using assms
  by (auto simp: continue_round_def bind_res_Inr_iff Let_def
      split: if_split_asm option.split_asm list.split_asm)

lemma continue_loop_outcome:
  assumes "continue_loop ch now n b = Inr (finished, b1)"
  shows "chain_state b1 = chain_state b \<and> outgoing b1 = outgoing b \<or>
    \<not> finished \<and> chain_state b1 = INITIAL \<and>
      outgoing b1 = outgoing b @ [push_task ContinueValidationTask BLOCKCHAIN_RESET_TIMEOUT_SECONDS]"
  using assms
proof (induction n arbitrary: b)
  case (Suc n)
  show ?case
  proof (cases "inbound b")
    case (Cons batch q)
    with Suc.prems obtain go_on b2 where
      r: "continue_round ch now batch (b\<lparr>inbound := q\<rparr>) = Inr (go_on, b2)"
         "(if go_on then continue_loop ch now n b2 else Inr (False, b2)) = Inr (finished, b1)"
      by (auto simp: bind_res_Inr_iff)
    show ?thesis
      using continue_round_outcome [OF r(1)] r(2) Suc.IH [of b2] by (cases go_on) auto
  qed (use Suc.prems in simp)
qed simp

lemma continue_with_transactions_driven:
  assumes "continue_with_transactions ch now b = Inr b'" "driven b"
  shows "driven b'"
proof (cases "chain_state b = READY")
  case True
  with assms(1) obtain finished b1 where
    "continue_loop ch now (batch_size ch) b = Inr (finished, b1)"
    "b' = (if finished \<and> inbound b1 \<noteq> [] then send (push_task ContinueTransactionsTask 0) b1 else b1)"
    by (auto simp: continue_with_transactions_def bind_res_Inr_iff)
  with continue_loop_outcome [OF this(1)] True assms(2) show ?thesis
    by (auto simp: driven_def validation_due_def)
qed (use assms in \<open>simp add: continue_with_transactions_def\<close>)

lemma on_block_checksum_driven:
  assumes "on_block_checksum ch x b = Inr b'" "validation_tasks (outgoing b) = 0"
    and "x \<noteq> None \<Longrightarrow> require_block_checksums (fetch_endpoint b) \<in> set (outgoing b)"
  shows "driven b'"
  using assms
  by (auto simp: on_block_checksum_def driven_def validation_due_def fetch_next_block_def
      split: if_split_asm option.split_asm)

lemma on_block_record_driven:
  assumes "on_block_record ch now x b = Inr b'" "validation_tasks (outgoing b) = 0"
    and "x \<noteq> None \<Longrightarrow> require_block_data (fetch_endpoint b) (block_to_fetch b) \<in> set (outgoing b)"
  shows "driven b'"
  using assms
  by (auto simp: on_block_record_def driven_def validation_due_def fetch_next_block_def bind_res_Inr_iff
      split: if_split_asm option.split_asm)


lemma driven_take_other:
  assumes "driven b" "r \<in> set (outgoing b)" "validation_tasks [r] = 0"
    and "\<And>e. r \<noteq> require_block_checksums e" "\<And>e i. r \<noteq> require_block_data e i"
  shows "driven (take_request r b)"
  using assms(1,3) validation_tasks_remove1 [OF assms(2)] assms(4,5) [symmetric]
  by (simp add: driven_def in_set_remove1)

lemma chain_step_driven:
  assumes "chain_step ch b b'" "driven b" "quiet ch"
  shows "driven b'"
  using assms
proof (induction rule: chain_step.induct)
  case (validation d b now sibling b')
  have "validation_tasks (outgoing b) \<le> 1"
    using validation.prems(1) by (simp add: driven_def validation_due_def)
  then show ?case
    using validation validation_tasks_remove1 [OF validation.hyps(1)]
    by (intro continue_validation_driven [OF validation.hyps(2)]) simp_all
next
  case (transactions d b now b')
  then show ?case
    by (intro continue_with_transactions_driven [OF transactions.hyps(2)] driven_take_other) simp_all
next
  case (initialisation d b)
  then show ?case
    by (intro driven_take_other) simp_all
next
  case (checksum e b x b')
  then have "chain_state b = FETCHING_CHECKSUMS"
    by (auto simp: on_block_checksum_def split: if_split_asm)
  with checksum.prems show ?case
    by (intro on_block_checksum_driven [OF checksum.hyps(2)]) (simp_all add: driven_def validation_due_def)
next
  case (checksums_end e b b')
  then have "chain_state b = FETCHING_CHECKSUMS"
    by (auto simp: on_block_checksum_def split: if_split_asm)
  with checksums_end.prems show ?case
    using validation_tasks_remove1 [OF checksums_end.hyps(1)]
    by (intro on_block_checksum_driven [OF checksums_end.hyps(2)]) (simp_all add: driven_def validation_due_def)
next
  case (block_record e i b now bs b')
  then have "chain_state b = FETCHING_BLOCKS"
    by (auto simp: on_block_record_def split: if_split_asm)
  with block_record.prems show ?case
    by (intro on_block_record_driven [OF block_record.hyps(2)]) (simp_all add: driven_def validation_due_def)
next
  case (block_end e i b now b')
  then have "chain_state b = FETCHING_BLOCKS"
    by (auto simp: on_block_record_def split: if_split_asm)
  with block_end.prems show ?case
    using validation_tasks_remove1 [OF block_end.hyps(1)]
    by (intro on_block_record_driven [OF block_end.hyps(2)]) (simp_all add: driven_def validation_due_def)
next
  case (arrival now batch b b')
  then obtain q where "continue_with_transactions ch now (b\<lparr>inbound := q\<rparr>) = Inr b'"
    by (auto simp: add_transaction_def bind_res_Inr_iff)
  then show ?case
    by (rule continue_with_transactions_driven) (use arrival.prems(1) in \<open>simp add: driven_def\<close>)
qed

lemma chain_reachable_driven: "chain_reachable ch b \<Longrightarrow> quiet ch \<Longrightarrow> driven b"
proof (induction rule: chain_reachable.induct)
  case (created s c)
  show ?case
    by (simp add: driven_def chain_new_def validation_due_def)
qed (rule chain_step_driven)

text \<open>
  C1. In every reachable state, under every interleaving, a validation task that is about to run finds
  the blockchain in a state in which \<open>continue_validation\<close> does not throw for a wrong state, and it is
  the only one.
\<close>

theorem validation_never_in_wrong_state:
  assumes "chain_reachable ch b" "quiet ch" "push_task ContinueValidationTask d \<in> set (outgoing b)"
  shows "(chain_state b = INITIAL \<or> chain_state b = VALIDATING) \<and>
    validation_tasks (outgoing (take_request (push_task ContinueValidationTask d) b)) = 0"
proof -
  have "driven b"
    using assms(1,2) by (rule chain_reachable_driven)
  then show ?thesis
    using validation_tasks_remove1 [OF assms(3)]
    by (auto simp: driven_def validation_due_def split: if_split_asm)
qed

text \<open>
  A blockchain of numbers for concrete inputs: a record is its own sequence number, the latest one
  is read from the last record but one, as in the group register.
\<close>

definition number_child :: "(u8, unit) child" where
  "number_child =
     \<lparr>child_latest = (\<lambda>now s.
        if get_rec_count s = 0 then Inr (None, s)
        else bind_res (get_record GRADIDO_BLOCK_SIZE now (get_rec_count s - 2) s) (\<lambda>((r, _), s1).
          case r of Some (PAYLOAD p) \<Rightarrow> Inr (Some (ucast p), s1) | _ \<Rightarrow> Inl (Undefined ''no payload''))),
      child_id = (\<lambda>rs. case rs of [] \<Rightarrow> Inl (Undefined ''empty buffer'') | r # _ \<Rightarrow> Inr (ucast r)),
      child_calc = (\<lambda>_ rs c. Inr (True, rs, c)), child_clear = id,
      child_index = (\<lambda>_ _ s c. Inr (True, s, c)), child_ready = Pair [], child_valid = (\<lambda>_. True),
      chain_sha = id, chain_img = (\<lambda>r. case r of PAYLOAD p \<Rightarrow> [1, p] | _ \<Rightarrow> []), sizeof_T = 1, from_bytes = hd,
      batch_size = 10, topic_reset_allowed = False\<rparr>"

definition fresh_chain :: "u8 Blockchain \<Rightarrow> (u8, unit) chain" where
  "fresh_chain s = send (push_task ContinueValidationTask 0) (chain_new s ())"

definition blank_store :: "u8 Blockchain" where
  "blank_store = projr (Blockchain_new GRADIDO_BLOCK_SIZE 0 fmempty [] 100 100)"

lemma quiet_number_child: "quiet number_child"
  by (simp add: quiet_def number_child_def)

lemma fresh_chain_reachable: "chain_reachable number_child (fresh_chain s)"
  unfolding fresh_chain_def by (rule chain_reachable.created)

theorem validation_never_in_wrong_state_witness:
  "chain_state (fresh_chain blank_store) = INITIAL \<and>
   validation_tasks (outgoing (take_request (push_task ContinueValidationTask 0) (fresh_chain blank_store))) = 0"
  using validation_never_in_wrong_state [OF fresh_chain_reachable quiet_number_child, of 0 blank_store]
  by (simp add: fresh_chain_def chain_new_def)

text \<open>
  C2. The protocol does not get stuck: in every reachable state the blockchain is ready, or a
  validation task is pending, or the request whose answer it waits for has been made.
\<close>

theorem chain_not_stuck:
  assumes "chain_reachable ch b" "quiet ch"
  shows "chain_state b = READY \<or> (\<exists>d. push_task ContinueValidationTask d \<in> set (outgoing b)) \<or>
    chain_state b = FETCHING_CHECKSUMS \<and> require_block_checksums (fetch_endpoint b) \<in> set (outgoing b) \<or>
    chain_state b = FETCHING_BLOCKS \<and> require_block_data (fetch_endpoint b) (block_to_fetch b) \<in> set (outgoing b)"
proof -
  have d: "driven b"
    using assms by (rule chain_reachable_driven)
  have "\<exists>d. push_task ContinueValidationTask d \<in> set (outgoing b)" if "validation_tasks (outgoing b) = 1"
  proof -
    have "filter (\<lambda>r. case r of push_task t _ \<Rightarrow> t = ContinueValidationTask | _ \<Rightarrow> False) (outgoing b) \<noteq> []"
      using that by (auto simp: validation_tasks_def)
    then obtain r where r: "r \<in> set (outgoing b)"
        "case r of push_task t _ \<Rightarrow> t = ContinueValidationTask | _ \<Rightarrow> False"
      by (auto simp: filter_empty_conv)
    show ?thesis
    proof (cases r)
      case (push_task t n)
      with r show ?thesis by auto
    qed (use r(2) in simp_all)
  qed
  with d show ?thesis
    by (cases "chain_state b") (auto simp: driven_def validation_due_def)
qed


lemma fetching_reachable:
  "chain_reachable number_child
     (send (require_block_checksums [1]) ((fresh_chain blank_store)
        \<lparr>outgoing := [], fetch_endpoint := [1], chain_state := FETCHING_CHECKSUMS, fetched_record_count := 0,
         fetched_checksums := [], fetched_checksum_expecting_last := False\<rparr>))"
proof (rule chain_reachable.step [OF fresh_chain_reachable chain_step.validation [where d = 0]])
  have "get_block_count blank_store = 0"
    by (simp add: blank_store_def Blockchain_new_def GRADIDO_BLOCK_SIZE_def get_block_count_def
        FileTile_new_def get_tile_count_def)
  then show "continue_validation number_child 0 (Some [1])
      (take_request (push_task ContinueValidationTask 0) (fresh_chain blank_store)) =
    Inr (send (require_block_checksums [1]) ((fresh_chain blank_store)
        \<lparr>outgoing := [], fetch_endpoint := [1], chain_state := FETCHING_CHECKSUMS, fetched_record_count := 0,
         fetched_checksums := [], fetched_checksum_expecting_last := False\<rparr>))"
    by (simp add: continue_validation_def fresh_chain_def chain_new_def take_request_def send_def)
qed (simp add: fresh_chain_def)

theorem chain_not_stuck_witness:
  "\<exists>b. chain_reachable number_child b \<and> chain_state b = FETCHING_CHECKSUMS \<and>
     require_block_checksums (fetch_endpoint b) \<in> set (outgoing b)"
  using chain_not_stuck [OF fetching_reachable quiet_number_child] fetching_reachable by force



section \<open>Fetching a blockchain\<close>

fun feed :: "('p, 'c) child \<Rightarrow> nat \<Rightarrow> bytes option list \<Rightarrow> ('p, 'c) chain \<Rightarrow> ('p, 'c) chain res" where
  "feed ch now [] b = Inr b"
| "feed ch now (x # xs) b = bind_res (on_block_record ch now x b) (feed ch now xs)"

lemma feed_append: "feed ch now (xs @ ys) b = bind_res (feed ch now xs b) (feed ch now ys)"
  by (induction xs arbitrary: b) (auto simp: bind_res_def split: sum.split)

text \<open>A bystander: nothing but the storage and the number of records received changes.\<close>

definition received :: "nat \<Rightarrow> 'p Blockchain \<Rightarrow> ('p, 'c) chain \<Rightarrow> ('p, 'c) chain" where
  "received n s b = b\<lparr>storage := s, fetched_data_count := of_nat n\<rparr>"

lemma received_simps [simp]:
  "chain_state (received n s b) = chain_state b" "storage (received n s b) = s"
  "fetched_data_count (received n s b) = of_nat n" "outgoing (received n s b) = outgoing b"
  "fetched_record_count (received n s b) = fetched_record_count b"
  "block_to_fetch (received n s b) = block_to_fetch b"
  "fetched_checksums (received n s b) = fetched_checksums b"
  "received m s' (received n s b) = received m s' b"
  by (simp_all add: received_def)

lemma fetched_mod:
  "n < GRADIDO_BLOCK_SIZE \<Longrightarrow> (of_nat n :: u64) mod of_nat GRADIDO_BLOCK_SIZE = of_nat n"
  by (intro word_unat_eq_iff [THEN iffD2])
    (simp add: unat_mod GRADIDO_BLOCK_SIZE_def take_bit_nat_eq_self unat_of_nat)

lemma record_stored:
  assumes "chain_state b = FETCHING_BLOCKS" "stores GRADIDO_BLOCK_SIZE s ps"
    and "n < GRADIDO_BLOCK_SIZE - 1" "n + 1 < unat (fetched_record_count b)"
    and "sizeof_T ch \<le> length bs" "child_valid ch [from_bytes ch bs]"
  obtains s' where "on_block_record ch now (Some bs) (received n s b) = Inr (received (n + 1) s' b)"
    "stores GRADIDO_BLOCK_SIZE s' (ps @ [from_bytes ch bs])"
proof -
  obtain s' where s': "append_all (chain_sha ch) (chain_img ch) GRADIDO_BLOCK_SIZE now [from_bytes ch bs] OK s
      = Inr ((True, OK), s')" "stores GRADIDO_BLOCK_SIZE s' (ps @ [from_bytes ch bs])"
    using append_all_refines [OF assms(2)] by blast
  have n: "unat (of_nat n :: u64) = n" "unat (of_nat n + 1 :: u64) = n + 1"
    using assms(3) by (simp_all add: unat_of_nat unat_word_ariths GRADIDO_BLOCK_SIZE_def)
  have "(of_nat n :: u64) mod of_nat GRADIDO_BLOCK_SIZE < of_nat (GRADIDO_BLOCK_SIZE - 1)"
    using assms(3) fetched_mod [of n] by (simp add: word_less_nat_alt n GRADIDO_BLOCK_SIZE_def)
  moreover have "(of_nat n + 1 :: u64) < fetched_record_count b"
    using assms(4) by (simp only: word_less_nat_alt n)
  ultimately have "on_block_record ch now (Some bs) (received n s b) = Inr (received (n + 1) s' b)"
    using assms(1,5,6) s'(1)
    by (simp add: on_block_record_def validated_append_def received_def add.commute)
  then show thesis
    using s'(2) by (rule that)
qed

lemma feed_records:
  assumes "chain_state b = FETCHING_BLOCKS" "stores GRADIDO_BLOCK_SIZE s ps"
    and "n + length bss < GRADIDO_BLOCK_SIZE" "n + length bss < unat (fetched_record_count b)"
    and "\<And>bs. bs \<in> set bss \<Longrightarrow> sizeof_T ch \<le> length bs" "\<And>rs. child_valid ch rs"
  shows "\<exists>s'. feed ch now (map Some bss) (received n s b) = Inr (received (n + length bss) s' b) \<and>
    stores GRADIDO_BLOCK_SIZE s' (ps @ map (from_bytes ch) bss)"
  using assms(2-5)
proof (induction bss arbitrary: n s ps)
  case (Cons bs bss)
  obtain s1 where s1: "on_block_record ch now (Some bs) (received n s b) = Inr (received (n + 1) s1 b)"
      "stores GRADIDO_BLOCK_SIZE s1 (ps @ [from_bytes ch bs])"
    by (rule record_stored [OF assms(1) Cons.prems(1), of n ch bs now]) (use Cons.prems assms(6) in simp_all)
  then show ?case
    using Cons.IH [OF s1(2), of "n + 1"] Cons.prems by simp
qed auto

text \<open>The record after the last payload is the checksum, which is counted and not stored.\<close>

lemma checksum_skipped:
  assumes "chain_state b = FETCHING_BLOCKS"
    and "n = GRADIDO_BLOCK_SIZE - 1 \<or> n < GRADIDO_BLOCK_SIZE \<and> unat (fetched_record_count b) \<le> n + 1"
  shows "on_block_record ch now (Some bs) (received n s b) = Inr (received (n + 1) s b)"
proof -
  have n: "n < GRADIDO_BLOCK_SIZE"
    using assms(2) by (auto simp: GRADIDO_BLOCK_SIZE_def)
  then have u: "unat (of_nat n :: u64) = n" "unat (of_nat n + 1 :: u64) = n + 1"
    by (simp_all add: unat_of_nat unat_word_ariths GRADIDO_BLOCK_SIZE_def)
  have "\<not> (of_nat n :: u64) < of_nat (GRADIDO_BLOCK_SIZE - 1) \<or> \<not> (of_nat n + 1 :: u64) < fetched_record_count b"
    using assms(2) by (auto simp: word_less_nat_alt u GRADIDO_BLOCK_SIZE_def)
  then show ?thesis
    using assms(1) fetched_mod [OF n]
    by (auto simp: on_block_record_def received_def add.commute)
qed


lemma blank_store_stores: "stores GRADIDO_BLOCK_SIZE blank_store []"
proof -
  obtain s :: "u8 Blockchain" where "Blockchain_new GRADIDO_BLOCK_SIZE 0 fmempty [] 100 100 = Inr s"
      "stores GRADIDO_BLOCK_SIZE s []"
    by (rule empty_store [of GRADIDO_BLOCK_SIZE 100 100]) (simp add: GRADIDO_BLOCK_SIZE_def)
  then show ?thesis
    by (simp add: blank_store_def)
qed

lemma received_same: "fetched_data_count b = of_nat n \<Longrightarrow> received n (storage b) b = b"
  by (simp add: received_def)

text \<open>
  When the sibling has announced one block and sends the records of its payloads and the checksum,
  then the end of the block, and the end of the block that follows, the local storage holds the
  same payloads and validation starts.
\<close>

lemma fetch_copies_block:
  assumes "chain_state b = FETCHING_BLOCKS" "stores GRADIDO_BLOCK_SIZE (storage b) []"
    and "fetched_data_count b = 0" "block_to_fetch b = 0" "length (fetched_checksums b) = 1"
    and "unat (fetched_record_count b) = length ps + 1" "length ps < GRADIDO_BLOCK_SIZE"
    and "\<forall>p \<in> set ps. from_bytes ch (enc p) = p \<and> sizeof_T ch \<le> length (enc p)" "\<forall>rs. child_valid ch rs"
  shows "\<exists>b'. feed ch now (map (Some \<circ> enc) ps @ [Some cs, None, None]) b = Inr b' \<and>
    chain_state b' = VALIDATING \<and> stores GRADIDO_BLOCK_SIZE (storage b') ps"
proof -
  have b: "b = received 0 (storage b) b"
    using assms(3) by (simp add: received_def)
  have enc: "map (from_bytes ch) (map enc ps) = ps"
    using assms(8) by (simp add: map_idI)
  obtain s' where s': "feed ch now (map Some (map enc ps)) (received 0 (storage b) b)
        = Inr (received (length ps) s' b)" "stores GRADIDO_BLOCK_SIZE s' ps"
    using feed_records [OF assms(1,2), of 0 "map enc ps" ch now] assms enc by auto
  have all: "(of_nat (Suc (length ps)) :: u64) = fetched_record_count b"
    using assms(6) by (metis Suc_eq_plus1 of_nat_unat ucast_id)
  have "feed ch now [Some cs, None, None] (received (length ps) s' b)
      = Inr (start_validation ch (fetch_next_block ((received (length ps + 1) s' b)\<lparr>block_to_fetch := 1\<rparr>)))"
    using assms(1,4,5,6,7) all checksum_skipped [OF assms(1), of "length ps" ch now cs s']
    by (simp add: on_block_record_def fetch_next_block_def send_def received_def)
  then have "feed ch now (map (Some \<circ> enc) ps @ [Some cs, None, None]) b
      = Inr (start_validation ch (fetch_next_block ((received (length ps + 1) s' b)\<lparr>block_to_fetch := 1\<rparr>)))"
    using s'(1) b by (metis (no_types, lifting) bind_res_simps(2) feed_append map_map)
  moreover have "storage (start_validation ch
      (fetch_next_block ((received (length ps + 1) s' b)\<lparr>block_to_fetch := 1\<rparr>))) = s'"
    by (simp add: start_validation_def fetch_next_block_def send_def)
  ultimately show ?thesis
    using s'(2) by (metis start_validation_simps(1))
qed

definition fetching_chain :: "u64 \<Rightarrow> bytes list \<Rightarrow> (u8, unit) chain" where
  "fetching_chain n css = (chain_new blank_store ())
     \<lparr>chain_state := FETCHING_BLOCKS, fetched_record_count := n, fetched_checksums := css\<rparr>"

text \<open>What a sibling that holds one block sends.\<close>

lemma get_block_record_ok:
  assumes st: "stores GRADIDO_BLOCK_SIZE (storage a) ps"
    and k: "k < GRADIDO_BLOCK_SIZE" "0 < block_total GRADIDO_BLOCK_SIZE (length ps)"
  obtains a' where "stores GRADIDO_BLOCK_SIZE (storage a') ps"
    "file_contents (BlockFile 0) (ft (storage a')) = file_contents (BlockFile 0) (ft (storage a))"
    "get_block_record ch now k a =
       Inr (let r = file_contents (BlockFile 0) (ft (storage a)) ! k
            in if r = EMPTY then None else Some (record_reply ch r), a')"
proof -
  obtain s' where s': "get_block GRADIDO_BLOCK_SIZE now 0 (storage a)
        = Inr ((Some (file_contents (BlockFile 0) (ft (storage a))), OK), s')"
      "stores GRADIDO_BLOCK_SIZE s' ps" "store_step GRADIDO_BLOCK_SIZE (storage a) s'"
    by (rule get_block_ok [OF st k(2), of now]) (rule that)
  have len: "length (file_contents (BlockFile 0) (ft (storage a))) = GRADIDO_BLOCK_SIZE"
    using storesD(6) [OF st k(2)] by (auto simp: is_block_def)
  have "file_contents (BlockFile 0) (ft s') = file_contents (BlockFile 0) (ft (storage a))"
    using s'(3) by (simp add: store_step_def cache_step_def file_contents_def)
  moreover have "0 < get_block_count (storage a)"
    using storesD(3) [OF st] k(2) by (simp add: get_block_count_def get_tile_count_def)
  ultimately show thesis
    using s' len k(1)
    by (intro that [of "a\<lparr>storage := s'\<rparr>"]) (simp_all add: get_block_record_def Let_def)
qed

lemma block_stream_ok:
  assumes "stores GRADIDO_BLOCK_SIZE (storage a) ps" "ps \<noteq> []" "length ps < GRADIDO_BLOCK_SIZE"
    and "file_contents (BlockFile 0) (ft (storage a)) = map PAYLOAD ps @ CHECKSUM c # replicate m EMPTY"
    and "length ps + 1 + m = GRADIDO_BLOCK_SIZE" "k \<le> length ps + 1" "fuel = length ps + 2 - k"
  shows "\<exists>a'. block_stream ch now 0 fuel k a =
      Inr (map (Some \<circ> record_reply ch) (drop k (map PAYLOAD ps @ [CHECKSUM c])) @ [None], a')"
  using assms(1,4,6,7)
proof (induction fuel arbitrary: k a)
  case (Suc fuel)
  have total: "0 < block_total GRADIDO_BLOCK_SIZE (length ps)"
    using assms(2) by (cases ps) (simp_all add: block_total_Suc GRADIDO_BLOCK_SIZE_def)
  show ?case
  proof (cases "k = GRADIDO_BLOCK_SIZE")
    case True
    then show ?thesis
      using Suc.prems(3) assms(3) by (simp add: BlockProvider_run_def)
  next
    case False
    then have k: "k < GRADIDO_BLOCK_SIZE"
      using Suc.prems(3) assms(3) by simp
    obtain a' where a': "stores GRADIDO_BLOCK_SIZE (storage a') ps"
        "file_contents (BlockFile 0) (ft (storage a')) = file_contents (BlockFile 0) (ft (storage a))"
        "get_block_record ch now k a =
           Inr (let r = file_contents (BlockFile 0) (ft (storage a)) ! k
                in if r = EMPTY then None else Some (record_reply ch r), a')"
      by (rule get_block_record_ok [OF Suc.prems(1) k total, of ch now]) (rule that)
    show ?thesis
    proof (cases "k = length ps + 1")
      case True
      then have "file_contents (BlockFile 0) (ft (storage a)) ! k = EMPTY"
        using Suc.prems(2) k assms(5) by (simp add: nth_append)
      then show ?thesis
        using a'(3) True k by (simp add: BlockProvider_run_def)
    next
      case False
      define rs where "rs = map PAYLOAD ps @ [CHECKSUM c]"
      have small: "k < length rs"
        using False Suc.prems(3) by (simp add: rs_def)
      have r: "file_contents (BlockFile 0) (ft (storage a)) ! k = rs ! k" "rs ! k \<noteq> EMPTY"
        using Suc.prems(2) small by (auto simp: rs_def nth_append less_Suc_eq)
      have rest: "file_contents (BlockFile 0) (ft (storage a')) = map PAYLOAD ps @ CHECKSUM c # replicate m EMPTY"
          "k + 1 \<le> length ps + 1" "fuel = length ps + 2 - (k + 1)"
        using a'(2) Suc.prems(2-4) False by simp_all
      obtain a2 where "block_stream ch now 0 fuel (k + 1) a'
          = Inr (map (Some \<circ> record_reply ch) (drop (k + 1) rs) @ [None], a2)"
        using Suc.IH [OF a'(1) rest] unfolding rs_def by blast
      then have "block_stream ch now 0 (Suc fuel) k a
          = Inr (map (Some \<circ> record_reply ch) (rs ! k # drop (k + 1) rs) @ [None], a2)"
        using a'(3) r k by (simp add: BlockProvider_run_def Let_def)
      then show ?thesis
        using Cons_nth_drop_Suc [OF small] unfolding rs_def by (metis Suc_eq_plus1)
    qed
  qed
qed (use assms in simp)

text \<open>
  C39. A blockchain of more than one block is never fetched: after the thousand records of the first
  block its end resets the blockchain, because the number of records received is compared with the
  number of records of all blocks.
\<close>

theorem second_block_never_fetched:
  assumes "chain_state b = FETCHING_BLOCKS" "stores GRADIDO_BLOCK_SIZE (storage b) []"
    and "fetched_data_count b = 0" "GRADIDO_BLOCK_SIZE < unat (fetched_record_count b)"
    and "length bss = GRADIDO_BLOCK_SIZE - 1" "\<forall>bs \<in> set bss. sizeof_T ch \<le> length bs"
    and "\<forall>rs. child_valid ch rs"
  shows "\<exists>b'. feed ch now (map Some bss @ [Some cs, None]) b = Inr b' \<and>
    chain_state b' = INITIAL \<and> get_block_count (storage b') = 0"
proof -
  have b: "b = received 0 (storage b) b"
    using assms(3) by (simp add: received_def)
  obtain s' where s': "feed ch now (map Some bss) (received 0 (storage b) b)
      = Inr (received (GRADIDO_BLOCK_SIZE - 1) s' b)"
    using feed_records [OF assms(1,2), of 0 bss ch now] assms(4-7) by (auto simp: GRADIDO_BLOCK_SIZE_def)
  have "(of_nat GRADIDO_BLOCK_SIZE :: u64) \<noteq> fetched_record_count b"
    using assms(4) by (auto simp: GRADIDO_BLOCK_SIZE_def)
  then have "feed ch now [Some cs, None] (received (GRADIDO_BLOCK_SIZE - 1) s' b)
      = Inr (reset_validation ch (received GRADIDO_BLOCK_SIZE s' b))"
    using assms(1) checksum_skipped [OF assms(1), of "GRADIDO_BLOCK_SIZE - 1" ch now cs s']
    by (simp add: on_block_record_def GRADIDO_BLOCK_SIZE_def)
  then have "feed ch now (map Some bss @ [Some cs, None]) b
      = Inr (reset_validation ch (received GRADIDO_BLOCK_SIZE s' b))"
    using s' b by (metis (no_types, lifting) bind_res_simps(2) feed_append)
  then show ?thesis
    by (simp add: Block_Storage.truncate_def get_block_count_def get_tile_count_def truncate_tail_def)
qed


theorem second_block_never_fetched_witness:
  "\<exists>b'. feed number_child 0 (map Some (replicate (GRADIDO_BLOCK_SIZE - 1) (replicate 8 0)) @ [Some [], None])
       (fetching_chain 1500 [[], []]) = Inr b' \<and> chain_state b' = INITIAL"
proof -
  have "chain_state (fetching_chain 1500 [[], []]) = FETCHING_BLOCKS"
      "storage (fetching_chain 1500 [[], []]) = blank_store" "fetched_data_count (fetching_chain 1500 [[], []]) = 0"
      "fetched_record_count (fetching_chain 1500 [[], []]) = 1500"
    by (simp_all add: fetching_chain_def chain_new_def)
  moreover have "GRADIDO_BLOCK_SIZE < unat (1500 :: u64)"
    by (simp add: GRADIDO_BLOCK_SIZE_def)
  moreover have "sizeof_T number_child = 1" "\<forall>rs. child_valid number_child rs"
    by (simp_all add: number_child_def)
  ultimately have "\<exists>b'. feed number_child 0
        (map Some (replicate (GRADIDO_BLOCK_SIZE - 1) (replicate 8 0)) @ [Some [], None])
        (fetching_chain 1500 [[], []]) = Inr b' \<and> chain_state b' = INITIAL \<and> get_block_count (storage b') = 0"
    using blank_store_stores by (intro second_block_never_fetched) simp_all
  then show ?thesis
    by blast
qed


section \<open>The contract of a concrete blockchain\<close>

text \<open>
  What the common code relies on: the latest transaction id is read off the stored payloads, which are of
  the kind the blockchain expects, without changing them; records are not rejected on appending; being ready does not start a validation.
\<close>

definition admissible :: "('p, 'c) child \<Rightarrow> u64 option \<Rightarrow> u64 \<Rightarrow> bool" where
  "admissible ch latest i =
     (case latest of Some n \<Rightarrow> i = n + 1 | None \<Rightarrow> topic_reset_allowed ch \<or> i = 1)"

text \<open>Batches that arrive one after the other.\<close>

fun add_transactions ::
  "('p, 'c) child \<Rightarrow> nat \<Rightarrow> 'p Batch list \<Rightarrow> ('p, 'c) chain \<Rightarrow> ('p, 'c) chain res" where
  "add_transactions ch now [] b = Inr b"
| "add_transactions ch now (t # ts) b = bind_res (add_transaction ch now t b) (add_transactions ch now ts)"

lemma add_transactions_snoc:
  "add_transactions ch now ts b = Inr b1 \<Longrightarrow>
   add_transactions ch now (ts @ [t]) b = bind_res (add_transaction ch now t b1) Inr"
  by (cases "add_transaction ch now t b1"; induction ts arbitrary: b) (auto simp: bind_res_Inr_iff)

text \<open>A batch that arrives while nothing is queued is processed in one round.\<close>

lemma add_transaction_alone:
  assumes "chain_state b = READY" "inbound b = []" "0 < batch_size ch"
    and "continue_round ch now batch b = Inr (True, b1)" "inbound b1 = []"
  shows "add_transaction ch now batch b = Inr b1"
proof -
  obtain n where n: "batch_size ch = Suc n"
    using assms(3) by (cases "batch_size ch") simp_all
  have "b\<lparr>inbound := []\<rparr> = b"
    using assms(2) by (cases b) simp
  then have "continue_round ch now batch (b\<lparr>inbound := []\<rparr>) = Inr (True, b1)"
    using assms(4) by simp
  moreover have "continue_loop ch now n b1 = Inr (True, b1)"
    using assms(5) by (cases n) simp_all
  ultimately have "continue_loop ch now (Suc n) (b\<lparr>inbound := [batch]\<rparr>) = Inr (True, b1)"
    by simp
  then show ?thesis
    using assms(1,2,5) n by (simp add: add_transaction_def continue_with_transactions_def del: continue_loop.simps)
qed

locale chain_child =
  fixes ch :: "('p, 'c) child"
    and latest_of :: "'p list \<Rightarrow> u64 option"
    and wf :: "'p \<Rightarrow> bool"
  assumes latest_reads: "stores GRADIDO_BLOCK_SIZE s ps \<Longrightarrow> list_all wf ps \<Longrightarrow>
      \<exists>s'. child_latest ch now s = Inr (latest_of ps, s') \<and> stores GRADIDO_BLOCK_SIZE s' ps"
    and all_valid: "child_valid ch rs"
    and ready_quiet: "quiet ch"
begin

lemma round_appends:
  assumes "stores GRADIDO_BLOCK_SIZE (storage b) ps" "list_all wf ps" "buff batch = Some rs" "rs \<noteq> []"
    and "\<not> reset_blockchain batch" "child_id ch rs = Inr i" "admissible ch (latest_of ps) i"
    and "child_calc ch (get_rec_count (storage b)) rs (indexes b) = Inr (True, rs', c)"
  obtains s where "continue_round ch now batch b = Inr (True, b\<lparr>storage := s, indexes := c\<rparr>)"
    "stores GRADIDO_BLOCK_SIZE s (ps @ rs')"
proof -
  obtain s1 where s1: "child_latest ch now (storage b) = Inr (latest_of ps, s1)" "stores GRADIDO_BLOCK_SIZE s1 ps"
    using latest_reads [OF assms(1,2)] by blast
  obtain s2 where s2: "append_all (chain_sha ch) (chain_img ch) GRADIDO_BLOCK_SIZE now rs' OK s1 = Inr ((True, OK), s2)"
      "stores GRADIDO_BLOCK_SIZE s2 (ps @ rs')"
    using append_all_refines [OF s1(2)] by blast
  have "get_rec_count s1 = get_rec_count (storage b)"
    using storesD(4) [OF s1(2)] storesD(4) [OF assms(1)] by (simp add: get_rec_count_def)
  with s1 s2 assms(3-8) show thesis
    by (intro that [of s2]) (auto simp: continue_round_def validated_append_def all_valid admissible_def neq_Nil_conv)
qed

lemma round_skips:
  assumes "stores GRADIDO_BLOCK_SIZE (storage b) ps" "list_all wf ps" "buff batch = Some rs" "rs \<noteq> []"
    and "\<not> reset_blockchain batch" "child_id ch rs = Inr i" "latest_of ps = Some n" "i \<le> n" "i \<noteq> n + 1"
  obtains s where "continue_round ch now batch b = Inr (True, b\<lparr>storage := s\<rparr>)" "stores GRADIDO_BLOCK_SIZE s ps"
proof -
  obtain s1 where s1: "child_latest ch now (storage b) = Inr (latest_of ps, s1)" "stores GRADIDO_BLOCK_SIZE s1 ps"
    using latest_reads [OF assms(1,2)] by blast
  with assms(3-9) show thesis
    by (intro that [of s1]) (auto simp: continue_round_def neq_Nil_conv)
qed

lemma in_order_appended:
  assumes "chain_state b = READY" "inbound b = []" "0 < batch_size ch"
    and "stores GRADIDO_BLOCK_SIZE (storage b) ps" "list_all wf ps" "buff batch = Some rs" "rs \<noteq> []"
    and "\<not> reset_blockchain batch" "child_id ch rs = Inr i" "admissible ch (latest_of ps) i"
    and "child_calc ch (get_rec_count (storage b)) rs (indexes b) = Inr (True, rs', c)"
  shows "\<exists>s. add_transaction ch now batch b = Inr (b\<lparr>storage := s, indexes := c\<rparr>) \<and>
    stores GRADIDO_BLOCK_SIZE s (ps @ rs')"
proof -
  obtain s where s: "continue_round ch now batch b = Inr (True, b\<lparr>storage := s, indexes := c\<rparr>)"
      "stores GRADIDO_BLOCK_SIZE s (ps @ rs')"
    by (rule round_appends [OF assms(4-11)])
  then show ?thesis
    using add_transaction_alone [OF assms(1-3)] assms(2) by (intro exI [of _ s]) simp
qed

lemma duplicate_ignored:
  assumes "chain_state b = READY" "inbound b = []" "0 < batch_size ch"
    and "stores GRADIDO_BLOCK_SIZE (storage b) ps" "list_all wf ps" "buff batch = Some rs" "rs \<noteq> []"
    and "\<not> reset_blockchain batch" "child_id ch rs = Inr i" "latest_of ps = Some n" "i \<le> n" "i \<noteq> n + 1"
  shows "\<exists>s. add_transaction ch now batch b = Inr (b\<lparr>storage := s\<rparr>) \<and> stores GRADIDO_BLOCK_SIZE s ps"
proof -
  obtain s where s: "continue_round ch now batch b = Inr (True, b\<lparr>storage := s\<rparr>)" "stores GRADIDO_BLOCK_SIZE s ps"
    by (rule round_skips [OF assms(4-12)])
  then show ?thesis
    using add_transaction_alone [OF assms(1-3)] assms(2) by (intro exI [of _ s]) simp
qed

lemma early_resets:
  assumes "chain_state b = READY" "inbound b = batch # q" "0 < batch_size ch"
    and "stores GRADIDO_BLOCK_SIZE (storage b) ps" "list_all wf ps" "buff batch = Some rs" "rs \<noteq> []"
    and "\<not> reset_blockchain batch" "child_id ch rs = Inr i" "latest_of ps = Some n" "n < i" "i \<noteq> n + 1"
    and "queue_push ch batch q = Inr q'"
  shows "\<exists>b'. continue_with_transactions ch now b = Inr b' \<and> chain_state b' = INITIAL \<and>
    get_block_count (storage b') = 0 \<and> inbound b' = q'"
proof -
  obtain s1 where "child_latest ch now (storage b) = Inr (latest_of ps, s1)"
    using latest_reads [OF assms(4,5)] by blast
  with assms(6-13) have "continue_round ch now batch (b\<lparr>inbound := q\<rparr>)
      = Inr (False, reset_validation ch (b\<lparr>storage := s1, inbound := q'\<rparr>))"
    by (auto simp: continue_round_def neq_Nil_conv Let_def not_le)
  then show ?thesis
    using assms(1-3)
    by (cases "batch_size ch") (auto simp: continue_with_transactions_def Block_Storage.truncate_def
        get_block_count_def get_tile_count_def truncate_tail_def)
qed

end

end
