(* ===== verification/Group_Register.thy ===== *)
theory Group_Register
  imports Chain_Properties
begin

text \<open>
  \<open>src/group_register.cpp\<close>: the blockchain that registers the aliases of groups, as a concrete
  blockchain of the common code. Its index is the map of aliases. The traversal of the stored blocks
  that rebuilds an index, written out in each concrete blockchain, is \<open>index_blocks\<close>.
\<close>

section \<open>Rebuilding an index from blocks\<close>

text \<open>
  The records of a block up to its checksum, numbered from \<open>n\<close>. The step answers whether to go on; a
  zeroed record has a record type no index looks at, and the bytes of a record of unknown type are
  not interpreted here.
\<close>

fun index_records ::
  "(nat \<Rightarrow> 'p \<Rightarrow> 'c \<Rightarrow> (bool \<times> 'c) res) \<Rightarrow> nat \<Rightarrow> 'p Record list \<Rightarrow> 'c \<Rightarrow> (bool \<times> 'c) res" where
  "index_records f n [] c = Inr (True, c)"
| "index_records f n (CHECKSUM _ # rs) c = Inr (True, c)"
| "index_records f n (PAYLOAD p # rs) c =
     bind_res (f n p c) (\<lambda>(go_on, c1). if go_on then index_records f (n + 1) rs c1 else Inr (False, c1))"
| "index_records f n (EMPTY # rs) c = index_records f (n + 1) rs c"
| "index_records f n (other_record_type _ # rs) c = Inl (Undefined ''payload of unknown type'')"

fun index_blocks ::
  "(nat \<Rightarrow> 'p \<Rightarrow> 'c \<Rightarrow> (bool \<times> 'c) res) \<Rightarrow> nat \<Rightarrow> nat list \<Rightarrow> 'p Blockchain \<Rightarrow> 'c
     \<Rightarrow> (bool \<times> 'p Blockchain \<times> 'c) res" where
  "index_blocks f now [] s c = Inr (True, s, c)"
| "index_blocks f now (i # is) s c =
     bind_res (get_block GRADIDO_BLOCK_SIZE now i s) (\<lambda>((d, _), s1).
       case d of
         None \<Rightarrow> Inl (Undefined ''null pointer'')
       | Some rs \<Rightarrow>
           bind_res (index_records f (i * GRADIDO_BLOCK_SIZE) rs c) (\<lambda>(go_on, c1).
             if go_on then index_blocks f now is s1 c1 else Inr (False, s1, c1)))"


section \<open>The register\<close>

record GroupRegister =
  first_good_validation :: bool
  aliases :: "(bytes, GroupRecord) fmap"

definition GroupRegister_new :: GroupRegister where
  "GroupRegister_new = \<lparr>first_good_validation = True, aliases = fmempty\<rparr>"

definition inactive_member :: "'a res" where
  "inactive_member = Inl (Undefined ''inactive union member'')"

text \<open>\<open>add_index_data\<close>: the key is the alias up to its first zero byte.\<close>

definition register_index_record ::
  "nat \<Rightarrow> GroupRegisterRecord \<Rightarrow> GroupRegister \<Rightarrow> (bool \<times> GroupRegister) res" where
  "register_index_record n pp c =
     (case pp of
        GROUP_RECORD gr \<Rightarrow>
          (if success gr then
             bind_res (c_str (gr_alias gr)) (\<lambda>alias.
               if fmlookup (aliases c) alias \<noteq> None then Inr (False, c)
               else Inr (True, c\<lparr>aliases := std_insert alias gr (aliases c)\<rparr>))
           else Inr (True, c))
      | _ \<Rightarrow> Inr (True, c))"

definition register_add_index_data ::
  "nat \<Rightarrow> nat \<Rightarrow> GroupRegisterRecord Blockchain \<Rightarrow> GroupRegister
     \<Rightarrow> (bool \<times> GroupRegisterRecord Blockchain \<times> GroupRegister) res" where
  "register_add_index_data now indexed s c =
     index_blocks register_index_record now [indexed..<get_checksum_valid_block_count s] s c"

definition register_id_of :: "GroupRegisterRecord \<Rightarrow> u64 res" where
  "register_id_of r =
     (case r of GROUP_RECORD gr \<Rightarrow> Inr (sequenceNumber (gr_hedera_transaction gr)) | _ \<Rightarrow> inactive_member)"

definition register_latest ::
  "nat \<Rightarrow> GroupRegisterRecord Blockchain \<Rightarrow> (u64 option \<times> GroupRegisterRecord Blockchain) res" where
  "register_latest now s =
     (if get_rec_count s = 0 then Inr (None, s)
      else bind_res (get_record GRADIDO_BLOCK_SIZE now
             (if get_rec_count s = 1 then 2 ^ 64 - 1 else get_rec_count s - 2) s) (\<lambda>((r, _), s1).
        case r of
          None \<Rightarrow> Inl (Undefined ''null pointer'')
        | Some (PAYLOAD p) \<Rightarrow> bind_res (register_id_of p) (\<lambda>i. Inr (Some i, s1))
        | _ \<Rightarrow> inactive_member))"

definition register_transaction_id :: "GroupRegisterRecord list \<Rightarrow> u64 res" where
  "register_transaction_id rs =
     (case rs of [] \<Rightarrow> Inl (Undefined ''empty buffer'') | r # _ \<Rightarrow> register_id_of r)"

text \<open>
  \<open>calc_fields_and_update_indexes_for\<close>: here the key is the whole field of \<open>GROUP_ALIAS_LENGTH\<close> bytes,
  so its size is never zero.
\<close>

definition register_calc ::
  "nat \<Rightarrow> GroupRegisterRecord list \<Rightarrow> GroupRegister \<Rightarrow> (bool \<times> GroupRegisterRecord list \<times> GroupRegister) res" where
  "register_calc n rs c =
     (case rs of
        [] \<Rightarrow> Inl (Undefined ''empty buffer'')
      | GROUP_RECORD gr # rest \<Rightarrow>
          (let alias = gr_alias gr;
               succ = (0 < length alias \<and> fmlookup (aliases c) alias = None);
               gr' = gr\<lparr>success := succ\<rparr>
           in Inr (True, GROUP_RECORD gr' # rest,
                   if succ then c\<lparr>aliases := std_insert alias gr' (aliases c)\<rparr> else c))
      | _ \<Rightarrow> inactive_member)"

definition register_clear :: "GroupRegister \<Rightarrow> GroupRegister" where
  "register_clear c = c\<lparr>aliases := fmempty\<rparr>"

definition register_ready :: "GroupRegister \<Rightarrow> request list \<times> GroupRegister" where
  "register_ready c =
     (if first_good_validation c
      then ([push_task ContinueInitTask 0], c\<lparr>first_good_validation := False\<rparr>) else ([], c))"

text \<open>
  The virtual methods of the register. The hash, the layout of records in bytes and the configuration
  are arguments.
\<close>

definition register_child ::
  "(bytes \<Rightarrow> bytes) \<Rightarrow> (GroupRegisterRecord Record \<Rightarrow> bytes) \<Rightarrow> (bytes \<Rightarrow> GroupRegisterRecord) \<Rightarrow> nat \<Rightarrow> nat \<Rightarrow> bool
     \<Rightarrow> (GroupRegisterRecord, GroupRegister) child" where
  "register_child sha img dec sz batch reset_allowed =
     \<lparr>child_latest = register_latest, child_id = register_transaction_id, child_calc = register_calc,
      child_clear = register_clear, child_index = register_add_index_data, child_ready = register_ready,
      child_valid = (\<lambda>_. True), chain_sha = sha, chain_img = img, sizeof_T = sz, from_bytes = dec,
      batch_size = batch, topic_reset_allowed = reset_allowed\<rparr>"

definition add_record ::
  "(GroupRegisterRecord, GroupRegister) child \<Rightarrow> nat \<Rightarrow> bytes \<Rightarrow> HederaTopicID
     \<Rightarrow> (GroupRegisterRecord, GroupRegister) chain \<Rightarrow> (GroupRegisterRecord, GroupRegister) chain res" where
  "add_record ch now alias tid b =
     (let cs = takeWhile (\<lambda>x. x \<noteq> 0) alias
      in if GROUP_ALIAS_LENGTH \<le> length cs then Inl (Undefined ''strcpy beyond the alias'')
         else
           let succ = (0 < length alias \<and> fmlookup (aliases (indexes b)) alias = None);
               rec0 = \<lparr>gr_alias = cs @ replicate (GROUP_ALIAS_LENGTH - length cs) 0, topic_id = tid,
                       success = succ, gr_hedera_transaction = HederaTransaction_zero,
                       gr_signature = \<lparr>sig_pubkey = replicate PUB_KEY_LENGTH 0,
                                       sig_signature = replicate SIGNATURE_LENGTH 0\<rparr>\<rparr>;
               c = (if succ then (indexes b)\<lparr>aliases := std_insert alias rec0 (aliases (indexes b))\<rparr>
                    else indexes b)
           in bind_res (validated_append (child_valid ch) (chain_sha ch) (chain_img ch) GRADIDO_BLOCK_SIZE now
                [GROUP_RECORD rec0] OK (storage b)) (\<lambda>(_, s). Inr (b\<lparr>storage := s, indexes := c\<rparr>)))"

text \<open>\<open>get_groups\<close>: alias field and topic of every successful record, in the order of the blockchain.\<close>

definition collect_group ::
  "nat \<Rightarrow> GroupRegisterRecord \<Rightarrow> (bytes \<times> HederaTopicID) list \<Rightarrow> (bool \<times> (bytes \<times> HederaTopicID) list) res" where
  "collect_group n pp gs =
     (case pp of
        GROUP_RECORD gr \<Rightarrow> Inr (True, if success gr then gs @ [(gr_alias gr, topic_id gr)] else gs)
      | _ \<Rightarrow> Inr (True, gs))"

definition get_groups ::
  "nat \<Rightarrow> (GroupRegisterRecord, GroupRegister) chain
     \<Rightarrow> ((bytes \<times> HederaTopicID) list \<times> (GroupRegisterRecord, GroupRegister) chain) res" where
  "get_groups now b =
     (if chain_state b \<noteq> READY then Inr ([], b)
      else bind_res (index_blocks collect_group now [0..<get_block_count (storage b)] (storage b) [])
        (\<lambda>(_, s, gs). Inr (gs, b\<lparr>storage := s\<rparr>)))"

fun find_topic :: "bytes \<Rightarrow> (bytes \<times> HederaTopicID) list \<Rightarrow> HederaTopicID option res" where
  "find_topic alias [] = Inr None"
| "find_topic alias ((a, t) # gs) =
     bind_res (c_str a) (\<lambda>aa. if aa = alias then Inr (Some t) else find_topic alias gs)"

definition get_topic_id ::
  "nat \<Rightarrow> bytes \<Rightarrow> (GroupRegisterRecord, GroupRegister) chain
     \<Rightarrow> (HederaTopicID option \<times> (GroupRegisterRecord, GroupRegister) chain) res" where
  "get_topic_id now alias b =
     bind_res (get_groups now b) (\<lambda>(gs, b1). bind_res (find_topic alias gs) (\<lambda>t. Inr (t, b1)))"



section \<open>The traversal visits every payload once\<close>

fun fold_index :: "(nat \<Rightarrow> 'p \<Rightarrow> 'c \<Rightarrow> (bool \<times> 'c) res) \<Rightarrow> (nat \<times> 'p) list \<Rightarrow> 'c \<Rightarrow> (bool \<times> 'c) res" where
  "fold_index f [] c = Inr (True, c)"
| "fold_index f ((n, p) # xs) c =
     bind_res (f n p c) (\<lambda>(go_on, c1). if go_on then fold_index f xs c1 else Inr (False, c1))"

definition numbered_block :: "nat \<Rightarrow> 'p list \<Rightarrow> (nat \<times> 'p) list" where
  "numbered_block i qs = zip [i * GRADIDO_BLOCK_SIZE..<i * GRADIDO_BLOCK_SIZE + length qs] qs"

definition numbered :: "'p list \<Rightarrow> (nat \<times> 'p) list" where
  "numbered ps = concat (map (\<lambda>i. numbered_block i (block_payloads GRADIDO_BLOCK_SIZE i ps))
     [0..<block_total GRADIDO_BLOCK_SIZE (length ps)])"

lemma concat_chunks: "concat (map (\<lambda>i. take m (drop (i * m) xs)) [0..<q]) = take (q * m) xs"
  by (induction q) (simp_all add: take_add [symmetric] add.commute)

lemma block_total_covers:
  assumes "2 \<le> r"
  shows "n \<le> block_total r n * (r - 1)"
proof -
  define m q k where "m = r - 1" and "q = n div m" and "k = n mod m"
  have n: "n = q * m + k" "k < m"
    using assms unfolding q_def k_def by (simp_all only: div_mult_mod_eq) (simp add: m_def)
  have "n \<le> (q + (if k = 0 then 0 else 1)) * m"
    unfolding n(1) using n(2) by (cases "k = 0") (simp_all add: algebra_simps)
  then show ?thesis
    unfolding block_total_eq [OF assms] q_def k_def m_def .
qed

lemma map_snd_numbered [simp]: "map snd (numbered ps) = ps"
proof -
  have "map snd (numbered ps) = concat (map (\<lambda>i. block_payloads GRADIDO_BLOCK_SIZE i ps)
      [0..<block_total GRADIDO_BLOCK_SIZE (length ps)])"
    by (simp add: numbered_def numbered_block_def map_concat comp_def)
  also have "\<dots> = take (block_total GRADIDO_BLOCK_SIZE (length ps) * (GRADIDO_BLOCK_SIZE - 1)) ps"
    unfolding block_payloads_def by (rule concat_chunks)
  finally show ?thesis
    using block_total_covers [of GRADIDO_BLOCK_SIZE "length ps"] by (simp add: GRADIDO_BLOCK_SIZE_def)
qed

lemma fold_index_append:
  "fold_index f (xs @ ys) c =
     bind_res (fold_index f xs c) (\<lambda>(go_on, c1). if go_on then fold_index f ys c1 else Inr (False, c1))"
proof (induction xs arbitrary: c)
  case (Cons x xs)
  show ?case
    by (cases x; cases "f (fst x) (snd x) c") (auto simp: Cons.IH split: prod.split)
qed simp

lemma index_records_block:
  "index_records f n (map PAYLOAD qs @ CHECKSUM x # rs) c = fold_index f (zip [n..<n + length qs] qs) c"
proof (induction qs arbitrary: n c)
  case (Cons q qs)
  show ?case
    by (cases "f n q c") (auto simp: Cons.IH upt_conv_Cons simp del: upt_Suc split: prod.split)
qed simp

lemma index_blocks_ok:
  assumes "stores GRADIDO_BLOCK_SIZE s ps"
    and "\<forall>i \<in> set is. i < block_total GRADIDO_BLOCK_SIZE (length ps)"
    and "fold_index f (concat (map (\<lambda>i. numbered_block i (block_payloads GRADIDO_BLOCK_SIZE i ps)) is)) c
          = Inr (go_on, c')"
  shows "\<exists>s'. index_blocks f now is s c = Inr (go_on, s', c') \<and> stores GRADIDO_BLOCK_SIZE s' ps"
  using assms
proof (induction "is" arbitrary: s c)
  case (Cons i "is")
  obtain s1 where s1: "get_block GRADIDO_BLOCK_SIZE now i s
        = Inr ((Some (file_contents (BlockFile i) (ft s)), OK), s1)" "stores GRADIDO_BLOCK_SIZE s1 ps"
    by (rule get_block_ok [OF Cons.prems(1), of i now]) (use Cons.prems(2) in simp_all)
  obtain x rs where block: "file_contents (BlockFile i) (ft s)
      = map PAYLOAD (block_payloads GRADIDO_BLOCK_SIZE i ps) @ CHECKSUM x # rs"
    using storesD(6) [OF Cons.prems(1), of i] Cons.prems(2) by (auto simp: is_block_def)
  obtain go1 c1 where one: "fold_index f (numbered_block i (block_payloads GRADIDO_BLOCK_SIZE i ps)) c = Inr (go1, c1)"
    using Cons.prems(3) by (auto simp: fold_index_append bind_res_Inr_iff)
  have run: "index_blocks f now (i # is) s c =
      (if go1 then index_blocks f now is s1 c1 else Inr (False, s1, c1))"
    using s1(1) one by (simp add: block index_records_block numbered_block_def)
  show ?case
  proof (cases go1)
    case True
    then show ?thesis
      using Cons.IH [OF s1(2), of c1] Cons.prems(2,3) one run by (simp add: fold_index_append)
  qed (use Cons.prems(3) one run s1(2) in \<open>auto simp: fold_index_append\<close>)
qed auto

corollary index_all_blocks:
  assumes "stores GRADIDO_BLOCK_SIZE s ps" "fold_index f (numbered ps) c = Inr (go_on, c')"
  obtains s' where "index_blocks f now [0..<block_total GRADIDO_BLOCK_SIZE (length ps)] s c = Inr (go_on, s', c')"
    "stores GRADIDO_BLOCK_SIZE s' ps"
  using index_blocks_ok [OF assms(1) _ assms(2) [unfolded numbered_def]] by auto



section \<open>The register fulfils the contract of the common code\<close>

definition is_group_record :: "GroupRegisterRecord \<Rightarrow> bool" where
  "is_group_record r = (case r of GROUP_RECORD _ \<Rightarrow> True | _ \<Rightarrow> False)"

definition register_latest_of :: "GroupRegisterRecord list \<Rightarrow> u64 option" where
  "register_latest_of ps =
     (if ps = [] then None
      else case last ps of GROUP_RECORD gr \<Rightarrow> Some (sequenceNumber (gr_hedera_transaction gr)) | _ \<Rightarrow> None)"

lemma register_child_simps [simp]:
  "child_latest (register_child sha img dec sz batch ra) = register_latest"
  "child_id (register_child sha img dec sz batch ra) = register_transaction_id"
  "child_calc (register_child sha img dec sz batch ra) = register_calc"
  "child_ready (register_child sha img dec sz batch ra) = register_ready"
  "child_valid (register_child sha img dec sz batch ra) rs"
  "batch_size (register_child sha img dec sz batch ra) = batch"
  "topic_reset_allowed (register_child sha img dec sz batch ra) = ra"
  by (simp_all add: register_child_def)

interpretation reg: chain_child "register_child sha img dec sz batch ra" register_latest_of is_group_record
  for sha img dec sz batch ra
proof
  fix s :: "GroupRegisterRecord Blockchain" and ps now
  assume st: "stores GRADIDO_BLOCK_SIZE s ps" and wf: "list_all is_group_record ps"
  show "\<exists>s'. child_latest (register_child sha img dec sz batch ra) now s = Inr (register_latest_of ps, s')
      \<and> stores GRADIDO_BLOCK_SIZE s' ps"
  proof (cases "ps = []")
    case True
    then show ?thesis
      using st storesD(1,4) [OF st] by (auto simp: register_latest_def register_latest_of_def get_rec_count_def)
  next
    case False
    then have count: "rec_count s = payload_index GRADIDO_BLOCK_SIZE (length ps - 1) + 2"
      using storesD(1,4) [OF st] payload_index_last [of GRADIDO_BLOCK_SIZE ps] by simp
    obtain s' where s': "get_record GRADIDO_BLOCK_SIZE now (payload_index GRADIDO_BLOCK_SIZE (length ps - 1)) s
        = Inr ((Some (PAYLOAD (ps ! (length ps - 1))), OK), s')" "stores GRADIDO_BLOCK_SIZE s' ps"
      by (rule get_record_ok [OF st, of "length ps - 1" now]) (use False in simp_all)
    have "is_group_record (last ps)"
      using wf False by (simp add: list_all_iff)
    with s' count False show ?thesis
      by (auto simp: register_latest_def register_latest_of_def register_id_of_def get_rec_count_def
          is_group_record_def last_conv_nth split: GroupRegisterRecord.splits)
  qed
next
  show "child_valid (register_child sha img dec sz batch ra) rs" for rs
    by simp
next
  show "quiet (register_child sha img dec sz batch ra)"
    by (simp add: quiet_def register_ready_def)
qed


section \<open>Properties\<close>

text \<open>
  A group record that arrives in order is stored; it is marked successful exactly if its alias is
  not in the index, and then the alias is entered.
\<close>

lemma register_record_stored:
  assumes "chain_state b = READY" "inbound b = []" "0 < batch"
    and "stores GRADIDO_BLOCK_SIZE (storage b) ps" "list_all is_group_record ps"
    and "admissible (register_child sha img dec sz batch ra) (register_latest_of ps)
           (sequenceNumber (gr_hedera_transaction gr))"
    and "gr_alias gr \<noteq> []"
  shows "\<exists>s c. add_transaction (register_child sha img dec sz batch ra) now
        \<lparr>buff = Some [GROUP_RECORD gr], reset_blockchain = False\<rparr> b = Inr (b\<lparr>storage := s, indexes := c\<rparr>) \<and>
    stores GRADIDO_BLOCK_SIZE s
      (ps @ [GROUP_RECORD (gr\<lparr>success := (fmlookup (aliases (indexes b)) (gr_alias gr) = None)\<rparr>)]) \<and>
    fmdom' (aliases c) = insert (gr_alias gr) (fmdom' (aliases (indexes b)))"
proof -
  define ok where "ok \<longleftrightarrow> fmlookup (aliases (indexes b)) (gr_alias gr) = None"
  define c where "c = (if ok then (indexes b)\<lparr>aliases := std_insert (gr_alias gr) (gr\<lparr>success := ok\<rparr>)
     (aliases (indexes b))\<rparr> else indexes b)"
  have calc: "register_calc n [GROUP_RECORD gr] (indexes b) = Inr (True, [GROUP_RECORD (gr\<lparr>success := ok\<rparr>)], c)" for n
    using assms(7) by (simp add: register_calc_def ok_def c_def Let_def)
  have "fmdom' (aliases c) = insert (gr_alias gr) (fmdom' (aliases (indexes b)))"
    by (cases ok) (auto simp: c_def ok_def std_insert_def intro: fmdom'I)
  moreover have "\<exists>s. add_transaction (register_child sha img dec sz batch ra) now
        \<lparr>buff = Some [GROUP_RECORD gr], reset_blockchain = False\<rparr> b = Inr (b\<lparr>storage := s, indexes := c\<rparr>) \<and>
      stores GRADIDO_BLOCK_SIZE s (ps @ [GROUP_RECORD (gr\<lparr>success := ok\<rparr>)])"
    by (rule reg.in_order_appended [where rs = "[GROUP_RECORD gr]", OF assms(1,2) _ assms(4,5) _ _ _ _ assms(6)])
      (use assms(3) calc in \<open>simp_all add: register_transaction_id_def register_id_of_def\<close>)
  ultimately show ?thesis
    unfolding ok_def by blast
qed

text \<open>
  Two records that wait in the queue, the next one and the one after it, are not appended: the
  later one is taken first, and the register is reset.
\<close>

theorem register_queue_resets:
  assumes "chain_state b = READY" "0 < batch"
    and "stores GRADIDO_BLOCK_SIZE (storage b) ps" "list_all is_group_record ps" "register_latest_of ps = Some n"
    and "inbound b = [\<lparr>buff = Some [GROUP_RECORD later], reset_blockchain = False\<rparr>,
                      \<lparr>buff = Some [GROUP_RECORD soon], reset_blockchain = False\<rparr>]"
    and "sequenceNumber (gr_hedera_transaction soon) = n + 1"
    and "sequenceNumber (gr_hedera_transaction later) = n + 2" "n < n + 1" "n + 1 < n + 2"
  shows "\<exists>b'. continue_with_transactions (register_child sha img dec sz batch ra) now b = Inr b' \<and>
    chain_state b' = INITIAL \<and> get_block_count (storage b') = 0 \<and> inbound b' = inbound b"
proof -
  let ?q = "[\<lparr>buff = Some [GROUP_RECORD soon], reset_blockchain = False\<rparr>]"
  have "queue_push (register_child sha img dec sz batch ra)
      \<lparr>buff = Some [GROUP_RECORD later], reset_blockchain = False\<rparr> ?q = Inr (inbound b)"
    using assms(6-10) by (simp add: batch_id_def register_transaction_id_def register_id_of_def)
  then show ?thesis
    using assms
    by (intro reg.early_resets [where rs = "[GROUP_RECORD later]" and i = "n + 2",
          OF assms(1,6) _ assms(3,4) _ _ _ _ assms(5)])
      (simp_all add: register_transaction_id_def register_id_of_def)
qed


text \<open>Concrete records and a register that holds one of them.\<close>

definition named :: "u8 \<Rightarrow> u64 \<Rightarrow> GroupRecord" where
  "named x n = \<lparr>gr_alias = x # replicate (GROUP_ALIAS_LENGTH - 1) 0,
     topic_id = \<lparr>shardNum = 0, realmNum = 0, topicNum = 5\<rparr>, success = True,
     gr_hedera_transaction = HederaTransaction_zero\<lparr>sequenceNumber := n\<rparr>,
     gr_signature = \<lparr>sig_pubkey = replicate PUB_KEY_LENGTH 0, sig_signature = replicate SIGNATURE_LENGTH 0\<rparr>\<rparr>"

definition plain_register :: "(GroupRegisterRecord, GroupRegister) child" where
  "plain_register = register_child id (\<lambda>_. []) (\<lambda>_. GROUP_RECORD (named 0 0)) 0 10 False"

definition ready_register ::
  "GroupRegisterRecord Blockchain \<Rightarrow> (GroupRegisterRecord, GroupRegister) chain" where
  "ready_register s = (chain_new s GroupRegister_new)\<lparr>chain_state := READY\<rparr>"

lemma ready_register_simps [simp]:
  "chain_state (ready_register s) = READY" "storage (ready_register s) = s" "inbound (ready_register s) = []"
  "indexes (ready_register s) = GroupRegister_new"
  by (simp_all add: ready_register_def chain_new_def)

lemma named_simps [simp]:
  "gr_alias (named x n) = x # replicate (GROUP_ALIAS_LENGTH - 1) 0" "success (named x n)"
  "sequenceNumber (gr_hedera_transaction (named x n)) = n"
  by (simp_all add: named_def)

lemma one_group_store:
  obtains s where "stores GRADIDO_BLOCK_SIZE s [GROUP_RECORD gr]"
  by (rule one_record_store [of GRADIDO_BLOCK_SIZE "GROUP_RECORD gr"]) (simp_all add: GRADIDO_BLOCK_SIZE_def)

theorem register_queue_resets_witness:
  "\<exists>s b'. stores GRADIDO_BLOCK_SIZE s [GROUP_RECORD (named 97 1)] \<and>
     continue_with_transactions plain_register 0
       ((ready_register s)\<lparr>inbound := [\<lparr>buff = Some [GROUP_RECORD (named 99 3)], reset_blockchain = False\<rparr>,
          \<lparr>buff = Some [GROUP_RECORD (named 98 2)], reset_blockchain = False\<rparr>]\<rparr>) = Inr b' \<and>
     chain_state b' = INITIAL"
proof -
  obtain s where s: "stores GRADIDO_BLOCK_SIZE s [GROUP_RECORD (named 97 1)]"
    by (rule one_group_store)
  let ?b = "(ready_register s)\<lparr>inbound := [\<lparr>buff = Some [GROUP_RECORD (named 99 3)], reset_blockchain = False\<rparr>,
          \<lparr>buff = Some [GROUP_RECORD (named 98 2)], reset_blockchain = False\<rparr>]\<rparr>"
  have "\<exists>b'. continue_with_transactions plain_register 0 ?b = Inr b' \<and>
      chain_state b' = INITIAL \<and> get_block_count (storage b') = 0 \<and> inbound b' = inbound ?b"
    unfolding plain_register_def
    by (rule register_queue_resets [where n = 1 and soon = "named 98 2" and later = "named 99 3" and ps = "[GROUP_RECORD (named 97 1)]"])
      (use s in \<open>simp_all add: is_group_record_def register_latest_of_def\<close>)
  with s show ?thesis
    by blast
qed

definition groups_of :: "GroupRegisterRecord list \<Rightarrow> (bytes \<times> HederaTopicID) list" where
  "groups_of ps = concat (map (\<lambda>r. case r of
     GROUP_RECORD gr \<Rightarrow> if success gr then [(gr_alias gr, topic_id gr)] else [] | _ \<Rightarrow> []) ps)"

lemma fold_collect_group: "fold_index collect_group xs gs = Inr (True, gs @ groups_of (map snd xs))"
  by (induction xs arbitrary: gs)
    (auto simp: groups_of_def collect_group_def split: GroupRegisterRecord.split)

text \<open>
  The groups a node lists are the aliases and topics of the successful records of the blockchain,
  in order.
\<close>

theorem groups_listed:
  assumes "chain_state b = READY" "stores GRADIDO_BLOCK_SIZE (storage b) ps"
  shows "\<exists>s. get_groups now b = Inr (groups_of ps, b\<lparr>storage := s\<rparr>) \<and> stores GRADIDO_BLOCK_SIZE s ps"
proof -
  have "fold_index collect_group (numbered ps) [] = Inr (True, groups_of ps)"
    by (simp add: fold_collect_group)
  then obtain s where "index_blocks collect_group now [0..<block_total GRADIDO_BLOCK_SIZE (length ps)] (storage b) []
      = Inr (True, s, groups_of ps)" "stores GRADIDO_BLOCK_SIZE s ps"
    by (rule index_all_blocks [OF assms(2)])
  moreover have "get_block_count (storage b) = block_total GRADIDO_BLOCK_SIZE (length ps)"
    using storesD(3) [OF assms(2)] by (simp add: get_block_count_def get_tile_count_def)
  ultimately show ?thesis
    using assms(1) by (auto simp: get_groups_def)
qed

theorem groups_listed_witness:
  "\<exists>s s'. get_groups 0 (ready_register s)
     = Inr ([(gr_alias (named 97 1), topic_id (named 97 1))], (ready_register s)\<lparr>storage := s'\<rparr>)"
proof -
  obtain s where s: "stores GRADIDO_BLOCK_SIZE s [GROUP_RECORD (named 97 1)]"
    by (rule one_group_store)
  then show ?thesis
    using groups_listed [of "ready_register s" "[GROUP_RECORD (named 97 1)]" 0]
    by (auto simp: groups_of_def)
qed

text \<open>The records a register stores: a record is successful if none before it has its alias.\<close>

definition first_come :: "GroupRecord list \<Rightarrow> GroupRecord list" where
  "first_come grs =
     map (\<lambda>i. (grs ! i)\<lparr>success := (gr_alias (grs ! i) \<notin> gr_alias ` set (take i grs))\<rparr>) [0..<length grs]"

lemma first_come_snoc [simp]:
  "first_come [] = []"
  "first_come (grs @ [gr]) = first_come grs @ [gr\<lparr>success := (gr_alias gr \<notin> gr_alias ` set grs)\<rparr>]"
  by (auto simp: first_come_def nth_append)

lemma groups_of_first_come:
  "distinct (map fst (groups_of (map GROUP_RECORD (first_come grs)))) \<and>
   set (map fst (groups_of (map GROUP_RECORD (first_come grs)))) = gr_alias ` set grs"
  by (induction grs rule: rev_induct) (auto simp: groups_of_def)

definition register_batch :: "GroupRecord \<Rightarrow> GroupRegisterRecord Batch" where
  "register_batch gr = \<lparr>buff = Some [GROUP_RECORD gr], reset_blockchain = False\<rparr>"

lemma register_run:
  assumes "stores GRADIDO_BLOCK_SIZE s []" "0 < batch"
    and "map (\<lambda>gr. sequenceNumber (gr_hedera_transaction gr)) grs = map of_nat [1..<length grs + 1]"
    and "\<forall>gr \<in> set grs. length (gr_alias gr) = GROUP_ALIAS_LENGTH"
  shows "\<exists>b. add_transactions (register_child sha img dec sz batch ra) now (map register_batch grs) (ready_register s) = Inr b \<and>
    chain_state b = READY \<and> inbound b = [] \<and> fmdom' (aliases (indexes b)) = gr_alias ` set grs \<and>
    stores GRADIDO_BLOCK_SIZE (storage b) (map GROUP_RECORD (first_come grs))"
  using assms(3,4)
proof (induction grs rule: rev_induct)
  case Nil
  then show ?case
    using assms(1) by (simp add: GroupRegister_new_def)
next
  case (snoc gr grs)
  have nums: "map (\<lambda>gr. sequenceNumber (gr_hedera_transaction gr)) grs = map of_nat [1..<length grs + 1]"
      "sequenceNumber (gr_hedera_transaction gr) = of_nat (length grs + 1)"
    using snoc.prems(1) by simp_all
  obtain b where b: "add_transactions (register_child sha img dec sz batch ra) now (map register_batch grs) (ready_register s) = Inr b"
      "chain_state b = READY" "inbound b = []" "fmdom' (aliases (indexes b)) = gr_alias ` set grs"
      "stores GRADIDO_BLOCK_SIZE (storage b) (map GROUP_RECORD (first_come grs))"
    using snoc.IH nums(1) snoc.prems(2) by auto
  have latest: "admissible (register_child sha img dec sz batch ra)
      (register_latest_of (map GROUP_RECORD (first_come grs))) (of_nat (length grs + 1))"
  proof (cases grs rule: rev_cases)
    case (snoc hs h)
    then have "sequenceNumber (gr_hedera_transaction h) = of_nat (length grs)"
      using nums(1) by simp
    then show ?thesis
      using snoc by (simp add: admissible_def register_latest_of_def)
  qed (simp add: admissible_def register_latest_of_def)
  have fresh: "fmlookup (aliases (indexes b)) (gr_alias gr) = None \<longleftrightarrow> gr_alias gr \<notin> gr_alias ` set grs"
    using b(4) by (metis fmdom'_notD fmdom'_notI)
  have "\<exists>s' c. add_transaction (register_child sha img dec sz batch ra) now (register_batch gr) b
        = Inr (b\<lparr>storage := s', indexes := c\<rparr>) \<and>
      stores GRADIDO_BLOCK_SIZE s' (map GROUP_RECORD (first_come grs) @
        [GROUP_RECORD (gr\<lparr>success := (fmlookup (aliases (indexes b)) (gr_alias gr) = None)\<rparr>)]) \<and>
      fmdom' (aliases c) = insert (gr_alias gr) (fmdom' (aliases (indexes b)))"
    unfolding register_batch_def
    by (rule register_record_stored [OF b(2,3) assms(2) b(5)])
      (use latest nums(2) snoc.prems(2) in \<open>auto simp: list_all_iff is_group_record_def GROUP_ALIAS_LENGTH_def\<close>)
  then show ?case
    using add_transactions_snoc [OF b(1), of "register_batch gr"] b(2-4) fresh by auto
qed

text \<open>
  C21. A group register that starts empty serves the groups in the order of their records, as long as it
  is not restarted. When group records arrive one by one, numbered from 1, all of them are stored, and a
  record is marked successful exactly if no record before it has its alias. The groups listed afterwards
  are all aliases that were asked for, each once.
\<close>

theorem register_in_order:
  assumes "stores GRADIDO_BLOCK_SIZE s []" "0 < batch"
    and "map (\<lambda>gr. sequenceNumber (gr_hedera_transaction gr)) grs = map of_nat [1..<length grs + 1]"
    and "\<forall>gr \<in> set grs. length (gr_alias gr) = GROUP_ALIAS_LENGTH"
  shows "\<exists>b gs b'.
    add_transactions (register_child sha img dec sz batch ra) now (map register_batch grs) (ready_register s) = Inr b \<and>
    stores GRADIDO_BLOCK_SIZE (storage b) (map (\<lambda>i. GROUP_RECORD ((grs ! i)
      \<lparr>success := (gr_alias (grs ! i) \<notin> gr_alias ` set (take i grs))\<rparr>)) [0..<length grs]) \<and>
    get_groups now' b = Inr (gs, b') \<and> distinct (map fst gs) \<and> set (map fst gs) = gr_alias ` set grs"
proof -
  obtain b where b: "add_transactions (register_child sha img dec sz batch ra) now (map register_batch grs) (ready_register s) = Inr b"
      "chain_state b = READY" "stores GRADIDO_BLOCK_SIZE (storage b) (map GROUP_RECORD (first_come grs))"
    using register_run [OF assms] by blast
  have "map GROUP_RECORD (first_come grs) = map (\<lambda>i. GROUP_RECORD ((grs ! i)
      \<lparr>success := (gr_alias (grs ! i) \<notin> gr_alias ` set (take i grs))\<rparr>)) [0..<length grs]"
    by (simp add: first_come_def comp_def)
  moreover obtain b' where "get_groups now' b = Inr (groups_of (map GROUP_RECORD (first_come grs)), b')"
    using groups_listed [OF b(2,3)] by blast
  ultimately show ?thesis
    using b groups_of_first_come [of grs] by (intro exI [of _ b]) simp
qed

theorem register_in_order_witness:
  "\<exists>s b gs b'. add_transactions plain_register 0
       (map register_batch [named 97 1, named 97 2, named 98 3]) (ready_register s) = Inr b \<and>
     stores GRADIDO_BLOCK_SIZE (storage b)
       [GROUP_RECORD (named 97 1), GROUP_RECORD ((named 97 2)\<lparr>success := False\<rparr>), GROUP_RECORD (named 98 3)] \<and>
     get_groups 0 b = Inr (gs, b') \<and> set (map fst gs) = {gr_alias (named 97 1), gr_alias (named 98 3)}"
proof -
  obtain s :: "GroupRegisterRecord Blockchain" where s: "stores GRADIDO_BLOCK_SIZE s []"
    by (rule empty_store [of GRADIDO_BLOCK_SIZE 100 100]) (simp_all add: GRADIDO_BLOCK_SIZE_def)
  let ?grs = "[named 97 1, named 97 2, named 98 3]"
  have keep: "(named x n)\<lparr>success := True\<rparr> = named x n" for x n
    by (simp add: named_def)
  have "\<exists>b gs b'. add_transactions plain_register 0 (map register_batch ?grs) (ready_register s) = Inr b \<and>
    stores GRADIDO_BLOCK_SIZE (storage b) (map (\<lambda>i. GROUP_RECORD ((?grs ! i)
      \<lparr>success := (gr_alias (?grs ! i) \<notin> gr_alias ` set (take i ?grs))\<rparr>)) [0..<length ?grs]) \<and>
    get_groups 0 b = Inr (gs, b') \<and> distinct (map fst gs) \<and> set (map fst gs) = gr_alias ` set ?grs"
    unfolding plain_register_def
    by (rule register_in_order [OF s]) (simp_all add: GROUP_ALIAS_LENGTH_def)
  then show ?thesis
    by (auto simp: keep)
qed

text \<open>
  A restart frees the aliases: the index is rebuilt with the alias up to its first zero byte as
  the key, while a new record is looked up by the whole field. A record with a taken alias is
  rejected by the node that took the alias, but accepted after a restart; at the next restart the
  two successful records make the rebuilding of the index fail, and the stored blockchain is
  discarded.
\<close>

theorem alias_taken_twice_after_restart:
  assumes "0 \<in> set (gr_alias g)" "success g" "gr_alias h = gr_alias g" "success h"
  shows "\<exists>live restarted.
    register_calc 0 [GROUP_RECORD g] GroupRegister_new = Inr (True, [GROUP_RECORD g], live) \<and>
    register_calc 2 [GROUP_RECORD h] live = Inr (True, [GROUP_RECORD (h\<lparr>success := False\<rparr>)], live) \<and>
    fold_index register_index_record [(0, GROUP_RECORD g)] GroupRegister_new = Inr (True, restarted) \<and>
    (\<exists>c. register_calc 2 [GROUP_RECORD h] restarted = Inr (True, [GROUP_RECORD h], c)) \<and>
    (\<exists>c. fold_index register_index_record [(0, GROUP_RECORD g), (1, GROUP_RECORD h)] GroupRegister_new
       = Inr (False, c))"
proof -
  obtain key where key: "c_str (gr_alias g) = Inr key"
    using assms(1) by (simp add: c_str_def)
  have diff: "key \<noteq> gr_alias g"
    using key assms(1) by (auto simp: c_str_def takeWhile_eq_all_conv split: if_split_asm)
  have ne: "gr_alias g \<noteq> []" "0 < length (gr_alias g)"
    using assms(1) by auto
  have same: "g\<lparr>success := True\<rparr> = g" "h\<lparr>success := True\<rparr> = h"
    using assms(2,4) by (simp_all add: GroupRecord.equality)
  show ?thesis
    using key diff ne same assms
    by (simp add: register_calc_def register_index_record_def GroupRegister_new_def Let_def)
qed

theorem alias_taken_twice_after_restart_witness:
  "\<exists>c. fold_index register_index_record [(0, GROUP_RECORD (named 97 1)), (1, GROUP_RECORD (named 97 2))]
     GroupRegister_new = Inr (False, c)"
  using alias_taken_twice_after_restart [of "named 97 1" "named 97 2"]
  by (auto simp: GROUP_ALIAS_LENGTH_def simp del: fold_index.simps)

end
