(* ===== verification/Group_Chain.thy ===== *)
theory Group_Chain
  imports Ledger_Properties Group_Register
begin

text \<open>
  The blockchain of a group: the ledger of \<open>src/blockchain_gradido.cpp\<close> as a concrete blockchain of
  the common code. This theory has the virtual methods that read the storage, shows that they
  fulfil the contract of the common code, and draws the consequences for the ledger.
\<close>

section \<open>The virtual methods\<close>

text \<open>
  \<open>get_latest_transaction_id\<close>: the records are tried from the last but one down to the first, until
  one is a transaction.
\<close>

fun latest_scan ::
  "nat \<Rightarrow> nat \<Rightarrow> GradidoRecord Blockchain \<Rightarrow> (u64 option \<times> GradidoRecord Blockchain) res" where
  "latest_scan now 0 s =
     bind_res (get_record GRADIDO_BLOCK_SIZE now 0 s) (\<lambda>((r, _), s1).
       case r of
         Some (PAYLOAD (GRADIDO_TRANSACTION tr)) \<Rightarrow> Inr (Some (sequenceNumber (hedera_transaction tr)), s1)
       | _ \<Rightarrow> Inr (None, s1))"
| "latest_scan now (Suc n) s =
     bind_res (get_record GRADIDO_BLOCK_SIZE now (Suc n) s) (\<lambda>((r, _), s1).
       case r of
         None \<Rightarrow> Inr (None, s1)
       | Some (PAYLOAD (GRADIDO_TRANSACTION tr)) \<Rightarrow> Inr (Some (sequenceNumber (hedera_transaction tr)), s1)
       | Some _ \<Rightarrow> latest_scan now n s1)"

definition group_latest ::
  "nat \<Rightarrow> GradidoRecord Blockchain \<Rightarrow> (u64 option \<times> GradidoRecord Blockchain) res" where
  "group_latest now s =
     (if get_rec_count s = 0 \<or> get_rec_count s = 1 then Inr (None, s)
      else latest_scan now (get_rec_count s - 2) s)"

text \<open>
  The comparison and \<open>get_transaction_id\<close> read the first record as a transaction; a structurally bad
  message begins with the same header.
\<close>

definition group_transaction_id :: "GradidoRecord list \<Rightarrow> u64 res" where
  "group_transaction_id rs =
     (case rs of
        [] \<Rightarrow> Inl (Undefined ''empty buffer'')
      | GRADIDO_TRANSACTION tr # _ \<Rightarrow> Inr (sequenceNumber (hedera_transaction tr))
      | STRUCTURALLY_BAD_MESSAGE m # _ \<Rightarrow> Inr (sequenceNumber (hedera_transaction m))
      | BLANK # _ \<Rightarrow> Inr 0
      | _ \<Rightarrow> inactive_member)"

definition group_calc ::
  "'a::floor_ceiling decay_env \<Rightarrow> facade \<Rightarrow> nat \<Rightarrow> GradidoRecord list \<Rightarrow> GroupLedger
     \<Rightarrow> (bool \<times> GradidoRecord list \<times> GroupLedger) res" where
  "group_calc env gf n rs L =
     (if waiting_for_paired L then Inr (False, rs, L)
      else case rs of
        [] \<Rightarrow> Inl (Undefined ''empty buffer'')
      | GRADIDO_TRANSACTION tr # rest \<Rightarrow>
          bind_res (calc_fields_and_update_indexes_for env gf (of_nat n) tr L) (\<lambda>(proceed, tr', L').
            Inr (proceed, GRADIDO_TRANSACTION tr' # rest, L'))
      | _ \<Rightarrow> inactive_member)"

definition group_index_record :: "nat \<Rightarrow> GradidoRecord \<Rightarrow> GroupLedger \<Rightarrow> (bool \<times> GroupLedger) res" where
  "group_index_record n pp L = bind_res (index_record (of_nat n) pp L) (\<lambda>L'. Inr (True, L'))"

definition add_index_data ::
  "nat \<Rightarrow> nat \<Rightarrow> GradidoRecord Blockchain \<Rightarrow> GroupLedger
     \<Rightarrow> (bool \<times> GradidoRecord Blockchain \<times> GroupLedger) res" where
  "add_index_data now indexed s L =
     index_blocks group_index_record now [indexed..<get_checksum_valid_block_count s] s L"

definition group_child ::
  "'a::floor_ceiling decay_env \<Rightarrow> facade \<Rightarrow> (bytes \<Rightarrow> bytes) \<Rightarrow> (GradidoRecord Record \<Rightarrow> bytes)
     \<Rightarrow> (bytes \<Rightarrow> GradidoRecord) \<Rightarrow> nat \<Rightarrow> nat \<Rightarrow> bool \<Rightarrow> (GradidoRecord, GroupLedger) child" where
  "group_child env gf sha img dec sz batch reset_allowed =
     \<lparr>child_latest = group_latest, child_id = group_transaction_id, child_calc = group_calc env gf,
      child_clear = clear_indexes, child_index = add_index_data, child_ready = Pair [],
      child_valid = (\<lambda>_. True), chain_sha = sha, chain_img = img, sizeof_T = sz, from_bytes = dec,
      batch_size = batch, topic_reset_allowed = reset_allowed\<rparr>"

text \<open>\<open>get_transaction\<close>, for a record and for a transaction; the record found is dereferenced.\<close>

definition get_transaction_record ::
  "nat \<Rightarrow> nat \<Rightarrow> (GradidoRecord, GroupLedger) chain
     \<Rightarrow> (GradidoRecord option \<times> (GradidoRecord, GroupLedger) chain) res" where
  "get_transaction_record now seq_num b =
     (if get_rec_count (storage b) \<le> seq_num then Inr (None, b)
      else bind_res (get_record GRADIDO_BLOCK_SIZE now seq_num (storage b)) (\<lambda>((r, _), s).
        case r of
          None \<Rightarrow> Inl (Undefined ''null pointer'')
        | Some (PAYLOAD p) \<Rightarrow> Inr (Some p, b\<lparr>storage := s\<rparr>)
        | Some EMPTY \<Rightarrow> Inr (Some BLANK, b\<lparr>storage := s\<rparr>)
        | Some _ \<Rightarrow> inactive_member))"

definition get_transaction ::
  "nat \<Rightarrow> nat \<Rightarrow> (GradidoRecord, GroupLedger) chain
     \<Rightarrow> (Transaction option \<times> (GradidoRecord, GroupLedger) chain) res" where
  "get_transaction now seq_num b =
     bind_res (get_transaction_record now seq_num b) (\<lambda>(r, b1).
       Inr (case r of Some (GRADIDO_TRANSACTION tr) \<Rightarrow> Some tr | _ \<Rightarrow> None, b1))"


section \<open>What the storage holds at a position\<close>

definition payloads_upto :: "nat \<Rightarrow> nat" where
  "payloads_upto n = n + 1 - (n + 1) div 1000"

lemma payloads_upto_split:
  assumes "j < 1000"
  shows "payloads_upto (q * 1000 + j) = q * 999 + (if j = 999 then 999 else j + 1)"
proof -
  have "(q * 1000 + j + 1) div 1000 = q + (j + 1) div 1000"
    by simp
  moreover have "(j + 1) div 1000 = (if j = 999 then 1 else 0)"
    using assms by auto
  ultimately show ?thesis
    by (auto simp: payloads_upto_def)
qed

lemma block_of_position:
  assumes st: "stores GRADIDO_BLOCK_SIZE s ps" and n: "n + 1 < rec_count s"
  defines "q \<equiv> n div 1000" and "j \<equiv> n mod 1000"
  shows "q < block_total 1000 (length ps)"
    and "j < length (block_payloads 1000 q ps) \<or> j = 999 \<and> length (block_payloads 1000 q ps) = 999"
proof -
  define T where "T = block_total 1000 (length ps)"
  have nq: "n = q * 1000 + j" "j < 1000"
    by (simp_all add: q_def j_def)
  have cover: "length ps \<le> T * 999"
    using block_total_covers [of 1000 "length ps"] by (simp add: T_def)
  have rc: "rec_count s = length ps + T"
    using storesD(4) [OF st] by (simp add: T_def GRADIDO_BLOCK_SIZE_def)
  have "n < T * 1000"
    using n rc cover by simp
  then show q: "q < block_total 1000 (length ps)"
    using nq by (simp add: T_def)
  have tight: "(T - 1) * 999 < length ps"
  proof (cases ps)
    case Nil
    then show ?thesis using n rc by (simp add: T_def)
  next
    case (Cons p qs)
    then have "T = length qs div 999 + 1"
      by (simp add: T_def block_total_Suc)
    then show ?thesis
      using Cons div_times_less_eq_dividend [of "length qs" 999] by simp
  qed
  have len: "length (block_payloads 1000 q ps) = min 999 (length ps - q * 999)"
    by (simp add: block_payloads_def)
  show "j < length (block_payloads 1000 q ps) \<or> j = 999 \<and> length (block_payloads 1000 q ps) = 999"
  proof (cases "q + 1 < T")
    case True
    then have "(q + 1) * 999 \<le> (T - 1) * 999"
      by (intro mult_le_mono1) simp
    then have "length (block_payloads 1000 q ps) = 999"
      using tight len by simp
    then show ?thesis
      using nq(2) by auto
  next
    case False
    then have "T = q + 1"
      using q by (simp add: T_def)
    then show ?thesis
      using n rc nq len cover by auto
  qed
qed


lemma record_at:
  assumes st: "stores GRADIDO_BLOCK_SIZE s ps" and n: "n + 1 < rec_count s"
  obtains r s' where "get_record GRADIDO_BLOCK_SIZE now n s = Inr ((Some r, OK), s')"
    "stores GRADIDO_BLOCK_SIZE s' ps"
    "(\<exists>c. r = CHECKSUM c) \<and> 0 < n \<and> payloads_upto n = payloads_upto (n - 1) \<or>
     r = PAYLOAD (ps ! (payloads_upto n - 1)) \<and> 0 < payloads_upto n \<and> payloads_upto n \<le> length ps \<and>
       (0 < n \<longrightarrow> payloads_upto (n - 1) = payloads_upto n - 1)"
proof -
  define q j where "q = n div 1000" and "j = n mod 1000"
  have nq: "n = q * 1000 + j" "j < 1000"
    by (simp_all add: q_def j_def)
  have pos: "q < block_total 1000 (length ps)"
      "j < length (block_payloads 1000 q ps) \<or> j = 999 \<and> length (block_payloads 1000 q ps) = 999"
    using block_of_position [OF st n] by (simp_all add: q_def j_def)
  obtain s' where s': "get_block GRADIDO_BLOCK_SIZE now q s
        = Inr ((Some (file_contents (BlockFile q) (ft s)), OK), s')" "stores GRADIDO_BLOCK_SIZE s' ps"
    by (rule get_block_ok [OF st, of q now]) (use pos(1) in \<open>simp_all add: GRADIDO_BLOCK_SIZE_def\<close>)
  define qs where "qs = block_payloads 1000 q ps"
  obtain c m where block: "file_contents (BlockFile q) (ft s) = map PAYLOAD qs @ CHECKSUM c # replicate m EMPTY"
      "length qs + 1 + m = 1000"
    using storesD(6) [OF st, of q] pos(1) by (auto simp: is_block_def qs_def GRADIDO_BLOCK_SIZE_def)
  have get: "get_record GRADIDO_BLOCK_SIZE now n s = Inr ((Some ((map PAYLOAD qs @ CHECKSUM c # replicate m EMPTY) ! j), OK), s')"
    using s' n block nq(2) by (simp add: get_record_def q_def j_def GRADIDO_BLOCK_SIZE_def)
  have up: "payloads_upto n = q * 999 + (if j = 999 then 999 else j + 1)"
    using payloads_upto_split [OF nq(2), of q] nq(1) by simp
  show thesis
  proof (cases "j < length qs")
    case True
    have "q * 999 \<le> length ps"
      using True by (simp add: qs_def block_payloads_def) linarith
    then have qs: "length qs = min 999 (length ps - q * 999)" "qs ! j = ps ! (q * 999 + j)"
      using True by (simp_all add: qs_def block_payloads_def)
    then have "j < 999" "q * 999 + j < length ps"
      using True by (simp_all add: less_diff_conv add.commute)
    moreover have "payloads_upto (n - 1) = payloads_upto n - 1" if "0 < n"
    proof (cases j)
      case 0
      with that nq obtain q' where "q = Suc q'"
        by (cases q) simp_all
      then show ?thesis
        using payloads_upto_split [of 999 q'] nq(1) 0 up by (simp add: add.commute)
    next
      case (Suc i)
      then show ?thesis
        using payloads_upto_split [of i q] nq up \<open>j < 999\<close> by simp
    qed
    ultimately show thesis
      using True get s'(2) up qs(2) by (intro that [OF get s'(2)]) (simp add: nth_append)
  next
    case False
    then have j: "j = 999" "length qs = 999"
      using pos(2) by (simp_all add: qs_def)
    then have "payloads_upto (n - 1) = payloads_upto n"
      using payloads_upto_split [of 998 q] nq up by (simp add: add.commute)
    then show thesis
      using get s'(2) j nq by (intro that [OF get s'(2)]) (simp add: nth_append)
  qed
qed

definition is_transaction :: "GradidoRecord \<Rightarrow> bool" where
  "is_transaction r = (case r of GRADIDO_TRANSACTION _ \<Rightarrow> True | _ \<Rightarrow> False)"

text \<open>The number of the last transaction among the payloads.\<close>

fun number_of :: "GradidoRecord \<Rightarrow> u64" where
  "number_of (GRADIDO_TRANSACTION tr) = sequenceNumber (hedera_transaction tr)"
| "number_of _ = 0"

definition group_latest_of :: "GradidoRecord list \<Rightarrow> u64 option" where
  "group_latest_of ps = map_option number_of (List.find is_transaction (rev ps))"

lemma group_latest_of_snoc [simp]:
  "group_latest_of [] = None"
  "group_latest_of (ps @ [p]) = (if is_transaction p then Some (number_of p) else group_latest_of ps)"
  by (simp_all add: group_latest_of_def)

lemma latest_scan_ok:
  assumes "stores GRADIDO_BLOCK_SIZE s ps" "n + 1 < rec_count s"
  shows "\<exists>s'. latest_scan now n s = Inr (group_latest_of (take (payloads_upto n) ps), s') \<and>
    stores GRADIDO_BLOCK_SIZE s' ps"
  using assms
proof (induction n arbitrary: s)
  case 0
  obtain r s' where r: "get_record GRADIDO_BLOCK_SIZE now 0 s = Inr ((Some r, OK), s')"
      "stores GRADIDO_BLOCK_SIZE s' ps" "r = PAYLOAD (ps ! 0)" "0 < length ps"
    by (rule record_at [OF 0, of now]) (auto simp: payloads_upto_def Suc_le_eq)
  then have "take (payloads_upto 0) ps = [ps ! 0]"
    by (cases ps) (simp_all add: payloads_upto_def)
  then show ?case
    using r group_latest_of_snoc(2) [of "[]" "ps ! 0"]
    by (cases "ps ! 0") (simp_all add: is_transaction_def)
next
  case (Suc n)
  obtain r s' where r: "get_record GRADIDO_BLOCK_SIZE now (Suc n) s = Inr ((Some r, OK), s')"
      "stores GRADIDO_BLOCK_SIZE s' ps"
      "(\<exists>c. r = CHECKSUM c) \<and> payloads_upto (Suc n) = payloads_upto n \<or>
       r = PAYLOAD (ps ! payloads_upto n) \<and> payloads_upto (Suc n) = Suc (payloads_upto n) \<and>
         payloads_upto n < length ps"
    by (rule record_at [OF Suc.prems, of now]) (auto simp: Suc_le_eq)
  have "n + 1 < rec_count s'"
    using Suc.prems storesD(4) [OF r(2)] storesD(4) [OF Suc.prems(1)] by simp
  note IH = Suc.IH [OF r(2) this]
  from r(3) show ?case
  proof (elim disjE conjE exE)
    fix c
    assume "r = CHECKSUM c" "payloads_upto (Suc n) = payloads_upto n"
    then show ?thesis
      using r(1) IH by simp
  next
    assume p: "r = PAYLOAD (ps ! payloads_upto n)" "payloads_upto (Suc n) = Suc (payloads_upto n)"
      "payloads_upto n < length ps"
    then show ?thesis
      using r(1,2) IH by (cases "ps ! payloads_upto n") (auto simp: take_Suc_conv_app_nth is_transaction_def)
  qed
qed

lemma group_latest_ok:
  assumes st: "stores GRADIDO_BLOCK_SIZE s ps"
  shows "\<exists>s'. group_latest now s = Inr (group_latest_of ps, s') \<and> stores GRADIDO_BLOCK_SIZE s' ps"
proof (cases "ps = []")
  case True
  then show ?thesis
    using st storesD(1,4) [OF st] by (auto simp: group_latest_def get_rec_count_def)
next
  case False
  then have rc: "rec_count s = payload_index GRADIDO_BLOCK_SIZE (length ps - 1) + 2"
    using storesD(1,4) [OF st] payload_index_last [of GRADIDO_BLOCK_SIZE ps] by simp
  define k q j where "k = length ps - 1" and "q = k div 999" and "j = k mod 999"
  have k: "k = q * 999 + j" "j < 999"
    by (simp_all add: q_def j_def)
  have "rec_count s - 2 = k + q"
    using rc by (simp add: k_def q_def payload_index_def GRADIDO_BLOCK_SIZE_def)
  then have "rec_count s - 2 = q * 1000 + j"
    using k(1) by simp
  then have "payloads_upto (rec_count s - 2) = k + 1"
    using payloads_upto_split [of j q] k by simp
  then have "take (payloads_upto (rec_count s - 2)) ps = ps"
    using False by (simp add: k_def)
  then show ?thesis
    using latest_scan_ok [OF st, of "rec_count s - 2" now] rc by (simp add: group_latest_def get_rec_count_def)
qed



section \<open>The group blockchain fulfils the contract of the common code\<close>

lemma group_child_simps [simp]:
  "child_latest (group_child env gf sha img dec sz batch ra) = group_latest"
  "child_id (group_child env gf sha img dec sz batch ra) = group_transaction_id"
  "child_calc (group_child env gf sha img dec sz batch ra) = group_calc env gf"
  "child_index (group_child env gf sha img dec sz batch ra) = add_index_data"
  "child_ready (group_child env gf sha img dec sz batch ra) = Pair []"
  "child_valid (group_child env gf sha img dec sz batch ra) rs"
  "batch_size (group_child env gf sha img dec sz batch ra) = batch"
  "topic_reset_allowed (group_child env gf sha img dec sz batch ra) = ra"
  by (simp_all add: group_child_def)

interpretation grp: chain_child "group_child env gf sha img dec sz batch ra" group_latest_of "\<lambda>_. True"
  for env :: "'a::floor_ceiling decay_env" and gf sha img dec sz batch ra
  by unfold_locales (simp_all add: group_latest_ok quiet_def)


section \<open>Properties\<close>

text \<open>
  C4. A transaction that arrives at a ready group blockchain in order, and whose calculation lets it
  proceed, is appended with its calculated fields, and the ledger is the calculated one.
\<close>

theorem group_transaction_appended:
  assumes "chain_state b = READY" "inbound b = []" "0 < batch"
    and "stores GRADIDO_BLOCK_SIZE (storage b) ps"
    and "admissible (group_child env gf sha img dec sz batch ra) (group_latest_of ps)
           (sequenceNumber (hedera_transaction tr))"
    and "\<not> waiting_for_paired (indexes b)"
    and "calc_fields_and_update_indexes_for env gf (of_nat (rec_count (storage b))) tr (indexes b)
           = Inr (True, tr', L')"
  shows "\<exists>s. add_transaction (group_child env gf sha img dec sz batch ra) now
        \<lparr>buff = Some (GRADIDO_TRANSACTION tr # parts'), reset_blockchain = False\<rparr> b
      = Inr (b\<lparr>storage := s, indexes := L'\<rparr>) \<and>
    stores GRADIDO_BLOCK_SIZE s (ps @ GRADIDO_TRANSACTION tr' # parts')"
  by (rule grp.in_order_appended [where rs = "GRADIDO_TRANSACTION tr # parts'", OF assms(1,2) _ assms(4) _ _ _ _ _ assms(5)])
    (use assms in \<open>simp_all add: group_transaction_id_def group_calc_def get_rec_count_def list_all_iff\<close>)

definition plain_group :: "(GradidoRecord, GroupLedger) child" where
  "plain_group = group_child exact_env alone id (\<lambda>_. []) (\<lambda>_. BLANK) 0 10 False"

definition ready_group :: "GradidoRecord Blockchain \<Rightarrow> (GradidoRecord, GroupLedger) chain" where
  "ready_group s = (chain_new s GroupLedger_new)\<lparr>chain_state := READY\<rparr>"

lemma ready_group_simps [simp]:
  "chain_state (ready_group s) = READY" "storage (ready_group s) = s" "inbound (ready_group s) = []"
  "indexes (ready_group s) = GroupLedger_new" "outgoing (ready_group s) = []"
  by (simp_all add: ready_group_def chain_new_def)

lemma blank_group_store:
  obtains s :: "GradidoRecord Blockchain" where "stores GRADIDO_BLOCK_SIZE s []"
  by (rule empty_store [of GRADIDO_BLOCK_SIZE 100 100]) (simp_all add: GRADIDO_BLOCK_SIZE_def)

lemma one_group_transaction_store:
  obtains s :: "GradidoRecord Blockchain" where "stores GRADIDO_BLOCK_SIZE s [p]"
  by (rule one_record_store [of GRADIDO_BLOCK_SIZE p]) (simp_all add: GRADIDO_BLOCK_SIZE_def)

lemma at_one_number [simp]: "sequenceNumber (hedera_transaction (at_one x)) = 1"
  by (simp add: at_one_def)

lemma new_user_accepted:
  "calc_fields_and_update_indexes_for exact_env alone n (at_one (add_user alice)) GroupLedger_new
     = Inr (True, (at_one (add_user alice))\<lparr>result := result_code SUCCESS\<rparr>,
         GroupLedger_new\<lparr>user_index := fmupd alice (UserInfo_new
           \<lparr>last_record_with_balance := n, timestamp_of_last_balance := HederaTimestamp 1 0\<rparr>) fmempty\<rparr>)"
  by (simp add: calc_fields_and_update_indexes_for_def calc_add_user_def GroupLedger_new_def std_insert_def
      now_of_def at_one_def)

theorem group_transaction_appended_witness:
  "\<exists>b s L'. add_transaction plain_group 0
       \<lparr>buff = Some [GRADIDO_TRANSACTION (at_one (add_user alice))], reset_blockchain = False\<rparr> b
     = Inr (b\<lparr>storage := s, indexes := L'\<rparr>) \<and> fmlookup (user_index L') alice \<noteq> None \<and>
     stores GRADIDO_BLOCK_SIZE s
       [GRADIDO_TRANSACTION ((at_one (add_user alice))\<lparr>result := result_code SUCCESS\<rparr>)]"
proof -
  obtain s0 :: "GradidoRecord Blockchain" where s0: "stores GRADIDO_BLOCK_SIZE s0 []"
    by (rule blank_group_store)
  let ?L = "GroupLedger_new\<lparr>user_index := fmupd alice (UserInfo_new
     \<lparr>last_record_with_balance := of_nat (rec_count s0), timestamp_of_last_balance := HederaTimestamp 1 0\<rparr>) fmempty\<rparr>"
  have "\<exists>s. add_transaction plain_group 0
        \<lparr>buff = Some (GRADIDO_TRANSACTION (at_one (add_user alice)) # []), reset_blockchain = False\<rparr> (ready_group s0)
      = Inr ((ready_group s0)\<lparr>storage := s, indexes := ?L\<rparr>) \<and>
      stores GRADIDO_BLOCK_SIZE s ([] @ GRADIDO_TRANSACTION ((at_one (add_user alice))
        \<lparr>result := result_code SUCCESS\<rparr>) # [])"
    unfolding plain_group_def
    by (rule group_transaction_appended)
      (use s0 new_user_accepted in \<open>simp_all add: admissible_def GroupLedger_new_def\<close>)
  moreover have "fmlookup (user_index ?L) alice \<noteq> None"
    by simp
  ultimately show ?thesis
    unfolding append_Nil by blast
qed

text \<open>
  C9. A transaction that was appended already is ignored when it arrives again: the payloads and the
  ledger stay as they are.
\<close>

theorem group_duplicate_ignored:
  assumes "chain_state b = READY" "inbound b = []" "0 < batch"
    and "stores GRADIDO_BLOCK_SIZE (storage b) ps" "group_latest_of ps = Some n"
    and "sequenceNumber (hedera_transaction tr) \<le> n" "n < n + 1"
  shows "\<exists>s. add_transaction (group_child env gf sha img dec sz batch ra) now
        \<lparr>buff = Some [GRADIDO_TRANSACTION tr], reset_blockchain = False\<rparr> b = Inr (b\<lparr>storage := s\<rparr>) \<and>
    stores GRADIDO_BLOCK_SIZE s ps"
  by (rule grp.duplicate_ignored [where rs = "[GRADIDO_TRANSACTION tr]", OF assms(1,2) _ assms(4) _ _ _ _ _ assms(5,6)])
    (use assms in \<open>auto simp: group_transaction_id_def list_all_iff\<close>)


theorem group_duplicate_ignored_witness:
  "\<exists>b s. add_transaction plain_group 0
       \<lparr>buff = Some [GRADIDO_TRANSACTION (at_one (add_user bob))], reset_blockchain = False\<rparr> b = Inr (b\<lparr>storage := s\<rparr>) \<and>
     stores GRADIDO_BLOCK_SIZE s [GRADIDO_TRANSACTION (at_one (add_user alice))]"
proof -
  obtain s0 where s0: "stores GRADIDO_BLOCK_SIZE s0 [GRADIDO_TRANSACTION (at_one (add_user alice))]"
    by (rule one_group_transaction_store)
  have "\<exists>s. add_transaction plain_group 0
        \<lparr>buff = Some [GRADIDO_TRANSACTION (at_one (add_user bob))], reset_blockchain = False\<rparr> (ready_group s0)
      = Inr ((ready_group s0)\<lparr>storage := s\<rparr>) \<and>
      stores GRADIDO_BLOCK_SIZE s [GRADIDO_TRANSACTION (at_one (add_user alice))]"
    unfolding plain_group_def
    by (rule group_duplicate_ignored [where n = 1])
      (use s0 in \<open>simp_all add: group_latest_of_def is_transaction_def\<close>)
  then show ?thesis
    by blast
qed

lemma fold_group_index:
  "replay (map (\<lambda>(n, p). (of_nat n, p)) xs) L = Inr L' \<Longrightarrow> fold_index group_index_record xs L = Inr (True, L')"
proof (induction xs arbitrary: L)
  case (Cons x xs)
  obtain n p where x: "x = (n, p)"
    by (cases x)
  with Cons.prems obtain L1 where "index_record (of_nat n) p L = Inr L1"
      "replay (map (\<lambda>(n, p). (of_nat n, p)) xs) L1 = Inr L'"
    by (auto simp: bind_res_Inr_iff)
  with Cons.IH x show ?case
    by (simp add: group_index_record_def)
qed simp

lemma add_index_data_replay:
  assumes "stores GRADIDO_BLOCK_SIZE s ps"
    and "replay (map (\<lambda>(n, p). (of_nat n, p)) (numbered ps)) L = Inr L'"
  obtains s' where "add_index_data now 0 s L = Inr (True, s', L')" "stores GRADIDO_BLOCK_SIZE s' ps"
proof -
  have "get_checksum_valid_block_count s = block_total GRADIDO_BLOCK_SIZE (length ps)"
    using storesD(5) [OF assms(1)] by (simp add: get_checksum_valid_block_count_def)
  moreover obtain s' where "index_blocks group_index_record now
      [0..<block_total GRADIDO_BLOCK_SIZE (length ps)] s L = Inr (True, s', L')" "stores GRADIDO_BLOCK_SIZE s' ps"
    by (rule index_all_blocks [OF assms(1) fold_group_index [OF assms(2)]])
  ultimately show thesis
    by (intro that) (simp_all add: add_index_data_def)
qed

text \<open>
  C28. Rebuilding the indexes from a store goes through its payloads in order: the result is the replay
  of the payloads with their record numbers.
\<close>

theorem indexes_rebuilt:
  assumes "stores GRADIDO_BLOCK_SIZE s ps"
    and "replay (map (\<lambda>(n, p). (of_nat n, p)) (numbered ps)) L = Inr L'"
  shows "\<exists>s'. add_index_data now 0 s L = Inr (True, s', L') \<and> stores GRADIDO_BLOCK_SIZE s' ps"
  by (rule add_index_data_replay [OF assms, of now]) blast

definition added :: Transaction where
  "added = (at_one (add_user alice))\<lparr>result := result_code SUCCESS\<rparr>"

theorem indexes_rebuilt_witness:
  "\<exists>s s' L'. add_index_data 0 0 s GroupLedger_new = Inr (True, s', L') \<and>
     stores GRADIDO_BLOCK_SIZE s' [GRADIDO_TRANSACTION added] \<and> fmlookup (user_index L') alice \<noteq> None"
proof -
  obtain s where s: "stores GRADIDO_BLOCK_SIZE s [GRADIDO_TRANSACTION added]"
    by (rule one_group_transaction_store)
  have "block_total GRADIDO_BLOCK_SIZE (Suc 0) = 1" "block_payloads GRADIDO_BLOCK_SIZE 0 [GRADIDO_TRANSACTION added]
      = [GRADIDO_TRANSACTION added]"
    by (simp_all add: block_total_def block_payloads_def GRADIDO_BLOCK_SIZE_def)
  then have n: "numbered [GRADIDO_TRANSACTION added] = [(0, GRADIDO_TRANSACTION added)]"
    by (simp add: numbered_def numbered_block_def)
  obtain L' where L': "replay (map (\<lambda>(n, p). (of_nat n, p)) (numbered [GRADIDO_TRANSACTION added])) GroupLedger_new
      = Inr L'" "fmlookup (user_index L') alice \<noteq> None"
    unfolding n by (simp add: index_record_def index_transaction_def added_def GroupLedger_new_def)
  from indexes_rebuilt [OF s L'(1), of 0] L'(2) show ?thesis
    by blast
qed

text \<open>
  The record number a running node keeps for a balance is not the number of the record: within a
  block the record is written over the checksum, at the number of records less one.
\<close>

theorem live_record_number_off_by_one:
  assumes "stores GRADIDO_BLOCK_SIZE s ps" "length ps mod (GRADIDO_BLOCK_SIZE - 1) \<noteq> 0"
  shows "\<exists>s1 s2. bc_append sha img GRADIDO_BLOCK_SIZE now p s = Inr ((True, OK), s1) \<and>
    get_record GRADIDO_BLOCK_SIZE now (rec_count s - 1) s1 = Inr ((Some (PAYLOAD p), OK), s2)"
proof -
  obtain s1 where s1: "bc_append sha img GRADIDO_BLOCK_SIZE now p s = Inr ((True, OK), s1)"
      "stores GRADIDO_BLOCK_SIZE s1 (ps @ [p])"
    by (rule bc_append_refines [OF assms(1)]) (rule that)
  have "rec_count s = payload_index GRADIDO_BLOCK_SIZE (length ps) + 1"
    using storesD(1,4) [OF assms(1)] assms(2) by (simp add: block_total_eq payload_index_def)
  then have pos: "payload_index GRADIDO_BLOCK_SIZE (length ps) = rec_count s - 1"
    by simp
  obtain s2 where "get_record GRADIDO_BLOCK_SIZE now (payload_index GRADIDO_BLOCK_SIZE (length ps)) s1
      = Inr ((Some (PAYLOAD ((ps @ [p]) ! length ps)), OK), s2)"
    by (rule get_record_ok [OF s1(2), of "length ps" now]) simp_all
  then show ?thesis
    using s1(1) unfolding pos by auto
qed

theorem live_record_number_off_by_one_witness:
  "\<exists>(s :: GradidoRecord Blockchain) s1 s2. rec_count s = 2 \<and>
     bc_append id (\<lambda>_. []) GRADIDO_BLOCK_SIZE 0 BLANK s = Inr ((True, OK), s1) \<and>
     get_record GRADIDO_BLOCK_SIZE 0 1 s1 = Inr ((Some (PAYLOAD BLANK), OK), s2)"
proof -
  obtain s where s: "stores GRADIDO_BLOCK_SIZE s [GRADIDO_TRANSACTION added]"
    by (rule one_group_transaction_store)
  have two: "rec_count s = 2"
    using storesD(4) [OF s] by (simp add: block_total_def GRADIDO_BLOCK_SIZE_def)
  have "length [GRADIDO_TRANSACTION added] mod (GRADIDO_BLOCK_SIZE - 1) \<noteq> 0"
    by (simp add: GRADIDO_BLOCK_SIZE_def)
  from live_record_number_off_by_one [OF s this, of id "\<lambda>_. []" 0 BLANK] two show ?thesis
    by auto
qed


text \<open>
  C29. A group blockchain whose blocks have been fetched becomes ready in one validation step, with the
  indexes replayed from its records and a transaction count equal to the number of payloads. The
  transactions that were buffered meanwhile stay in the queue, and no task is pushed to continue
  with them.
\<close>

theorem fetched_chain_ready:
  assumes "chain_state b = VALIDATING" "stores GRADIDO_BLOCK_SIZE (storage b) ps" "indexed_blocks b = 0"
    and "replay (map (\<lambda>(n, p). (of_nat n, p)) (numbered ps)) (indexes b) = Inr L'"
  shows "\<exists>b'. continue_validation (group_child env gf sha img dec sz batch ra) now sibling b = Inr b' \<and>
    chain_state b' = READY \<and> indexes b' = L' \<and> get_transaction_count b' = length ps \<and>
    inbound b' = inbound b \<and> outgoing b' = outgoing b"
proof -
  obtain s where s: "add_index_data now 0 (storage b) (indexes b) = Inr (True, s, L')" "stores GRADIDO_BLOCK_SIZE s ps"
    by (rule add_index_data_replay [OF assms(2,4), of now]) (rule that)
  have "get_checksum_valid_block_count (storage b) = get_block_count (storage b)"
    using storesD(3,5) [OF assms(2)]
    by (simp add: get_checksum_valid_block_count_def get_block_count_def get_tile_count_def)
  then have run: "continue_validation (group_child env gf sha img dec sz batch ra) now sibling b
      = Inr (b\<lparr>chain_state := READY, storage := s, indexes := L'\<rparr>)"
    using assms(1,3) s(1) by (simp add: continue_validation_def validate_next_batch_def Let_def)
  have "get_transaction_count (b\<lparr>chain_state := READY, storage := s, indexes := L'\<rparr>) = length ps"
    using storesD(3,4) [OF s(2)]
    by (simp add: get_transaction_count_def get_rec_count_def get_block_count_def get_tile_count_def)
  with run show ?thesis
    by simp
qed

theorem fetched_chain_ready_witness:
  "\<exists>b b'. continue_validation plain_group 0 None b = Inr b' \<and> chain_state b' = READY \<and>
     inbound b' = [\<lparr>buff = Some [GRADIDO_TRANSACTION added], reset_blockchain = False\<rparr>] \<and> outgoing b' = []"
proof -
  obtain s :: "GradidoRecord Blockchain" where s: "stores GRADIDO_BLOCK_SIZE s []"
    by (rule blank_group_store)
  let ?b = "(ready_group s)\<lparr>chain_state := VALIDATING,
    inbound := [\<lparr>buff = Some [GRADIDO_TRANSACTION added], reset_blockchain = False\<rparr>]\<rparr>"
  have "numbered ([] :: GradidoRecord list) = []"
    by (simp add: numbered_def block_total_def GRADIDO_BLOCK_SIZE_def)
  then have "\<exists>b'. continue_validation plain_group 0 None ?b = Inr b' \<and>
      chain_state b' = READY \<and> indexes b' = GroupLedger_new \<and> get_transaction_count b' = length ([] :: GradidoRecord list) \<and>
      inbound b' = inbound ?b \<and> outgoing b' = outgoing ?b"
    unfolding plain_group_def
    by (intro fetched_chain_ready) (use s in \<open>simp_all add: ready_group_def chain_new_def\<close>)
  then show ?thesis
    by auto
qed

section \<open>Copying the blockchain of a sibling\<close>

text \<open>
  C3. A node copies the blockchain of a sibling that holds one block, full or not: the replies the
  sibling sends for the block and for the one after it leave the same payloads in the local storage,
  and validation starts. The layout of the records is a parameter: each of the payloads copied is
  recovered from the bytes sent for it.
\<close>

theorem sibling_copy:
  assumes "stores GRADIDO_BLOCK_SIZE (storage a) ps" "ps \<noteq> []" "length ps < GRADIDO_BLOCK_SIZE"
    and "chain_state b = FETCHING_BLOCKS" "stores GRADIDO_BLOCK_SIZE (storage b) []"
    and "fetched_data_count b = 0" "block_to_fetch b = 0" "length (fetched_checksums b) = 1"
    and "unat (fetched_record_count b) = length ps + 1"
    and "\<forall>p \<in> set ps. from_bytes ch (record_reply ch (PAYLOAD p)) = p \<and>
      sizeof_T ch \<le> length (record_reply ch (PAYLOAD p))"
    and "\<forall>rs. child_valid ch rs"
  shows "\<exists>replies a' b'. block_stream ch now 0 (length ps + 2) 0 a = Inr (replies, a') \<and>
    feed ch now (replies @ [None]) b = Inr b' \<and>
    chain_state b' = VALIDATING \<and> stores GRADIDO_BLOCK_SIZE (storage b') ps"
proof -
  have total: "0 < block_total GRADIDO_BLOCK_SIZE (length ps)"
    using assms(2) by (cases ps) (simp_all add: block_total_Suc GRADIDO_BLOCK_SIZE_def)
  have "block_payloads GRADIDO_BLOCK_SIZE 0 ps = ps"
    using assms(3) by (simp add: block_payloads_def GRADIDO_BLOCK_SIZE_def)
  then obtain c where c: "file_contents (BlockFile 0) (ft (storage a))
      = map PAYLOAD ps @ CHECKSUM c # replicate (GRADIDO_BLOCK_SIZE - 1 - length ps) EMPTY"
    using storesD(6) [OF assms(1) total] by (auto simp: is_block_def)
  obtain a' where a': "block_stream ch now 0 (length ps + 2) 0 a
      = Inr (map (Some \<circ> record_reply ch) (map PAYLOAD ps @ [CHECKSUM c]) @ [None], a')"
    using block_stream_ok [OF assms(1-3) c, of 0 "length ps + 2" ch now] assms(3) by auto
  obtain b' where "feed ch now (map (Some \<circ> (\<lambda>p. record_reply ch (PAYLOAD p))) ps
        @ [Some (record_reply ch (CHECKSUM c)), None, None]) b = Inr b'"
      "chain_state b' = VALIDATING" "stores GRADIDO_BLOCK_SIZE (storage b') ps"
    using fetch_copies_block [OF assms(4-9,3,10,11), of now] by blast
  with a' show ?thesis
    by (simp add: comp_def)
qed

text \<open>
  A layout for the records with the rest of a memo: the byte of the block record, the byte of the record
  type, and the bytes of the memo.
\<close>

definition memo_image :: "GradidoRecord Record \<Rightarrow> bytes" where
  "memo_image r = (case r of PAYLOAD (MEMO m) \<Rightarrow> [1, 2] @ m | _ \<Rightarrow> [0, 0])"

definition memo_group :: "(GradidoRecord, GroupLedger) child" where
  "memo_group = group_child exact_env alone id memo_image (\<lambda>bs. MEMO (drop 1 bs)) 352 10 False"

definition fetching_group :: "GradidoRecord Blockchain \<Rightarrow> (GradidoRecord, GroupLedger) chain" where
  "fetching_group s = (chain_new s GroupLedger_new)
     \<lparr>chain_state := FETCHING_BLOCKS, fetched_record_count := 2, fetched_checksums := [[]]\<rparr>"

theorem sibling_copy_witness:
  "\<exists>a b replies a' b'. stores GRADIDO_BLOCK_SIZE (storage a) [MEMO (replicate 351 97)] \<and>
     stores GRADIDO_BLOCK_SIZE (storage b) [] \<and>
     block_stream memo_group 0 0 3 0 a = Inr (replies, a') \<and>
     feed memo_group 0 (replies @ [None]) b = Inr b' \<and>
     stores GRADIDO_BLOCK_SIZE (storage b') [MEMO (replicate 351 97)]"
proof -
  obtain s :: "GradidoRecord Blockchain" where s: "stores GRADIDO_BLOCK_SIZE s [MEMO (replicate 351 97)]"
    by (rule one_record_store [of GRADIDO_BLOCK_SIZE "MEMO (replicate 351 97)"]) (simp_all add: GRADIDO_BLOCK_SIZE_def)
  obtain s0 :: "GradidoRecord Blockchain" where s0: "stores GRADIDO_BLOCK_SIZE s0 []"
    by (rule blank_group_store)
  have "\<forall>p \<in> set [MEMO (replicate 351 97)]. from_bytes memo_group (record_reply memo_group (PAYLOAD p)) = p \<and>
      sizeof_T memo_group \<le> length (record_reply memo_group (PAYLOAD p))" "\<forall>rs. child_valid memo_group rs"
    by (simp_all add: memo_group_def group_child_def memo_image_def record_reply_def)
  moreover have "Suc 0 < GRADIDO_BLOCK_SIZE"
    by (simp add: GRADIDO_BLOCK_SIZE_def)
  moreover have "chain_state (fetching_group s0) = FETCHING_BLOCKS" "storage (fetching_group s0) = s0"
      "fetched_data_count (fetching_group s0) = 0" "block_to_fetch (fetching_group s0) = 0"
      "fetched_checksums (fetching_group s0) = [[]]" "fetched_record_count (fetching_group s0) = 2"
    by (simp_all add: fetching_group_def chain_new_def)
  ultimately have "\<exists>replies a' b'.
      block_stream memo_group 0 0 (length [MEMO (replicate 351 97)] + 2) 0 (ready_group s) = Inr (replies, a') \<and>
      feed memo_group 0 (replies @ [None]) (fetching_group s0) = Inr b' \<and>
      chain_state b' = VALIDATING \<and> stores GRADIDO_BLOCK_SIZE (storage b') [MEMO (replicate 351 97)]"
    using s s0 by (intro sibling_copy) simp_all
  then obtain replies a' b' where
      "block_stream memo_group 0 0 3 0 (ready_group s) = Inr (replies, a')"
      "feed memo_group 0 (replies @ [None]) (fetching_group s0) = Inr b'"
      "stores GRADIDO_BLOCK_SIZE (storage b') [MEMO (replicate 351 97)]"
    by (auto simp: numeral_3_eq_3)
  then show ?thesis
    using s s0 \<open>storage (fetching_group s0) = s0\<close> by (metis ready_group_simps(2))
qed

end
