(* ===== verification/Record_Layout.thy ===== *)
theory Record_Layout
  imports Translate Group_Chain
begin

text \<open>
  The arrays of the structs of \<open>src/blockchain_gradido_def.h\<close> have fixed lengths, the lists that model them
  do not. This theory states the lengths and shows that the records that are made from messages have them
  and keep them when the blockchain fills in the calculated fields.
\<close>

section \<open>Lengths of the fields\<close>

definition signature_sized :: "Signature \<Rightarrow> bool" where
  "signature_sized s \<longleftrightarrow> length (sig_pubkey s) = PUB_KEY_LENGTH \<and> length (sig_signature s) = SIGNATURE_LENGTH"

fun body_sized :: "TransactionBody \<Rightarrow> bool" where
  "body_sized (gradido_creation c) \<longleftrightarrow> length (user c) = PUB_KEY_LENGTH"
| "body_sized (add_group_friend g) \<longleftrightarrow> length g = PUB_KEY_LENGTH"
| "body_sized (remove_group_friend g) \<longleftrightarrow> length g = PUB_KEY_LENGTH"
| "body_sized (add_user u) \<longleftrightarrow> length u = PUB_KEY_LENGTH"
| "body_sized (move_user_inbound m) \<longleftrightarrow> length (mu_user m) = PUB_KEY_LENGTH \<and> length (other_group m) = PUB_KEY_LENGTH"
| "body_sized (move_user_outbound m) \<longleftrightarrow> length (mu_user m) = PUB_KEY_LENGTH \<and> length (other_group m) = PUB_KEY_LENGTH"
| "body_sized (local_transfer l) \<longleftrightarrow>
     length (user (lt_sender l)) = PUB_KEY_LENGTH \<and> length (user (lt_receiver l)) = PUB_KEY_LENGTH"
| "body_sized (inbound_transfer x) \<longleftrightarrow> length (it_sender x) = PUB_KEY_LENGTH \<and>
     length (user (it_receiver x)) = PUB_KEY_LENGTH \<and> length (other_group x) = PUB_KEY_LENGTH"
| "body_sized (outbound_transfer x) \<longleftrightarrow> length (user (ot_sender x)) = PUB_KEY_LENGTH \<and>
     length (ot_receiver x) = PUB_KEY_LENGTH \<and> length (other_group x) = PUB_KEY_LENGTH"
| "body_sized (header h) \<longleftrightarrow> length (header_alias h) = GROUP_ALIAS_LENGTH \<and>
     length (ordering_node_pub_key h) = PUB_KEY_LENGTH"
| "body_sized (add_admin k) \<longleftrightarrow> length k = PUB_KEY_LENGTH"
| "body_sized (remove_admin k) \<longleftrightarrow> length k = PUB_KEY_LENGTH"
| "body_sized (add_node k) \<longleftrightarrow> length k = PUB_KEY_LENGTH"
| "body_sized (remove_node k) \<longleftrightarrow> length k = PUB_KEY_LENGTH"
| "body_sized initialization_done \<longleftrightarrow> True"
| "body_sized (other_transaction_type c) \<longleftrightarrow> True"

definition hedera_sized :: "HederaTransaction \<Rightarrow> bool" where
  "hedera_sized h \<longleftrightarrow> length (runningHash h) = HEDERA_RUNNING_HASH_LENGTH"

definition transaction_sized :: "Transaction \<Rightarrow> bool" where
  "transaction_sized tr \<longleftrightarrow> hedera_sized (hedera_transaction tr) \<and> signature_sized (tr_signature tr) \<and>
     body_sized (body tr) \<and> length (memo tr) = MEMO_MAIN_SIZE"

fun record_sized :: "GradidoRecord \<Rightarrow> bool" where
  "record_sized BLANK \<longleftrightarrow> True"
| "record_sized (GRADIDO_TRANSACTION tr) \<longleftrightarrow> transaction_sized tr"
| "record_sized (MEMO m) \<longleftrightarrow> length m = MEMO_PART_SIZE"
| "record_sized (SIGNATURES ss) \<longleftrightarrow> length ss = SIGNATURES_PER_RECORD \<and> list_all signature_sized ss"
| "record_sized (STRUCTURALLY_BAD_MESSAGE b) \<longleftrightarrow> hedera_sized (bad_hedera_transaction b)"
| "record_sized (RAW_MESSAGE m) \<longleftrightarrow> length m = MEMO_PART_SIZE"


section \<open>Translation\<close>

lemma copy_exact_length: "copy_exact n s = Inr f \<Longrightarrow> length f = n"
  by (auto simp: copy_exact_def split: if_splits)

lemma translate_Signature_sized: "translate_Signature_from_pb p = Inr s \<Longrightarrow> signature_sized s"
  by (auto simp: translate_Signature_from_pb_def signature_sized_def bind_res_Inr_iff dest: copy_exact_length)

lemma translate_data_sized: "translate_data d = Inr bd \<Longrightarrow> body_sized bd"
  by (cases d)
    (auto simp: translate_data_def translate_creation_def translate_friends_update_def translate_member_update_def
      translate_move_def translate_transfer_def translate_local_def translate_cross_def fresh_user_def bind_res_Inr_iff
      Let_def dest!: copy_exact_length copy_field_length split: pb_Transfer.splits if_splits)

lemma sig_part_sized: "sig_part ps n k cs = Inr (ss, cs') \<Longrightarrow> list_all signature_sized ss \<and> length ss \<le> k"
  by (induction ps n k cs arbitrary: ss cs' rule: sig_part.induct)
    (auto simp: bind_res_Inr_iff dest: translate_Signature_sized split: if_splits)

lemma Signature_zero_sized [simp]: "signature_sized Signature_zero"
  by (simp add: signature_sized_def Signature_zero_def)

lemma sig_records_sized:
  "sig_records ps n i cs = Inr rs \<Longrightarrow> list_all record_sized rs \<and> length rs = i"
proof (induction i arbitrary: cs rs)
  case (Suc i)
  then obtain ss cs' rs' where "sig_part ps n SIGNATURES_PER_RECORD cs = Inr (ss, cs')" "sig_records ps n i cs' = Inr rs'"
      "rs = SIGNATURES (ss @ replicate (SIGNATURES_PER_RECORD - length ss) Signature_zero) # rs'"
    by (auto simp: bind_res_Inr_iff)
  then show ?case
    using Suc.IH sig_part_sized [of ps n SIGNATURES_PER_RECORD cs ss cs'] by (auto simp: list_all_iff)
qed simp

lemma memo_sized: "length (main_memo m) = MEMO_MAIN_SIZE" "list_all record_sized (memo_records m)"
    "length (memo_records m) = (if multipart_memo m then 1 else 0)"
  by (auto simp: main_memo_def memo_records_def multipart_memo_def MEMO_MAIN_SIZE_def sizes)

lemma translation_parts:
  assumes "translate_gradido_from_ctr parse_gt parse_tb t = Inr b" "buff b = Some rs"
  obtains n m tr srs where "rs = GRADIDO_TRANSACTION tr # memo_records m @ srs" "n \<le> MAXIMUM_SIGNATURE_COUNT"
    "transaction_sized tr" "list_all record_sized srs" "length srs = sig_part_count n"
    "parts tr = of_nat (1 + (if multipart_memo m then 1 else 0) + sig_part_count n)"
proof -
  define gt where "gt = parse_gt (pb_message t)"
  define tb where "tb = parse_tb (pb_body_bytes gt)"
  define n where "n = unat (of_nat (length (pb_sig_pair gt)) :: u8)"
  obtain sig h bd srs where p: "n \<le> MAXIMUM_SIGNATURE_COUNT" "translate_Signature_from_pb (pb_sig_pair gt ! 0) = Inr sig"
      "translate_HederaTransaction_from_pb t = Inr h" "translate_data (pb_data tb) = Inr bd"
      "sig_records (pb_sig_pair gt) n (sig_part_count n) SIGNATURES_IN_MAIN_PART = Inr srs"
      "rs = GRADIDO_TRANSACTION (Transaction_zero
         \<lparr>version_number := ucast (pb_version_number tb),
          parts := of_nat (1 + (if multipart_memo (pb_memo tb) then 1 else 0) + sig_part_count n),
          hedera_transaction := h, tr_signature := sig, signature_count := of_nat (length (pb_sig_pair gt)), body := bd,
          result := result_code UNKNOWN, memo := main_memo (pb_memo tb)\<rparr>) # memo_records (pb_memo tb) @ srs"
    using assms
    unfolding translate_gradido_from_ctr_def Let_def gt_def [symmetric] tb_def [symmetric] n_def [symmetric]
    by (auto simp: reset_batch_def bind_res_Inr_iff not_less simp del: of_nat_add split: if_splits)
  show thesis
    by (rule that [OF p(6,1)])
      (use p sig_records_sized [OF p(5)] memo_sized(1) in
        \<open>auto simp: transaction_sized_def hedera_sized_def translate_HederaTransaction_from_pb_def bind_res_Inr_iff
           dest: translate_data_sized translate_Signature_sized copy_exact_length\<close>)
qed

lemma translation_sized:
  assumes "translate_gradido_from_ctr parse_gt parse_tb t = Inr b" "buff b = Some rs"
  shows "list_all record_sized rs" "\<exists>tr rest. rs = GRADIDO_TRANSACTION tr # rest \<and> unat (parts tr) = length rs"
proof -
  obtain n m tr srs where p: "rs = GRADIDO_TRANSACTION tr # memo_records m @ srs" "n \<le> MAXIMUM_SIGNATURE_COUNT"
    "transaction_sized tr" "list_all record_sized srs" "length srs = sig_part_count n"
    "parts tr = of_nat (1 + (if multipart_memo m then 1 else 0) + sig_part_count n)"
    by (rule translation_parts [OF assms])
  then show "list_all record_sized rs"
    using memo_sized(2) by simp
  have "1 + (if multipart_memo m then 1 else 0) + sig_part_count n < 2 ^ 32"
    using sig_part_count_small [of n] p(2) by (simp add: sizes split: if_splits)
  then have "unat (parts tr) = 1 + (if multipart_memo m then 1 else 0) + sig_part_count n"
    unfolding p(6) unat_of_nat by (intro mod_less) simp
  then show "\<exists>tr rest. rs = GRADIDO_TRANSACTION tr # rest \<and> unat (parts tr) = length rs"
    using p(1,5) memo_sized(3) [of m] by simp
qed


section \<open>Calculated fields\<close>

lemmas calc_steps =
  calc_gradido_creation_def calc_add_group_friend_def calc_remove_group_friend_def calc_add_user_def
  calc_move_user_inbound_def calc_move_user_outbound_def calc_local_transfer_def calc_inbound_transfer_def
  calc_outbound_transfer_def

definition same_shape :: "Transaction \<Rightarrow> Transaction \<Rightarrow> bool" where
  "same_shape tr tr' \<longleftrightarrow> (transaction_sized tr \<longrightarrow> transaction_sized tr') \<and>
     transaction_type (body tr') = transaction_type (body tr) \<and> parts tr' = parts tr \<and> memo tr' = memo tr"

lemma same_shape_refl [simp]: "same_shape tr tr" "same_shape tr (tr\<lparr>result := r\<rparr>)"
  by (simp_all add: same_shape_def transaction_sized_def)

lemma same_shape_body:
  "(body_sized (body tr) \<Longrightarrow> body_sized bd) \<Longrightarrow> transaction_type bd = transaction_type (body tr) \<Longrightarrow>
    same_shape tr (tr\<lparr>body := bd, result := r\<rparr>)"
  by (simp add: same_shape_def transaction_sized_def)

text \<open>Every outcome of a step has the shape of the transaction it was given.\<close>

definition keeps_shape :: "Transaction \<Rightarrow> step \<Rightarrow> bool" where
  "keeps_shape tr m \<longleftrightarrow> (\<forall>p tr' L'. m = Inr (p, tr', L') \<longrightarrow> same_shape tr tr')"

lemma keeps_shape_bind: "(\<And>x. keeps_shape tr (f x)) \<Longrightarrow> keeps_shape tr (bind_res m f)"
  by (auto simp: keeps_shape_def bind_res_Inr_iff)

lemma keeps_shape_simps [simp]:
  "keeps_shape tr (Inl e)" "keeps_shape tr (Inr (p, tr', L')) \<longleftrightarrow> same_shape tr tr'"
  "keeps_shape tr (reject c tr L)" "keeps_shape tr (request_paired gf mv g ptid tr L)" "keeps_shape tr end_iterator"
  by (simp_all add: keeps_shape_def reject_def request_paired_def end_iterator_def)

lemma calc_keeps_shape: "keeps_shape tr (calc_fields_and_update_indexes_for env gf k tr L)"
  by (cases "body tr")
    (auto simp: calc_fields_and_update_indexes_for_def calc_steps Let_def intro!: same_shape_body keeps_shape_bind
      split: option.split)

text \<open>
  The records still have their lengths when the blockchain has filled in the calculated fields, which changes
  neither their number nor their kinds, nor the type of the transaction, its number of parts and its memo.
\<close>

lemma records_keep_layout:
  assumes "translate_gradido_from_ctr parse_gt parse_tb t = Inr b" "buff b = Some rs"
    and "group_calc env gf n rs L = Inr (p, rs', L')"
  shows "list_all record_sized rs \<and> list_all record_sized rs' \<and> map record_type rs' = map record_type rs \<and>
    (\<exists>tr tr' rest. rs = GRADIDO_TRANSACTION tr # rest \<and> rs' = GRADIDO_TRANSACTION tr' # rest \<and>
       transaction_type (body tr') = transaction_type (body tr) \<and> parts tr' = parts tr \<and> memo tr' = memo tr \<and>
       unat (parts tr) = length rs)"
proof -
  obtain tr rest where rs: "rs = GRADIDO_TRANSACTION tr # rest" "unat (parts tr) = length rs"
    using translation_sized(2) [OF assms(1,2)] by blast
  then obtain tr' where calc: "rs' = GRADIDO_TRANSACTION tr' # rest" "same_shape tr tr'"
    using assms(3) calc_keeps_shape [of tr env gf "of_nat n" L]
    by (auto simp: group_calc_def keeps_shape_def bind_res_Inr_iff split: if_splits)
  then show ?thesis
    using translation_sized(1) [OF assms(1,2)] rs by (auto simp: same_shape_def)
qed


section \<open>Messages that are read without overruns\<close>

text \<open>
  What a message must have so that the translation reads nothing beyond the strings of the message, writes
  nothing beyond the fields of the records, and converts no number out of range. A string may be one byte
  shorter than the field it is copied to, since \<open>c_str()\<close> ends it with a null byte.
\<close>

definition covers :: "nat \<Rightarrow> bytes \<Rightarrow> bool" where
  "covers n s \<longleftrightarrow> n \<le> length s + 1"

definition pair_covers :: "SignaturePair \<Rightarrow> bool" where
  "pair_covers p \<longleftrightarrow> covers PUB_KEY_LENGTH (pb_pub_key p) \<and> covers SIGNATURE_LENGTH (pb_ed25519 p)"

definition amount_fits :: "pb_double \<Rightarrow> bool" where
  "amount_fits x \<longleftrightarrow> (case x of None \<Rightarrow> False | Some r \<Rightarrow> -1 < r \<and> r < 2 ^ 64)"

definition sender_fits :: "pb_Amount \<Rightarrow> bool" where
  "sender_fits a \<longleftrightarrow> amount_fits (pb_amount a) \<and> covers PUB_KEY_LENGTH (pb_pubkey a)"

definition cross_fits :: "CrossGroupTransfer \<Rightarrow> bool" where
  "cross_fits x \<longleftrightarrow> sender_fits (pb_cross_sender x) \<and> covers PUB_KEY_LENGTH (pb_cross_receiver x) \<and>
     length (pb_other_group x) \<le> PUB_KEY_LENGTH"

fun data_fits :: "pb_Data \<Rightarrow> bool" where
  "data_fits (pb_creation r) \<longleftrightarrow> sender_fits r"
| "data_fits (pb_group_friends_update f) \<longleftrightarrow> length (pb_group f) \<le> PUB_KEY_LENGTH"
| "data_fits (pb_group_member_update m) \<longleftrightarrow> covers PUB_KEY_LENGTH (pb_user_pubkey m) \<and>
     ((ucast (pb_member_update_type m) :: u8) = 0 \<or> length (pb_target_group m) \<le> PUB_KEY_LENGTH)"
| "data_fits (pb_transfer (pb_local l)) \<longleftrightarrow>
     sender_fits (pb_local_sender l) \<and> covers PUB_KEY_LENGTH (pb_local_receiver l)"
| "data_fits (pb_transfer (pb_inbound x)) \<longleftrightarrow> cross_fits x"
| "data_fits (pb_transfer (pb_outbound x)) \<longleftrightarrow> cross_fits x"
| "data_fits _ \<longleftrightarrow> True"

text \<open>
  \<open>n\<close> is the number of signatures as the byte of the record keeps it; so many of them are read, or one
  if the message is a mark to reset the blockchain, or none if their number is not accepted.
\<close>

definition message_fits :: "GradidoTransaction \<Rightarrow> pb_TransactionBody \<Rightarrow> ConsensusTopicResponse \<Rightarrow> bool" where
  "message_fits gt tb t \<longleftrightarrow>
     (let n = length (pb_sig_pair gt) mod 256
      in n < MINIMUM_SIGNATURE_COUNT \<or> MAXIMUM_SIGNATURE_COUNT < n \<or>
         pair_covers (pb_sig_pair gt ! 0) \<and> covers HEDERA_RUNNING_HASH_LENGTH (pb_runninghash t) \<and>
         (pb_data tb = pb_debug_reset_blockchain_mark \<or>
          data_fits (pb_data tb) \<and> list_all pair_covers (take n (pb_sig_pair gt))))"

text \<open>A computation that is defined exactly under a condition, and then returns.\<close>

definition defined_iff :: "'a res \<Rightarrow> bool \<Rightarrow> bool" where
  "defined_iff m Q \<longleftrightarrow> (if Q then \<exists>x. m = Inr x else undefined_behaviour m)"

lemma defined_iff_Inr [simp]: "defined_iff (Inr x) True"
  by (simp add: defined_iff_def)

lemma defined_iff_bind:
  assumes "defined_iff m Q" "\<And>x. m = Inr x \<Longrightarrow> Q \<Longrightarrow> defined_iff (f x) R" "P \<longleftrightarrow> Q \<and> R"
  shows "defined_iff (bind_res m f) P"
  using assms by (cases m) (auto simp: defined_iff_def undefined_behaviour_def split: if_splits fault.splits)

lemma defined_iff_map: "defined_iff m Q \<Longrightarrow> defined_iff (bind_res m (\<lambda>x. Inr (f x))) Q"
  by (cases m) (auto simp: defined_iff_def undefined_behaviour_def split: if_splits)

lemma copies_defined:
  "defined_iff (copy_exact n s) (covers n s)"
  "defined_iff (copy_field n s) (length s \<le> n)"
  "defined_iff (gradidos x) (amount_fits x)"
  by (auto simp: defined_iff_def copy_exact_def covers_def copy_field_def gradidos_def u64_of_double_def amount_fits_def
      split: option.splits)

lemma translate_Signature_defined: "defined_iff (translate_Signature_from_pb p) (pair_covers p)"
  unfolding translate_Signature_from_pb_def
  by (rule defined_iff_bind, rule copies_defined, rule defined_iff_bind, rule copies_defined, rule defined_iff_Inr)
    (simp_all add: pair_covers_def)

lemma translate_Hedera_defined:
  "defined_iff (translate_HederaTransaction_from_pb t) (covers HEDERA_RUNNING_HASH_LENGTH (pb_runninghash t))"
  unfolding translate_HederaTransaction_from_pb_def
  by (rule defined_iff_bind, rule copies_defined, rule defined_iff_Inr) simp

lemma translate_cross_defined: "defined_iff (translate_cross x mk) (cross_fits x)"
  unfolding translate_cross_def cross_fits_def sender_fits_def
  by (rule defined_iff_bind, rule copies_defined, rule defined_iff_bind, rule copies_defined,
      rule defined_iff_bind, rule copies_defined, rule defined_iff_bind, rule copies_defined, rule defined_iff_Inr) auto


lemma translate_member_update_defined:
  "defined_iff (translate_member_update m) (data_fits (pb_group_member_update m))"
proof -
  have move: "defined_iff (translate_move m u) (length (pb_target_group m) \<le> PUB_KEY_LENGTH)" for u
    unfolding translate_move_def by (rule defined_iff_bind, rule copies_defined, rule defined_iff_Inr) simp
  have tail: "defined_iff (if mut = 0 then Inr (add_user u)
        else bind_res (translate_move m u) (\<lambda>mv. Inr (if mut = 1 then move_user_inbound mv else move_user_outbound mv)))
      (mut = 0 \<or> length (pb_target_group m) \<le> PUB_KEY_LENGTH)" for u and mut :: u8
    by (cases "mut = 0") (auto intro!: defined_iff_map [OF move])
  show ?thesis
    unfolding translate_member_update_def Let_def
    by (rule defined_iff_bind, rule copies_defined, rule tail) simp
qed

lemma translate_data_defined: "defined_iff (translate_data d) (data_fits d)"
proof (cases d)
  case (pb_transfer g2)
  have "defined_iff (translate_local l) (data_fits (pb_transfer (pb_local l)))" for l
    unfolding translate_local_def
    by (rule defined_iff_bind, rule copies_defined, rule defined_iff_bind, rule copies_defined,
        rule defined_iff_bind, rule copies_defined, rule defined_iff_Inr) (auto simp: sender_fits_def)
  then show ?thesis
    by (cases g2) (simp_all add: pb_transfer translate_data_def translate_transfer_def translate_cross_defined)
next
  case (pb_creation r)
  have "defined_iff (translate_creation r) (sender_fits r)"
    unfolding translate_creation_def
    by (rule defined_iff_bind, rule copies_defined, rule defined_iff_bind, rule copies_defined, rule defined_iff_Inr)
      (auto simp: sender_fits_def)
  then show ?thesis
    by (simp add: pb_creation translate_data_def)
next
  case (pb_group_friends_update f)
  have "defined_iff (translate_friends_update f) (length (pb_group f) \<le> PUB_KEY_LENGTH)"
    unfolding translate_friends_update_def by (rule defined_iff_bind, rule copies_defined, rule defined_iff_Inr) simp
  then show ?thesis
    by (simp add: pb_group_friends_update translate_data_def)
next
  case (pb_group_member_update m)
  then show ?thesis
    using translate_member_update_defined [of m] by (simp add: translate_data_def)
qed (simp_all add: translate_data_def)

text \<open>The loops over the signatures read each of the first \<open>n\<close> after those of the main record, and no more.\<close>

lemma sig_part_count_read:
  "sig_part ps n k cs = Inr (ss, cs') \<Longrightarrow> cs < n \<Longrightarrow> cs' = cs + min k (n - cs)"
proof (induction k arbitrary: cs ss)
  case (Suc k)
  show ?case
  proof (cases "cs + 1 = n")
    case False
    then obtain ss' where "sig_part ps n k (cs + 1) = Inr (ss', cs')"
      using Suc.prems by (auto simp: bind_res_Inr_iff split: if_splits)
    then show ?thesis
      using Suc.IH [of "cs + 1"] Suc.prems(2) False by (auto simp: min_def)
  qed (use Suc.prems in \<open>auto simp: bind_res_Inr_iff split: if_splits\<close>)
qed simp

lemma sig_part_defined:
  assumes "n \<le> length ps" "cs < n"
  shows "defined_iff (sig_part ps n k cs) (list_all pair_covers (take k (drop cs (take n ps))))"
  using assms(2)
proof (induction k arbitrary: cs)
  case (Suc k)
  define R where "R = take k (drop (cs + 1) (take n ps))"
  have split: "take (Suc k) (drop cs (take n ps)) = ps ! cs # R"
    using Suc.prems assms(1) Cons_nth_drop_Suc [of cs "take n ps", symmetric] by (simp add: R_def)
  have tail: "defined_iff (if cs + 1 = n then Inr ([sg], cs + 1)
      else bind_res (sig_part ps n k (cs + 1)) (\<lambda>(ss, cs'). Inr (sg # ss, cs'))) (list_all pair_covers R)" for sg
    using Suc.IH [of "cs + 1"] Suc.prems
      defined_iff_map [of "sig_part ps n k (cs + 1)" _ "\<lambda>x. (sg # fst x, snd x)"]
    by (simp add: R_def case_prod_unfold)
  have "defined_iff (bind_res (translate_Signature_from_pb (ps ! cs)) (\<lambda>sg. if cs + 1 = n then Inr ([sg], cs + 1)
      else bind_res (sig_part ps n k (cs + 1)) (\<lambda>(ss, cs'). Inr (sg # ss, cs')))) (list_all pair_covers (ps ! cs # R))"
    by (rule defined_iff_bind, rule translate_Signature_defined, rule tail) simp
  then show ?case
    unfolding split using Suc.prems assms(1) by simp
qed simp

lemma sig_records_defined:
  assumes "n \<le> length ps" "cs \<le> n" "n - cs \<le> 3 * i" "3 * i < n - cs + 3"
  shows "defined_iff (sig_records ps n i cs) (list_all pair_covers (drop cs (take n ps)))"
  using assms(2-4)
proof (induction i arbitrary: cs)
  case (Suc i)
  then have cs: "cs < n"
    by simp
  have split: "drop cs (take n ps) = take 3 (drop cs (take n ps)) @ drop (cs + min 3 (n - cs)) (take n ps)"
    using append_take_drop_id [of 3 "drop cs (take n ps)"] assms(1) by (auto simp: min_def add.commute)
  have rest: "defined_iff (sig_records ps n i (cs + min 3 (n - cs)))
      (list_all pair_covers (drop (cs + min 3 (n - cs)) (take n ps)))"
    by (rule Suc.IH) (use Suc.prems in \<open>auto simp: min_def\<close>)
  have part: "defined_iff (sig_part ps n SIGNATURES_PER_RECORD cs) (list_all pair_covers (take 3 (drop cs (take n ps))))"
    using sig_part_defined [OF assms(1) cs, of 3] by (simp add: sizes)
  have tail: "defined_iff (case x of (ss, cs') \<Rightarrow> bind_res (sig_records ps n i cs') (\<lambda>rs.
        Inr (SIGNATURES (ss @ replicate (SIGNATURES_PER_RECORD - length ss) Signature_zero) # rs)))
      (list_all pair_covers (drop (cs + min 3 (n - cs)) (take n ps)))"
    if "sig_part ps n SIGNATURES_PER_RECORD cs = Inr x" for x
  proof -
    have "snd x = cs + min 3 (n - cs)"
      using sig_part_count_read [OF _ cs, of ps 3 "fst x" "snd x"] that by (simp add: sizes)
    then show ?thesis
      using defined_iff_map [OF rest] by (simp add: case_prod_unfold)
  qed
  have "list_all pair_covers (drop cs (take n ps)) \<longleftrightarrow> list_all pair_covers (take 3 (drop cs (take n ps))) \<and>
      list_all pair_covers (drop (cs + min 3 (n - cs)) (take n ps))"
    by (subst split) simp
  from defined_iff_bind [OF part tail this] show ?case
    by simp
qed (use assms(1) in simp)

lemma all_sig_records_defined:
  assumes "1 \<le> n" "n \<le> length ps"
  shows "defined_iff (sig_records ps n (sig_part_count n) SIGNATURES_IN_MAIN_PART) (list_all pair_covers (drop 1 (take n ps)))"
proof -
  have "n - 1 \<le> 3 * sig_part_count n" "3 * sig_part_count n < n - 1 + 3"
    using assms(1) by (auto simp: sig_part_count_def sizes SIGNATURES_IN_MAIN_PART_def)
  then show ?thesis
    using sig_records_defined [OF assms(2), of 1] assms(1) by (simp add: SIGNATURES_IN_MAIN_PART_def)
qed

lemma translation_defined:
  "defined_iff (translate_gradido_from_ctr parse_gt parse_tb t)
     (message_fits (parse_gt (pb_message t)) (parse_tb (pb_body_bytes (parse_gt (pb_message t)))) t)"
proof -
  define gt where "gt = parse_gt (pb_message t)"
  define tb where "tb = parse_tb (pb_body_bytes gt)"
  define ps where "ps = pb_sig_pair gt"
  define n where "n = length ps mod 256"
  have count: "unat (of_nat (length ps) :: u8) = n"
    by (simp add: n_def unat_of_nat)
  show ?thesis
  proof (cases "n < MINIMUM_SIGNATURE_COUNT \<or> MAXIMUM_SIGNATURE_COUNT < n")
    case True
    then show ?thesis
      using count
      unfolding translate_gradido_from_ctr_def message_fits_def Let_def gt_def [symmetric] tb_def [symmetric] ps_def [symmetric]
        n_def [symmetric] by (auto simp: defined_iff_def)
  next
    case False
    then have n: "1 \<le> n" "n \<le> length ps"
      by (simp_all add: MINIMUM_SIGNATURE_COUNT_def n_def)
    then have split: "take n ps = ps ! 0 # drop 1 (take n ps)"
      by (cases ps; cases n) simp_all
    have "list_all pair_covers (take n ps) \<longleftrightarrow> pair_covers (ps ! 0) \<and> list_all pair_covers (drop 1 (take n ps))"
      by (subst split) simp
    then have fits: "message_fits gt tb t \<longleftrightarrow> pair_covers (ps ! 0) \<and> covers HEDERA_RUNNING_HASH_LENGTH (pb_runninghash t) \<and>
        (pb_data tb = pb_debug_reset_blockchain_mark \<or>
         data_fits (pb_data tb) \<and> list_all pair_covers (drop 1 (take n ps)))"
      using False by (auto simp: message_fits_def Let_def ps_def [symmetric] n_def [symmetric])
    have tail: "defined_iff (if pb_data tb = pb_debug_reset_blockchain_mark then Inr reset_batch
        else bind_res (translate_data (pb_data tb)) (\<lambda>bd.
          bind_res (sig_records ps n (sig_part_count n) SIGNATURES_IN_MAIN_PART) (\<lambda>srs. Inr (g bd srs))))
        (pb_data tb = pb_debug_reset_blockchain_mark \<or>
         data_fits (pb_data tb) \<and> list_all pair_covers (drop 1 (take n ps)))" for g
    proof (cases "pb_data tb = pb_debug_reset_blockchain_mark")
      case mark: False
      have "defined_iff (bind_res (translate_data (pb_data tb)) (\<lambda>bd.
          bind_res (sig_records ps n (sig_part_count n) SIGNATURES_IN_MAIN_PART) (\<lambda>srs. Inr (g bd srs))))
        (data_fits (pb_data tb) \<and> list_all pair_covers (drop 1 (take n ps)))"
        by (rule defined_iff_bind, rule translate_data_defined, rule defined_iff_map,
            rule all_sig_records_defined [OF n]) simp
      then show ?thesis
        using mark by simp
    qed simp
    show ?thesis
      unfolding translate_gradido_from_ctr_def Let_def gt_def [symmetric] tb_def [symmetric] ps_def [symmetric] count
        if_not_P [OF False]
      by (rule defined_iff_bind, rule translate_Signature_defined, rule defined_iff_bind,
          rule translate_Hedera_defined, rule tail, rule refl, simp add: fits)
  qed
qed

text \<open>
  C10. The translation of a message of the network is memory safe exactly for messages that fit. If the
  number of signatures is acceptable, and the message does not ask for a reset, this means: every public key,
  signature and hash that is copied has at least its length less one, every group name fits its field, and
  every amount is in the range of the integer it becomes. Such a message always gives a batch, and all fields of
  its records have the lengths their structs declare; any other message has no defined meaning. A
  translation never throws.
\<close>

theorem translation_defined_iff:
  "(undefined_behaviour (translate_gradido_from_ctr parse_gt parse_tb t) \<longleftrightarrow>
      \<not> message_fits (parse_gt (pb_message t)) (parse_tb (pb_body_bytes (parse_gt (pb_message t)))) t) \<and>
   ((\<exists>b. translate_gradido_from_ctr parse_gt parse_tb t = Inr b \<and>
        list_all record_sized (case buff b of None \<Rightarrow> [] | Some rs \<Rightarrow> rs)) \<longleftrightarrow>
      message_fits (parse_gt (pb_message t)) (parse_tb (pb_body_bytes (parse_gt (pb_message t)))) t)"
proof -
  have "list_all record_sized (case buff b of None \<Rightarrow> [] | Some rs \<Rightarrow> rs)"
    if "translate_gradido_from_ctr parse_gt parse_tb t = Inr b" for b
    using translation_sized(1) [OF that] by (simp split: option.split)
  then show ?thesis
    using translation_defined [of parse_gt parse_tb t] by (auto simp: defined_iff_def split: if_splits)
qed

definition friend_body :: pb_TransactionBody where
  "friend_body = \<lparr>pb_memo = [97], pb_version_number = 1,
     pb_data = pb_group_friends_update \<lparr>pb_group = [103], pb_action = 0\<rparr>\<rparr>"

theorem records_keep_layout_witness:
  "\<exists>b rs p rs' L'. translate_gradido_from_ctr
        (\<lambda>_. \<lparr>pb_sig_pair = [sample_pair 1], pb_body_bytes = []\<rparr>) (\<lambda>_. friend_body) sample_message = Inr b \<and>
    buff b = Some rs \<and> group_calc exact_env alone 1 rs GroupLedger_new = Inr (p, rs', L') \<and> list_all record_sized rs'"
proof -
  obtain tr where "translate_gradido_from_ctr
        (\<lambda>_. \<lparr>pb_sig_pair = [sample_pair 1], pb_body_bytes = []\<rparr>) (\<lambda>_. friend_body) sample_message
        = Inr \<lparr>buff = Some [GRADIDO_TRANSACTION tr], reset_blockchain = False\<rparr>"
      "body tr = add_group_friend (103 # replicate 31 0)"
    by (simp add: translate_gradido_from_ctr_def friend_body_def sample_message_def sample_pair_def Let_def
        MINIMUM_SIGNATURE_COUNT_def sizes translate_Signature_from_pb_def copy_exact_def
        translate_HederaTransaction_from_pb_def translate_data_def translate_friends_update_def copy_field_def
        sig_part_count_def SIGNATURES_IN_MAIN_PART_def memo_records_def multipart_memo_def MEMO_MAIN_SIZE_def
        PUB_KEY_LENGTH_def)
  moreover from this(2) obtain p tr' L' where
      "group_calc exact_env alone 1 [GRADIDO_TRANSACTION tr] GroupLedger_new = Inr (p, [GRADIDO_TRANSACTION tr'], L')"
    by (simp add: group_calc_def calc_fields_and_update_indexes_for_def calc_add_group_friend_def GroupLedger_new_def
        c_str_def)
  ultimately show ?thesis
    using records_keep_layout [of "\<lambda>_. \<lparr>pb_sig_pair = [sample_pair 1], pb_body_bytes = []\<rparr>" "\<lambda>_. friend_body"
        sample_message _ _ exact_env alone 1 GroupLedger_new p "[GRADIDO_TRANSACTION tr']" L'] by fastforce
qed

end
