(* ===== verification/Ledger_Replay.thy ===== *)
theory Ledger_Replay
  imports Group_Chain
begin

text \<open>
  A group blockchain that runs and one that is started again on the same files: the indexes kept by
  \<open>calc_fields_and_update_indexes_for\<close> while transactions arrive, and those rebuilt by \<open>add_index_data\<close>
  from the stored records. A running node takes \<open>get_rec_count()\<close> for the number of the record of a balance,
  a rebuilding one the position of the record, so the two ledgers are compared up to this number.
\<close>

section \<open>Ledgers that differ in record numbers only\<close>

definition same_user :: "UserInfo option \<Rightarrow> UserInfo option \<Rightarrow> bool" where
  "same_user u v \<longleftrightarrow>
     map_option (\<lambda>x. (current_balance x, timestamp_of_last_balance x)) u
     = map_option (\<lambda>x. (current_balance x, timestamp_of_last_balance x)) v"

definition same_ledger :: "GroupLedger \<Rightarrow> GroupLedger \<Rightarrow> bool" where
  "same_ledger L M \<longleftrightarrow>
     M\<lparr>user_index := user_index L\<rparr> = L \<and>
     (\<forall>u. same_user (fmlookup (user_index L) u) (fmlookup (user_index M) u))"

lemma same_ledger_refl [simp]: "same_ledger L L"
  by (simp add: same_ledger_def same_user_def)

lemma same_user_None: "same_user u v \<Longrightarrow> u = None \<longleftrightarrow> v = None"
  by (cases u; cases v) (simp_all add: same_user_def)

lemma same_ledger_users:
  assumes "same_ledger L M" "\<And>v. same_user (fmlookup ui v) (fmlookup ui' v)"
  shows "same_ledger (L\<lparr>user_index := ui\<rparr>) (M\<lparr>user_index := ui'\<rparr>)"
proof -
  obtain uj where "L = M\<lparr>user_index := uj\<rparr>"
    using assms(1) unfolding same_ledger_def by metis
  then show ?thesis
    using assms(2) by (simp add: same_ledger_def)
qed

lemma same_ledger_friends:
  assumes "same_ledger L M"
  shows "friend_group_index L = friend_group_index M"
    "same_ledger (L\<lparr>friend_group_index := fs\<rparr>) (M\<lparr>friend_group_index := fs\<rparr>)"
proof -
  obtain uj where "L = M\<lparr>user_index := uj\<rparr>"
    using assms(1) unfolding same_ledger_def by metis
  then show "friend_group_index L = friend_group_index M"
      "same_ledger (L\<lparr>friend_group_index := fs\<rparr>) (M\<lparr>friend_group_index := fs\<rparr>)"
    using assms by (simp_all add: same_ledger_def)
qed

text \<open>The number of a record has no influence on what its indexing does to the rest of the ledger.\<close>

lemma set_balance_same:
  assumes "same_ledger L M" "set_balance u bal n ts M = Inr M'"
  shows "\<exists>L'. set_balance u bal m ts L = Inr L' \<and> same_ledger L' M'"
proof -
  have same: "same_user (fmlookup (user_index L) v) (fmlookup (user_index M) v)" for v
    using assms(1) by (simp add: same_ledger_def)
  then show ?thesis
    using assms same_user_None [OF same [of u]]
    by (auto simp: set_balance_def put_user_def end_iterator_def same_user_def
        intro!: same_ledger_users split: option.splits)
qed

lemma index_record_same:
  assumes "same_ledger L M" "index_record n r M = Inr M'"
    and "\<And>tr. r = GRADIDO_TRANSACTION tr \<Longrightarrow> keeps_index (body tr)"
  shows "\<exists>L'. index_record m r L = Inr L' \<and> same_ledger L' M'"
proof (cases "\<exists>tr. r = GRADIDO_TRANSACTION tr \<and> result tr = result_code SUCCESS")
  case True
  then obtain tr where tr: "r = GRADIDO_TRANSACTION tr" "result tr = result_code SUCCESS"
    by blast
  have same: "same_user (fmlookup (user_index L) v) (fmlookup (user_index M) v)" for v
    using assms(1) by (simp add: same_ledger_def)
  show ?thesis
  proof (cases "body tr")
    case (gradido_creation c)
    then show ?thesis
      using set_balance_same [OF assms(1)] assms(2) tr by (simp add: index_record_def index_transaction_def)
  next
    case (add_user u)
    then show ?thesis
      using assms(2) tr same same_user_None [OF same [of u]]
      by (auto simp: index_record_def index_transaction_def same_user_def intro!: same_ledger_users [OF assms(1)])
  qed (use assms tr in \<open>auto simp: index_record_def index_transaction_def keeps_index_def bind_res_Inr_iff
      same_ledger_friends\<close>)
next
  case False
  then show ?thesis
    using assms(1,2) by (cases r) (auto simp: index_record_def)
qed


section \<open>A run of the ledger\<close>

text \<open>The transactions considered: creations, new users, and changes of friend groups whose name ends.\<close>

definition plain_body :: "TransactionBody \<Rightarrow> bool" where
  "plain_body b = (case b of
      gradido_creation _ \<Rightarrow> True | add_group_friend g \<Rightarrow> 0 \<in> set g | remove_group_friend g \<Rightarrow> 0 \<in> set g
    | add_user _ \<Rightarrow> True | _ \<Rightarrow> False)"

lemma plain_body_keeps: "plain_body b \<Longrightarrow> keeps_index b"
  by (cases b) (simp_all add: plain_body_def keeps_index_def)

lemma plain_calc:
  assumes "\<not> waiting_for_paired L" "plain_body (body tr)"
  shows "\<exists>p tr' L'. calc_fields_and_update_indexes_for env gf n tr L = Inr (p, tr', L') \<and>
    hedera_transaction tr' = hedera_transaction tr \<and> keeps_index (body tr')"
  using assms
  by (cases "body tr")
    (auto simp: plain_body_def keeps_index_def calc_fields_and_update_indexes_for_def calc_gradido_creation_def
      calc_add_group_friend_def calc_remove_group_friend_def calc_add_user_def reject_def c_str_def Let_def
      split: option.split)

text \<open>Records that hold the further parts of a transaction are not indexed.\<close>

lemma replay_append: "replay (xs @ ys) L = bind_res (replay xs L) (replay ys)"
proof (induction xs arbitrary: L)
  case (Cons x xs)
  then show ?case
    by (cases x; cases "index_record (fst x) (snd x) L") simp_all
qed (cases ys; simp)

lemma replay_parts: "list_all (\<lambda>x. \<not> is_transaction (snd x)) xs \<Longrightarrow> replay xs L = Inr L"
proof (induction xs)
  case (Cons x xs)
  then show ?case
    by (cases x; cases "snd x") (simp_all add: index_record_def is_transaction_def)
qed simp

definition group_batch :: "Transaction \<times> GradidoRecord list \<Rightarrow> GradidoRecord Batch" where
  "group_batch t = \<lparr>buff = Some (GRADIDO_TRANSACTION (fst t) # snd t), reset_blockchain = False\<rparr>"

text \<open>What holds of a chain after a run of \<open>k\<close> transactions.\<close>

definition follows_replay :: "nat \<Rightarrow> (GradidoRecord, GroupLedger) chain \<Rightarrow> bool" where
  "follows_replay k b \<longleftrightarrow> chain_state b = READY \<and> inbound b = [] \<and> \<not> waiting_for_paired (indexes b) \<and>
     (\<exists>ps. stores GRADIDO_BLOCK_SIZE (storage b) ps \<and> group_latest_of ps = (if k = 0 then None else Some (of_nat k)) \<and>
       (\<forall>xs. map snd xs = ps \<longrightarrow> (\<exists>L. replay xs GroupLedger_new = Inr L \<and> same_ledger L (indexes b))))"

lemma latest_after_batch:
  "list_all (\<lambda>r. \<not> is_transaction r) rest \<Longrightarrow>
   group_latest_of (ps @ GRADIDO_TRANSACTION tr # rest) = Some (sequenceNumber (hedera_transaction tr))"
proof (induction rest rule: rev_induct)
  case Nil
  then show ?case
    by (simp add: is_transaction_def)
next
  case (snoc r rest)
  then show ?case
    using group_latest_of_snoc(2) [of "ps @ GRADIDO_TRANSACTION tr # rest" r] by simp
qed

lemma follows_replay_step:
  fixes env :: "'a::floor_ceiling decay_env"
  assumes "follows_replay k b" "0 < batch" "plain_body (body tr)" "list_all (\<lambda>r. \<not> is_transaction r) rest"
    and "sequenceNumber (hedera_transaction tr) = of_nat (k + 1)"
  shows "\<exists>b'. add_transaction (group_child env gf sha img dec sz batch ra) now (group_batch (tr, rest)) b = Inr b' \<and>
    follows_replay (k + 1) b'"
proof -
  obtain ps where b: "chain_state b = READY" "inbound b = []" "\<not> waiting_for_paired (indexes b)"
      "stores GRADIDO_BLOCK_SIZE (storage b) ps" "group_latest_of ps = (if k = 0 then None else Some (of_nat k))"
      "\<And>xs. map snd xs = ps \<Longrightarrow> \<exists>L. replay xs GroupLedger_new = Inr L \<and> same_ledger L (indexes b)"
    using assms(1) by (auto simp: follows_replay_def)
  obtain p tr' L' where calc: "calc_fields_and_update_indexes_for env gf (of_nat (get_rec_count (storage b))) tr (indexes b)
        = Inr (p, tr', L')" "hedera_transaction tr' = hedera_transaction tr" "keeps_index (body tr')"
    using plain_calc [OF b(3) assms(3), of env gf "of_nat (get_rec_count (storage b))"] by blast
  note live = step_replayed [OF calc(1) b(3) plain_body_keeps [OF assms(3)]]
  have "\<exists>s. add_transaction (group_child env gf sha img dec sz batch ra) now (group_batch (tr, rest)) b
      = Inr (b\<lparr>storage := s, indexes := L'\<rparr>) \<and> stores GRADIDO_BLOCK_SIZE s (ps @ GRADIDO_TRANSACTION tr' # rest)"
    by (rule grp.in_order_appended [where rs = "GRADIDO_TRANSACTION tr # rest" and i = "of_nat (k + 1)", OF b(1,2) _ b(4)])
      (use assms(2,5) b(3,5) calc(1) live(1) in
        \<open>simp_all add: group_batch_def group_transaction_id_def group_calc_def list_all_iff admissible_def\<close>)
  then obtain s where s: "add_transaction (group_child env gf sha img dec sz batch ra) now (group_batch (tr, rest)) b
      = Inr (b\<lparr>storage := s, indexes := L'\<rparr>)" "stores GRADIDO_BLOCK_SIZE s (ps @ GRADIDO_TRANSACTION tr' # rest)"
    by blast
  have "\<exists>L. replay xs GroupLedger_new = Inr L \<and> same_ledger L L'"
    if whole: "map snd xs = ps @ GRADIDO_TRANSACTION tr' # rest" for xs
  proof -
    obtain xs1 m xs2 where xs: "xs = xs1 @ (m, GRADIDO_TRANSACTION tr') # xs2" "map snd xs1 = ps" "map snd xs2 = rest"
      using whole by (auto simp: map_eq_append_conv map_eq_Cons_conv)
    obtain L where L: "replay xs1 GroupLedger_new = Inr L" "same_ledger L (indexes b)"
      using b(6) [OF xs(2)] by blast
    obtain M where M: "index_record m (GRADIDO_TRANSACTION tr') L = Inr M" "same_ledger M L'"
      using index_record_same [OF L(2) live(2)] calc(3) by auto
    have "list_all (\<lambda>x. \<not> is_transaction (snd x)) xs2"
      using assms(4) unfolding xs(3) [symmetric] by (simp add: list_all_iff)
    then show ?thesis
      using L(1) M by (simp add: xs(1) replay_append replay_parts)
  qed
  then have "follows_replay (k + 1) (b\<lparr>storage := s, indexes := L'\<rparr>)"
    using b(1,2) s(2) live(3) latest_after_batch [OF assms(4), of ps tr'] calc(2) assms(5)
    unfolding follows_replay_def by auto
  with s(1) show ?thesis
    by blast
qed

lemma follows_replay_run:
  fixes env :: "'a::floor_ceiling decay_env"
  assumes "stores GRADIDO_BLOCK_SIZE s []" "0 < batch"
    and "map (\<lambda>t. sequenceNumber (hedera_transaction (fst t))) ts = map of_nat [1..<length ts + 1]"
    and "\<forall>(tr, rest) \<in> set ts. plain_body (body tr) \<and> list_all (\<lambda>r. \<not> is_transaction r) rest"
  shows "\<exists>b. add_transactions (group_child env gf sha img dec sz batch ra) now (map group_batch ts) (ready_group s) = Inr b \<and>
    follows_replay (length ts) b"
  using assms(3,4)
proof (induction ts rule: rev_induct)
  case Nil
  show ?case
    using assms(1) by (auto simp: follows_replay_def GroupLedger_new_def)
next
  case (snoc t ts)
  have t: "sequenceNumber (hedera_transaction (fst t)) = of_nat (length ts + 1)"
      "map (\<lambda>t. sequenceNumber (hedera_transaction (fst t))) ts = map of_nat [1..<length ts + 1]"
      "plain_body (body (fst t))" "list_all (\<lambda>r. \<not> is_transaction r) (snd t)"
    using snoc.prems by (auto split: prod.splits)
  obtain b where b: "add_transactions (group_child env gf sha img dec sz batch ra) now (map group_batch ts) (ready_group s)
      = Inr b" "follows_replay (length ts) b"
    using snoc.IH [OF t(2)] snoc.prems(2) by auto
  then show ?case
    using follows_replay_step [OF b(2) assms(2) t(3,4,1), of env gf sha img dec sz ra now]
      add_transactions_snoc [OF b(1), of "group_batch t"] by auto
qed


text \<open>A user is added, added again, and given an amount.\<close>

definition numbered_as :: "u64 \<Rightarrow> TransactionBody \<Rightarrow> Transaction" where
  "numbered_as n bd = (at_one bd)\<lparr>hedera_transaction := (hedera_transaction (at_one bd))\<lparr>sequenceNumber := n\<rparr>\<rparr>"


end
