(* ===== verification/Core_Utils.thy ===== *)
theory Core_Utils
  imports Gradido_Prelude
begin

unbundle bit_operations_syntax

text \<open>
  \<open>src/gradido_core_utils.cpp\<close>: hexadecimal encoding and decoding of byte strings, the sanitising of
  log lines, and the tests on identifiers the transaction factories use. Characters are bytes.
\<close>

section \<open>Hexadecimal encoding\<close>

definition to_hex_4_bit :: "u8 \<Rightarrow> u8" where
  "to_hex_4_bit c0 = (let c = c0 AND 0x0f in if c < 10 then c + 48 else c + 87)"

text \<open>
  \<open>sodium_bin2hex\<close>: the branch-free digit \<open>87U + c + (((c - 10U) >> 8) & ~38U)\<close>, computed at the width
  of \<open>unsigned int\<close> and cut to a byte.
\<close>

definition hex_digit :: "u32 \<Rightarrow> u8" where
  "hex_digit c = ucast (87 + c + (drop_bit 8 (c - 10) AND NOT 38))"

definition bin2hex_byte :: "u8 \<Rightarrow> bytes" where
  "bin2hex_byte v =
     (let c = ucast (v AND 0xf) :: u32;
          b = ucast (drop_bit 4 v) :: u32;
          x = push_bit 8 (ucast (hex_digit c)) OR ucast (hex_digit b) :: u32
      in [ucast x, ucast (drop_bit 8 x)])"

text \<open>The digits and the terminating null; \<open>None\<close> is the null pointer returned on misuse.\<close>

definition sodium_bin2hex :: "nat \<Rightarrow> bytes \<Rightarrow> bytes option" where
  "sodium_bin2hex hex_maxlen bin =
     (if (2 ^ 64 - 1) div 2 \<le> length bin \<or> hex_maxlen \<le> length bin * 2 then None
      else Some (concat (map bin2hex_byte bin) @ [0]))"

text \<open>\<open>dump_in_hex\<close> into a string: a zeroed buffer, read back as a C string.\<close>

definition dump_in_hex :: "bytes \<Rightarrow> bytes res" where
  "dump_in_hex bs =
     (case sodium_bin2hex (length bs * 2 + 1) bs of
        None \<Rightarrow> c_str (replicate (length bs * 2 + 1) 0)
      | Some hex \<Rightarrow> c_str hex)"


section \<open>Hexadecimal decoding\<close>

definition hex_value :: "u8 \<Rightarrow> int option" where
  "hex_value c =
     (if 48 \<le> c \<and> c \<le> 57 then Some (uint c - 48)
      else if 97 \<le> c \<and> c \<le> 102 then Some (uint c - 87)
      else if 65 \<le> c \<and> c \<le> 70 then Some (uint c - 55) else None)"

fun strtol_digits :: "int \<Rightarrow> bytes \<Rightarrow> int" where
  "strtol_digits acc [] = acc"
| "strtol_digits acc (c # cs) =
     (case hex_value c of None \<Rightarrow> acc | Some d \<Rightarrow> strtol_digits (acc * 16 + d) cs)"

text \<open>
  \<open>strtol(s, NULL, 16)\<close> of the standard library: white space, a sign, a prefix \<open>0x\<close> that a digit follows,
  and digits; 0 without digits.
\<close>

definition strtol_prefix :: "bytes \<Rightarrow> bytes" where
  "strtol_prefix s =
     (case s of
        z # x # d # cs \<Rightarrow> (if z = 48 \<and> (x = 120 \<or> x = 88) \<and> hex_value d \<noteq> None then d # cs else s)
      | _ \<Rightarrow> s)"

definition strtol_16 :: "bytes \<Rightarrow> int" where
  "strtol_16 s0 =
     (let s = dropWhile (\<lambda>c. c = 32 \<or> 9 \<le> c \<and> c \<le> 13) s0
      in case s of
           [] \<Rightarrow> 0
         | c # cs \<Rightarrow>
             if c = 45 then - strtol_digits 0 (strtol_prefix cs)
             else if c = 43 then strtol_digits 0 (strtol_prefix cs)
             else strtol_digits 0 (strtol_prefix s))"

fun hex_to_bytes :: "bytes \<Rightarrow> bytes" where
  "hex_to_bytes [] = []"
| "hex_to_bytes [c] = [word_of_int (strtol_16 [c])]"
| "hex_to_bytes (c # d # cs) = word_of_int (strtol_16 [c, d]) # hex_to_bytes cs"

definition is_hex :: "bytes \<Rightarrow> bool" where
  "is_hex str = list_all (\<lambda>c. 48 \<le> c \<and> c \<le> 57 \<or> 97 \<le> c \<and> c \<le> 102 \<or> 65 \<le> c \<and> c \<le> 70) str"

definition contains_null :: "bytes \<Rightarrow> bool" where
  "contains_null str \<longleftrightarrow> length (takeWhile (\<lambda>c. c \<noteq> 0) str) \<noteq> length str"


section \<open>Log lines\<close>

definition LOG_SANITIZE_BUFF_LEN :: nat where "LOG_SANITIZE_BUFF_LEN = 1024"

definition sanitize_char :: "u8 \<Rightarrow> bytes" where
  "sanitize_char c =
     (if c = 10 \<or> c = 9 then [32]
      else if c < 32 \<or> 127 \<le> c then [47, to_hex_4_bit (drop_bit 4 c), to_hex_4_bit c]
      else [c])"

text \<open>
  The loop: \<open>res\<close> is the finished output, \<open>buf\<close> the filled part of the buffer. The buffer is flushed only when
  it holds exactly one byte less than its size; a write or a terminator beyond its end has no defined
  meaning.
\<close>

fun sanitize_loop :: "bytes \<Rightarrow> bytes \<Rightarrow> bytes \<Rightarrow> bytes res" where
  "sanitize_loop res buf [] =
     (if buf = [] then Inr res
      else if LOG_SANITIZE_BUFF_LEN \<le> length buf then Inl (Undefined ''terminator beyond the buffer'')
      else Inr (res @ buf))"
| "sanitize_loop res buf (c # cs) =
     (let buf' = buf @ sanitize_char c
      in if LOG_SANITIZE_BUFF_LEN < length buf' then Inl (Undefined ''write beyond the buffer'')
         else if length buf' = LOG_SANITIZE_BUFF_LEN - 1 then sanitize_loop (res @ buf') [] cs
         else sanitize_loop res buf' cs)"

definition sanitize_for_log :: "bytes \<Rightarrow> bytes res" where
  "sanitize_for_log s = bind_res (sanitize_loop [] [] s) (\<lambda>res. Inr (if res = [] then [32] else res))"


section \<open>Times\<close>

datatype timespec = timespec (tv_sec: int) (tv_nsec: int)

definition subtract :: "timespec \<Rightarrow> timespec \<Rightarrow> timespec" where
  "subtract t0 t1 =
     (let t = timespec (tv_sec t0 - tv_sec t1) (tv_nsec t0 - tv_nsec t1)
      in if tv_nsec t < 0 then timespec (tv_sec t - 1) (tv_nsec t + 1000000000) else t)"


section \<open>Lemmas\<close>

text \<open>The sixteen digits: characters \<open>0\<close> to \<open>9\<close> and \<open>a\<close> to \<open>f\<close>, with their values.\<close>

definition digit_good :: "nat \<Rightarrow> bool" where
  "digit_good n \<longleftrightarrow> hex_value (hex_digit (of_nat n)) = Some (int n) \<and> is_hex [hex_digit (of_nat n)]"

lemma digits_good_all: "list_all digit_good [0..<16]"
  by code_simp

lemma digit_good: "n < 16 \<Longrightarrow> digit_good n"
  using digits_good_all by (simp only: list_all_iff set_upt) simp

lemma bin2hex_byte_eq:
  "bin2hex_byte v = [hex_digit (ucast (drop_bit 4 v)), hex_digit (ucast (v AND 15))]"
proof -
  have none: "\<not> bit (w :: u8) (8 + n)" for w n
    using bit_imp_le_length [of w "8 + n"] by auto
  show ?thesis
    unfolding bin2hex_byte_def Let_def by (auto intro!: bit_word_eqI simp: bit_simps none)
qed

lemma hex_value_bound: "hex_value c = Some d \<Longrightarrow> 48 \<le> c"
  by (auto simp: hex_value_def word_le_nat_alt split: if_splits)

lemma strtol_pair:
  assumes "hex_value c = Some h" "hex_value d = Some l"
  shows "strtol_16 [c, d] = h * 16 + l"
proof -
  have "48 \<le> c"
    using assms(1) by (rule hex_value_bound)
  then have "c \<noteq> 32" "\<not> c \<le> 13" "c \<noteq> 45" "c \<noteq> 43"
    by (auto simp: word_le_nat_alt)
  then show ?thesis
    using assms by (simp add: strtol_16_def strtol_prefix_def Let_def)
qed

lemma ucast_eq_of_unat: "(ucast w :: u32) = of_nat (unat (w :: u8))"
  by simp

lemma unat_low_nibble: "unat (v AND 15 :: u8) = unat v mod 16"
proof -
  have "v AND 15 = take_bit 4 v"
    by (simp add: take_bit_eq_mask mask_eq_exp_minus_1)
  then show ?thesis
    by (simp only: unsigned_take_bit_eq) (simp add: take_bit_eq_mod)
qed

lemma bin2hex_byte_pair:
  obtains c d where "bin2hex_byte v = [c, d]" "is_hex [c, d]" "c \<noteq> 0" "d \<noteq> 0"
    "word_of_int (strtol_16 [c, d]) = v"
proof -
  define h l where "h = unat v div 16" and "l = unat v mod 16"
  have v: "unat v = h * 16 + l" "l < 16" "h < 16"
    using unsigned_less [of v, where ?'a = nat] by (simp_all add: h_def l_def div_less_iff_less_mult)
  have "ucast (drop_bit 4 v) = (of_nat h :: u32)"
    by (simp only: ucast_eq_of_unat unat_drop_bit_eq h_def) (simp add: drop_bit_eq_div)
  moreover have "ucast (v AND 15) = (of_nat l :: u32)"
    by (simp only: ucast_eq_of_unat unat_low_nibble l_def)
  ultimately have pair: "bin2hex_byte v = [hex_digit (of_nat h), hex_digit (of_nat l)]"
    by (simp add: bin2hex_byte_eq)
  have good: "digit_good h" "digit_good l"
    using v by (simp_all add: digit_good)
  then have "strtol_16 [hex_digit (of_nat h), hex_digit (of_nat l)] = int (unat v)"
    using v by (simp add: digit_good_def strtol_pair)
  then show thesis
    using good hex_value_bound
    by (intro that [OF pair]) (fastforce simp: digit_good_def is_hex_def)+
qed

lemma hex_of_bytes:
  "length (concat (map bin2hex_byte bs)) = 2 * length bs \<and> is_hex (concat (map bin2hex_byte bs)) \<and>
   0 \<notin> set (concat (map bin2hex_byte bs)) \<and> hex_to_bytes (concat (map bin2hex_byte bs)) = bs"
proof (induction bs)
  case (Cons v bs)
  obtain c d where "bin2hex_byte v = [c, d]" "is_hex [c, d]" "c \<noteq> 0" "d \<noteq> 0"
    "word_of_int (strtol_16 [c, d]) = v"
    by (rule bin2hex_byte_pair)
  then show ?case
    using Cons by (auto simp: is_hex_def)
qed (simp add: is_hex_def)

lemma dump_in_hex_eq:
  assumes "length bs < (2 ^ 64 - 1) div 2"
  shows "dump_in_hex bs = Inr (concat (map bin2hex_byte bs))"
proof -
  have "takeWhile (\<lambda>b. b \<noteq> 0) (concat (map bin2hex_byte bs) @ [0]) = concat (map bin2hex_byte bs)"
    using hex_of_bytes [of bs] by (intro takeWhile_append_stop) auto
  then show ?thesis
    using assms by (simp add: dump_in_hex_def sodium_bin2hex_def c_str_def)
qed

text \<open>
  A byte string written in hexadecimal has two digits for every byte, passes the test for
  hexadecimal strings, and is read back unchanged.
\<close>

theorem hex_round_trip:
  assumes "length bs < (2 ^ 64 - 1) div 2"
  shows "\<exists>h. dump_in_hex bs = Inr h \<and> length h = 2 * length bs \<and> is_hex h \<and> \<not> contains_null h \<and>
    hex_to_bytes h = bs"
proof (intro exI conjI)
  show "dump_in_hex bs = Inr (concat (map bin2hex_byte bs))"
    using assms by (rule dump_in_hex_eq)
  have "takeWhile (\<lambda>c. c \<noteq> 0) (concat (map bin2hex_byte bs)) = concat (map bin2hex_byte bs)"
    using hex_of_bytes [of bs] by (intro takeWhile_eq_all_conv [THEN iffD2]) auto
  then show "\<not> contains_null (concat (map bin2hex_byte bs))"
    by (simp only: contains_null_def simp_thms)
qed (use hex_of_bytes [of bs] in simp_all)

theorem hex_round_trip_witness:
  "\<exists>h. dump_in_hex [0, 171, 255] = Inr h \<and> length h = 6 \<and> is_hex h \<and> \<not> contains_null h \<and>
    hex_to_bytes h = [0, 171, 255]"
  using hex_round_trip [of "[0, 171, 255]"] by simp

text \<open>Log lines: a short line is encoded character by character; a line of control characters overruns the buffer.\<close>

lemma sanitize_char_length: "length (sanitize_char c) \<le> 3"
  by (simp add: sanitize_char_def)

lemma sanitize_loop_short:
  assumes "length buf + 3 * length cs < LOG_SANITIZE_BUFF_LEN - 1"
  shows "sanitize_loop res buf cs = Inr (res @ buf @ concat (map sanitize_char cs))"
  using assms
proof (induction cs arbitrary: buf)
  case (Cons c cs)
  have "length (sanitize_char c) \<le> 3"
    by (rule sanitize_char_length)
  then show ?case
    using Cons.prems Cons.IH [of "buf @ sanitize_char c"]
    by (simp add: Let_def LOG_SANITIZE_BUFF_LEN_def)
qed (simp add: LOG_SANITIZE_BUFF_LEN_def)

lemma sanitize_loop_overrun:
  "length buf + n = 1022 \<Longrightarrow>
   sanitize_loop res buf (replicate n 65 @ [1]) = Inl (Undefined ''write beyond the buffer'')"
proof (induction n arbitrary: buf)
  case (Suc n)
  then show ?case
    using Suc.IH [of "buf @ [65]"] by (simp add: sanitize_char_def Let_def LOG_SANITIZE_BUFF_LEN_def)
qed (simp add: sanitize_char_def Let_def LOG_SANITIZE_BUFF_LEN_def)

lemma sanitize_overrun:
  "sanitize_for_log (replicate 1022 65 @ [1]) = Inl (Undefined ''write beyond the buffer'')"
  by (simp only: sanitize_for_log_def sanitize_loop_overrun [of "[]" 1022 "[]", simplified] bind_res_simps)

lemma subtract_normalised:
  assumes "0 \<le> tv_nsec t0" "tv_nsec t0 < 1000000000" "0 \<le> tv_nsec t1" "tv_nsec t1 < 1000000000"
  shows "tv_sec (subtract t0 t1) * 1000000000 + tv_nsec (subtract t0 t1)
       = (tv_sec t0 - tv_sec t1) * 1000000000 + (tv_nsec t0 - tv_nsec t1)"
    and "0 \<le> tv_nsec (subtract t0 t1) \<and> tv_nsec (subtract t0 t1) < 1000000000"
  using assms by (auto simp: subtract_def Let_def)

end
