(* ===== verification/Config.thy ===== *)
theory Config
  imports Gradido_Def Core_Utils "HOL-Library.Multiset"
begin

text \<open>
  \<open>src/config.cpp\<close> and \<open>GroupInfo\<close> of \<open>src/gradido_interfaces.h\<close>: the configuration of a node. It comes
  from a property file, from the names of the directories of the blockchains, from a file with the
  endpoints of sibling nodes, from a launch token that is used up when it is read, and from two files
  with the key pair of the node. Poco parses the property file; a parsed file is a map from keys to
  values. The regular expression that recognises directory names is an argument (\<open>split\<close>).
\<close>

section \<open>Decimal numbers\<close>

definition bytes_of :: "string \<Rightarrow> bytes" where
  "bytes_of s = map of_char s"

fun decimal_str :: "nat \<Rightarrow> bytes" where
  "decimal_str n = (if n < 10 then [48 + of_nat n] else decimal_str (n div 10) @ [48 + of_nat (n mod 10)])"

declare decimal_str.simps [simp del]

definition show_int :: "int \<Rightarrow> bytes" where
  "show_int k = (if k < 0 then 45 # decimal_str (nat (- k)) else decimal_str (nat k))"

definition is_digit :: "u8 \<Rightarrow> bool" where
  "is_digit c \<longleftrightarrow> 48 \<le> c \<and> c \<le> 57"

definition digits_value :: "bytes \<Rightarrow> nat" where
  "digits_value ds = foldl (\<lambda>n c. 10 * n + unat (c - 48)) 0 ds"

text \<open>
  \<open>std::stoul\<close> of a string that begins with neither white space nor a sign, as all of its arguments here.
\<close>

definition stoul :: "bytes \<Rightarrow> u64 res" where
  "stoul s =
     (let ds = takeWhile is_digit s
      in if ds = [] \<or> 2 ^ 64 \<le> digits_value ds then Inl (Throw ''stoul'') else Inr (of_nat (digits_value ds)))"

text \<open>The conversion \<open>%ld\<close> of \<open>sscanf\<close>: the number and what follows it.\<close>

definition is_space :: "u8 \<Rightarrow> bool" where
  "is_space c \<longleftrightarrow> c = 32 \<or> 9 \<le> c \<and> c \<le> 13"

definition scan_ld :: "bytes \<Rightarrow> (int \<times> bytes) option" where
  "scan_ld s =
     (let s1 = dropWhile is_space s;
          neg = (s1 \<noteq> [] \<and> hd s1 = 45);
          s2 = (if s1 \<noteq> [] \<and> (hd s1 = 45 \<or> hd s1 = 43) then tl s1 else s1);
          ds = takeWhile is_digit s2
      in if ds = [] then None
         else Some (if neg then - int (digits_value ds) else int (digits_value ds), dropWhile is_digit s2))"

text \<open>The conversions of \<open>%ld.%ld.%ld\<close> that succeed, in order.\<close>

fun scan_dotted :: "nat \<Rightarrow> bytes \<Rightarrow> int list" where
  "scan_dotted 0 s = []"
| "scan_dotted (Suc n) s =
     (case scan_ld s of
        None \<Rightarrow> []
      | Some (k, r) \<Rightarrow> k # (case r of [] \<Rightarrow> [] | c # r' \<Rightarrow> if c = 46 then scan_dotted n r' else []))"


section \<open>Groups\<close>

record GroupInfo =
  gi_topic_id :: HederaTopicID
  gi_alias :: bytes

definition topic_zero :: HederaTopicID where
  "topic_zero = \<lparr>shardNum = 0, realmNum = 0, topicNum = 0\<rparr>"

definition GroupInfo_zero :: GroupInfo where
  "GroupInfo_zero = \<lparr>gi_topic_id = topic_zero, gi_alias = replicate GROUP_ALIAS_LENGTH 0\<rparr>"

text \<open>\<open>strncpy\<close> of at most 16 characters into the zeroed alias.\<close>

definition copy_alias :: "bytes \<Rightarrow> bytes" where
  "copy_alias alias =
     (let s = take GROUP_ALIAS_LENGTH (takeWhile (\<lambda>c. c \<noteq> 0) alias)
      in s @ replicate (GROUP_ALIAS_LENGTH - length s) 0)"

definition GroupInfo_create :: "bytes \<Rightarrow> HederaTopicID \<Rightarrow> GroupInfo" where
  "GroupInfo_create alias topic = \<lparr>gi_topic_id = topic, gi_alias = copy_alias alias\<rparr>"

definition GroupInfo_create_nums :: "bytes \<Rightarrow> u32 \<Rightarrow> u32 \<Rightarrow> u32 \<Rightarrow> GroupInfo" where
  "GroupInfo_create_nums alias shard realm topic =
     GroupInfo_create alias \<lparr>shardNum = ucast shard, realmNum = ucast realm, topicNum = ucast topic\<rparr>"

definition get_directory_name :: "GroupInfo \<Rightarrow> bytes res" where
  "get_directory_name gi =
     bind_res (c_str (gi_alias gi)) (\<lambda>alias.
       Inr (alias @ bytes_of ''.'' @ show_int (sint (shardNum (gi_topic_id gi))) @
            bytes_of ''.'' @ show_int (sint (realmNum (gi_topic_id gi))) @
            bytes_of ''.'' @ show_int (sint (topicNum (gi_topic_id gi))) @ bytes_of ''.bc''))"

definition directory_name_of :: "bytes \<Rightarrow> HederaTopicID \<Rightarrow> bytes res" where
  "directory_name_of alias topic = get_directory_name \<lparr>gi_topic_id = topic, gi_alias = copy_alias alias\<rparr>"

fun strncmp :: "nat \<Rightarrow> bytes \<Rightarrow> bytes \<Rightarrow> int" where
  "strncmp (Suc n) (a # as) (b # bs) =
     (if a \<noteq> b then int (unat a) - int (unat b) else if a = 0 then 0 else strncmp n as bs)"
| "strncmp _ _ _ = 0"

definition GroupInfo_less :: "GroupInfo \<Rightarrow> GroupInfo \<Rightarrow> bool" where
  "GroupInfo_less a b \<longleftrightarrow> strncmp GROUP_ALIAS_LENGTH (gi_alias a) (gi_alias b) \<noteq> 0"


section \<open>The property file\<close>

text \<open>
  \<open>SAFE_GET_CONF_ITEM\<close>: a missing key is logged and the exception of Poco passed on. The conversion of a
  value to a number is Poco's (\<open>parse\<close>); a value that is not a number throws as well.
\<close>

type_synonym properties = "string \<Rightarrow> bytes option"

definition get_string :: "properties \<Rightarrow> string \<Rightarrow> bytes res" where
  "get_string pfc key =
     (case pfc key of None \<Rightarrow> Inl (Throw (''Not found: '' @ key)) | Some v \<Rightarrow> Inr v)"

definition get_int :: "(bytes \<Rightarrow> int option) \<Rightarrow> properties \<Rightarrow> string \<Rightarrow> int res" where
  "get_int parse pfc key =
     bind_res (get_string pfc key) (\<lambda>v.
       case parse v of None \<Rightarrow> Inl (Throw ''Syntax error'') | Some k \<Rightarrow> Inr k)"

definition get_data_root_folder :: "properties \<Rightarrow> bytes res" where
  "get_data_root_folder pfc = get_string pfc ''data_root_folder''"

definition get_sibling_node_file :: "properties \<Rightarrow> bytes res" where
  "get_sibling_node_file pfc = get_string pfc ''sibling_node_file''"

definition get_grpc_endpoint :: "properties \<Rightarrow> bytes res" where
  "get_grpc_endpoint pfc = get_string pfc ''grpc_endpoint''"

definition get_group_register_topic_id_as_str :: "properties \<Rightarrow> bytes res" where
  "get_group_register_topic_id_as_str pfc = get_string pfc ''group_register_topic_id''"

definition get_sb_ordering_node_endpoint :: "properties \<Rightarrow> bytes res" where
  "get_sb_ordering_node_endpoint pfc = get_string pfc ''sb_ordering_node_endpoint''"

definition get_sb_pub_key :: "properties \<Rightarrow> bytes res" where
  "get_sb_pub_key pfc = get_string pfc ''sb_pub_key''"

definition get_sb_ordering_node_pub_key :: "properties \<Rightarrow> bytes res" where
  "get_sb_ordering_node_pub_key pfc = get_string pfc ''sb_ordering_node_pub_key''"

definition is_sb_host :: "(bytes \<Rightarrow> int option) \<Rightarrow> properties \<Rightarrow> bool res" where
  "is_sb_host parse pfc = bind_res (get_int parse pfc ''is_sb_host'') (\<lambda>k. Inr (k \<noteq> 0))"

definition is_topic_reset_allowed :: "(bytes \<Rightarrow> int option) \<Rightarrow> properties \<Rightarrow> bool res" where
  "is_topic_reset_allowed parse pfc = bind_res (get_int parse pfc ''topic_reset_allowed'') (\<lambda>k. Inr (k \<noteq> 0))"


section \<open>The configuration of a node with group blockchains\<close>

text \<open>
  \<open>GradidoNodeConfigDeprecated\<close>. \<open>sibling_file\<close> is the file named by \<open>sibling_node_file\<close>, if it exists;
  \<open>directories\<close> are the names of the directories in the data folder. A file system lists them in no
  particular order, so the properties below hold for every order.
\<close>

record NodeConfig =
  fc :: properties
  siblings :: "bytes list"
  gis :: "GroupInfo list"
  group_register_topic_id :: HederaTopicID
  sibling_file :: "bytes option"
  directories :: "bytes list"

text \<open>
  One directory whose name matches the expression: \<open>split\<close> yields the whole name and the four groups.
\<close>

definition group_info_of :: "bytes list \<Rightarrow> GroupInfo res" where
  "group_info_of ss =
     (case ss of
        _ # alias # shard # realm # topic # _ \<Rightarrow>
          (if GROUP_ALIAS_LENGTH - 1 \<le> length alias then Inl (Throw ''blockchain name too long'')
           else bind_res (stoul shard) (\<lambda>x. bind_res (stoul realm) (\<lambda>y. bind_res (stoul topic) (\<lambda>z.
             Inr \<lparr>gi_topic_id = \<lparr>shardNum = x, realmNum = y, topicNum = z\<rparr>,
                  gi_alias = alias @ replicate (GROUP_ALIAS_LENGTH - length alias) 0\<rparr>))))
      | _ \<Rightarrow> Inl (Undefined ''vector index out of range''))"

fun load_groups :: "(bytes \<Rightarrow> bytes list option) \<Rightarrow> bytes list \<Rightarrow> GroupInfo list res" where
  "load_groups split [] = Inr []"
| "load_groups split (d # ds) =
     (case split d of
        None \<Rightarrow> load_groups split ds
      | Some ss \<Rightarrow> bind_res (group_info_of ss) (\<lambda>gi. bind_res (load_groups split ds) (\<lambda>r. Inr (gi # r))))"

text \<open>An exception is caught and thrown again with another text.\<close>

definition rethrow :: "string \<Rightarrow> 'a res \<Rightarrow> 'a res" where
  "rethrow msg m = (case m of Inl (Throw e) \<Rightarrow> Inl (Throw (msg @ e)) | _ \<Rightarrow> m)"

definition reload_group_infos :: "(bytes \<Rightarrow> bytes list option) \<Rightarrow> NodeConfig \<Rightarrow> NodeConfig res" where
  "reload_group_infos split c =
     rethrow ''Could not init blockchain groups: ''
       (bind_res (get_data_root_folder (fc c)) (\<lambda>_.
         bind_res (load_groups split (directories c)) (\<lambda>r. Inr (c\<lparr>gis := gis c @ r\<rparr>))))"

text \<open>The lines \<open>std::getline\<close> reads: a last line without its end counts if it is not empty.\<close>

function getlines :: "bytes \<Rightarrow> bytes list" where
  "getlines s =
     (if s = [] then []
      else takeWhile (\<lambda>c. c \<noteq> 10) s # getlines (tl (dropWhile (\<lambda>c. c \<noteq> 10) s)))"
  by auto
termination
proof (relation "measure length", simp)
  fix s :: bytes
  assume "s \<noteq> []"
  then show "(tl (dropWhile (\<lambda>c. c \<noteq> 10) s), s) \<in> measure length"
    using length_dropWhile_le [of "\<lambda>c. c \<noteq> 10" s] by (cases s) (auto simp: less_Suc_eq_le)
qed

declare getlines.simps [simp del]

definition reload_sibling_file :: "NodeConfig \<Rightarrow> NodeConfig res" where
  "reload_sibling_file c =
     rethrow ''Could not open sibling file: ''
       (bind_res (get_sibling_node_file (fc c)) (\<lambda>_.
         Inr (c\<lparr>siblings :=
           filter (\<lambda>l. l \<noteq> []) (case sibling_file c of None \<Rightarrow> [] | Some s \<Rightarrow> getlines s)\<rparr>)))"

text \<open>
  The lines are written to a \<open>Poco::TemporaryFile\<close>, which is moved to the place of the sibling file. The
  moved object then stands for the file at its new place. Its destructor, which runs at the end of the
  function, deletes the file unless \<open>keep\<close> has been called, which it is not: no sibling file is left.
\<close>

definition write_siblings :: "NodeConfig \<Rightarrow> NodeConfig res" where
  "write_siblings c =
     bind_res (get_sibling_node_file (fc c)) (\<lambda>_.
       let moved = c\<lparr>sibling_file := Some (concat (map (\<lambda>i. i @ [10]) (siblings c)))\<rparr>
       in Inr (moved\<lparr>sibling_file := None\<rparr>))"

definition add_sibling_node :: "bytes \<Rightarrow> NodeConfig \<Rightarrow> (bool \<times> NodeConfig) res" where
  "add_sibling_node endpoint c =
     (if endpoint \<in> set (siblings c) then Inr (False, c)
      else bind_res (write_siblings (c\<lparr>siblings := siblings c @ [endpoint]\<rparr>)) (\<lambda>c1. Inr (True, c1)))"

text \<open>The list without the endpoint is built and dropped.\<close>

definition remove_sibling_node :: "bytes \<Rightarrow> NodeConfig \<Rightarrow> (bool \<times> NodeConfig) res" where
  "remove_sibling_node endpoint c =
     (if endpoint \<in> set (siblings c) then bind_res (write_siblings c) (\<lambda>c1. Inr (True, c1))
      else Inr (False, c))"

definition add_blockchain :: "GroupInfo \<Rightarrow> NodeConfig \<Rightarrow> NodeConfig res" where
  "add_blockchain gi c =
     bind_res (get_data_root_folder (fc c)) (\<lambda>_.
       bind_res (get_directory_name gi) (\<lambda>d.
         Inr (c\<lparr>directories := (if d \<in> set (directories c) then directories c else directories c @ [d]),
                gis := gis c @ [gi]\<rparr>)))"

text \<open>
  The topic of the group register: \<open>sscanf\<close> returns \<open>EOF\<close> only if there is nothing but white space; the
  numbers it does not reach stay as they were. A number beyond \<open>long\<close> has no defined conversion.
\<close>

definition topic_of_numbers :: "int list \<Rightarrow> HederaTopicID \<Rightarrow> HederaTopicID res" where
  "topic_of_numbers ks t =
     (if \<exists>k \<in> set ks. k < - (2 ^ 63) \<or> 2 ^ 63 \<le> k then Inl (Undefined ''number beyond long'')
      else Inr
        \<lparr>shardNum = (case ks of x # _ \<Rightarrow> word_of_int x | _ \<Rightarrow> shardNum t),
         realmNum = (case ks of _ # y # _ \<Rightarrow> word_of_int y | _ \<Rightarrow> realmNum t),
         topicNum = (case ks of _ # _ # z # _ \<Rightarrow> word_of_int z | _ \<Rightarrow> topicNum t)\<rparr>)"

definition NodeConfig_init :: "(bytes \<Rightarrow> bytes list option) \<Rightarrow> NodeConfig \<Rightarrow> NodeConfig res" where
  "NodeConfig_init split c =
     bind_res (get_group_register_topic_id_as_str (fc c)) (\<lambda>grti.
       if dropWhile is_space (takeWhile (\<lambda>b. b \<noteq> 0) grti) = []
       then Inl (Throw ''config: bad group register topic id'')
       else bind_res (topic_of_numbers (scan_dotted 3 (takeWhile (\<lambda>b. b \<noteq> 0) grti)) (group_register_topic_id c)) (\<lambda>t.
         bind_res (reload_sibling_file (c\<lparr>group_register_topic_id := t\<rparr>)) (reload_group_infos split)))"


section \<open>Launch token and key pair\<close>

text \<open>
  The files of the working directory, by name. \<open>readable\<close> tells whether the token file can be parsed.
\<close>

type_synonym file_table = "(string, bytes) fmap"

definition KEY_LENGTH_HEX :: nat where "KEY_LENGTH_HEX = PUB_KEY_LENGTH * 2"

definition launch_token_name :: string where "launch_token_name = ''launch-token.conf''"
definition identity_priv_name :: string where "identity_priv_name = ''identity-priv.conf''"
definition identity_pub_name :: string where "identity_pub_name = ''identity-pub.conf''"

definition read_key_from_file :: "string \<Rightarrow> file_table \<Rightarrow> bytes res" where
  "read_key_from_file name fs =
     (let str = (case fmlookup fs name of None \<Rightarrow> [] | Some s \<Rightarrow> s)
      in if length str \<noteq> KEY_LENGTH_HEX \<or> \<not> is_hex str then Inl (Throw ''cannot read, not a key'') else Inr str)"

definition save_key_to_file :: "bytes \<Rightarrow> string \<Rightarrow> file_table \<Rightarrow> file_table res" where
  "save_key_to_file key name fs =
     (if length key \<noteq> KEY_LENGTH_HEX \<or> \<not> is_hex key then Inl (Throw ''cannot write, not a key'')
      else if fmlookup fs name \<noteq> None then Inl (Throw ''cannot write, key exists'')
      else Inr (fmupd name key fs))"

record KpIdentity =
  kp_present :: bool
  priv_key :: bytes
  pub_key :: bytes

definition KpIdentity_new :: KpIdentity where
  "KpIdentity_new = \<lparr>kp_present = False, priv_key = [], pub_key = []\<rparr>"

definition KpIdentity_init :: "file_table \<Rightarrow> KpIdentity \<Rightarrow> KpIdentity res" where
  "KpIdentity_init fs kp =
     bind_res (if fmlookup fs identity_priv_name = None then Inr None
               else rethrow ''Could not open priv key: '' (bind_res (read_key_from_file identity_priv_name fs) (\<lambda>k. Inr (Some k)))) (\<lambda>pr.
     bind_res (if fmlookup fs identity_pub_name = None then Inr None
               else rethrow ''Could not open pub key: '' (bind_res (read_key_from_file identity_pub_name fs) (\<lambda>k. Inr (Some k)))) (\<lambda>pu.
       if (pr = None) \<noteq> (pu = None) then Inl (Throw ''one of kp identity files does not exist'')
       else Inr \<lparr>kp_present = (pr \<noteq> None \<and> pu \<noteq> None),
                 priv_key = (case pr of None \<Rightarrow> priv_key kp | Some k \<Rightarrow> k),
                 pub_key = (case pu of None \<Rightarrow> pub_key kp | Some k \<Rightarrow> k)\<rparr>))"

definition kp_store :: "bytes \<Rightarrow> bytes \<Rightarrow> file_table \<Rightarrow> KpIdentity \<Rightarrow> (file_table \<times> KpIdentity) res" where
  "kp_store pr pu fs kp =
     bind_res (save_key_to_file pr identity_priv_name fs) (\<lambda>fs1.
     bind_res (save_key_to_file pu identity_pub_name fs1) (\<lambda>fs2.
       Inr (fs2, \<lparr>kp_present = True, priv_key = pr, pub_key = pu\<rparr>)))"

text \<open>Reading the launch token removes its file.\<close>

definition LaunchToken_init :: "(bytes \<Rightarrow> properties option) \<Rightarrow> file_table \<Rightarrow> (properties option \<times> file_table) res" where
  "LaunchToken_init parse_file fs =
     (case fmlookup fs launch_token_name of
        None \<Rightarrow> Inr (None, fs)
      | Some s \<Rightarrow>
          (case parse_file s of
             None \<Rightarrow> Inl (Throw ''Could not open launch token file: '')
           | Some pfc \<Rightarrow> Inr (Some pfc, fmdrop launch_token_name fs)))"

text \<open>
  \<open>AbstractNodeConfig\<close>: the token, the key pair and the property file of a node of a subcluster.
\<close>

record AbstractNodeConfig =
  launch_token :: "properties option"
  kp :: KpIdentity
  node_fc :: properties

definition AbstractNodeConfig_init ::
  "(bytes \<Rightarrow> properties option) \<Rightarrow> properties \<Rightarrow> file_table \<Rightarrow> (AbstractNodeConfig \<times> file_table) res" where
  "AbstractNodeConfig_init parse_file gradido_conf fs =
     bind_res (LaunchToken_init parse_file fs) (\<lambda>(lt, fs1).
     bind_res (KpIdentity_init fs1 KpIdentity_new) (\<lambda>k.
       Inr (\<lparr>launch_token = lt, kp = k, node_fc = gradido_conf\<rparr>, fs1)))"

definition launch_token_is_present :: "AbstractNodeConfig \<Rightarrow> bool" where
  "launch_token_is_present c \<longleftrightarrow> launch_token c \<noteq> None"

text \<open>The parameters of the launcher; the third one is read although there may be only two.\<close>

definition NodeLauncherConfig_init :: "file_table \<Rightarrow> bytes list \<Rightarrow> (KpIdentity \<times> bytes \<times> bytes) res" where
  "NodeLauncherConfig_init fs params =
     bind_res (KpIdentity_init fs KpIdentity_new) (\<lambda>k.
       if \<not> kp_present k then Inl (Throw ''need key pair identity'')
       else if length params \<le> 1 \<or> params ! 1 = [] then Inl (Throw ''required parameters: own_endpoint target_endpoint'')
       else if length params = 2 then Inl (Undefined ''vector index out of range'')
       else if params ! 2 = [] then Inl (Throw ''required parameters: own_endpoint target_endpoint'')
       else Inr (k, params ! 1, params ! 2))"


section \<open>Numbers are read back\<close>

lemma digit_char [simp]:
  assumes "d < 10"
  shows "is_digit (48 + of_nat d)" "unat (48 + of_nat d - 48 :: u8) = d" "(48 + of_nat d :: u8) \<noteq> 46"
proof -
  have d: "unat (of_nat d :: u8) = d"
    using assms by (simp add: unat_of_nat)
  then have "unat (48 + of_nat d :: u8) = 48 + d"
    using assms by (simp add: unat_plus_if_small)
  moreover have "(48 + of_nat d :: u8) \<noteq> 46"
  proof
    assume "(48 + of_nat d :: u8) = 46"
    then show False
      using calculation by (simp only:) simp
  qed
  ultimately show "is_digit (48 + of_nat d)" "(48 + of_nat d :: u8) \<noteq> 46"
    using assms by (simp_all only: is_digit_def word_le_nat_alt) simp_all
  show "unat (48 + of_nat d - 48 :: u8) = d"
    using d by simp
qed

lemma digits_value_snoc: "digits_value (ds @ [c]) = 10 * digits_value ds + unat (c - 48)"
  by (simp add: digits_value_def)

lemma decimal_digits: "list_all is_digit (decimal_str n) \<and> decimal_str n \<noteq> [] \<and> digits_value (decimal_str n) = n"
proof (induction n rule: decimal_str.induct)
  case (1 n)
  show ?case
  proof (cases "n < 10")
    case True
    then have "decimal_str n = [48 + of_nat n]"
      by (simp add: decimal_str.simps)
    then show ?thesis
      using True digits_value_snoc [of "[]" "48 + of_nat n"] by (simp add: digits_value_def unat_of_nat)
  next
    case False
    then have "decimal_str n = decimal_str (n div 10) @ [48 + of_nat (n mod 10)]"
      by (simp add: decimal_str.simps)
    then show ?thesis
      using 1 [OF False] by (simp add: digits_value_snoc unat_of_nat)
  qed
qed

lemmas decimal_facts [simp] =
  decimal_digits [THEN conjunct1] decimal_digits [THEN conjunct2, THEN conjunct1]
  decimal_digits [THEN conjunct2, THEN conjunct2]

lemma takeWhile_digits: "list_all is_digit ds \<Longrightarrow> takeWhile is_digit ds = ds"
  by (simp add: list_all_iff)

lemma stoul_decimal [simp]: "n < 2 ^ 64 \<Longrightarrow> stoul (decimal_str n) = Inr (of_nat n)"
  by (simp add: stoul_def takeWhile_digits)

lemma stoul_show_sint:
  fixes w :: u64
  assumes "0 \<le> sint w"
  shows "stoul (show_int (sint w)) = Inr w" "list_all is_digit (show_int (sint w))" "show_int (sint w) \<noteq> []"
proof -
  have "nat (sint w) < 2 ^ 63"
    using sint_lt [of w] assms by simp
  then have "nat (sint w) < 2 ^ 64"
    by (rule less_le_trans) simp
  then show "stoul (show_int (sint w)) = Inr w"
    using assms by (simp add: show_int_def)
  show "list_all is_digit (show_int (sint w))" "show_int (sint w) \<noteq> []"
    using assms by (simp_all add: show_int_def)
qed


section \<open>Groups survive a restart\<close>

text \<open>
  What the expression \<open>^([a-zA-Z0-9_]+)\.(\d+)\.(\d+)\.(\d+)\.bc$\<close> is documented to do with a string of the
  form it describes: the match yields the string and its four groups.
\<close>

definition name_char :: "u8 \<Rightarrow> bool" where
  "name_char c \<longleftrightarrow> 97 \<le> c \<and> c \<le> 122 \<or> 65 \<le> c \<and> c \<le> 90 \<or> is_digit c \<or> c = 95"

definition dotted_name :: "bytes \<Rightarrow> bytes \<Rightarrow> bytes \<Rightarrow> bytes \<Rightarrow> bytes" where
  "dotted_name a x y z = a @ bytes_of ''.'' @ x @ bytes_of ''.'' @ y @ bytes_of ''.'' @ z @ bytes_of ''.bc''"

definition splits_directory_names :: "(bytes \<Rightarrow> bytes list option) \<Rightarrow> bool" where
  "splits_directory_names split \<longleftrightarrow>
     (\<forall>a x y z. a \<noteq> [] \<longrightarrow> list_all name_char a \<longrightarrow> x \<noteq> [] \<longrightarrow> list_all is_digit x \<longrightarrow>
        y \<noteq> [] \<longrightarrow> list_all is_digit y \<longrightarrow> z \<noteq> [] \<longrightarrow> list_all is_digit z \<longrightarrow>
        split (dotted_name a x y z) = Some [dotted_name a x y z, a, x, y, z])"

text \<open>A group whose directory is recognised: a short alias of admissible characters, no negative number.\<close>

definition listable :: "GroupInfo \<Rightarrow> bool" where
  "listable gi \<longleftrightarrow>
     (let alias = takeWhile (\<lambda>c. c \<noteq> 0) (gi_alias gi)
      in alias \<noteq> [] \<and> list_all name_char alias \<and> length alias < GROUP_ALIAS_LENGTH - 1 \<and>
         gi_alias gi = alias @ replicate (GROUP_ALIAS_LENGTH - length alias) 0 \<and>
         0 \<le> sint (shardNum (gi_topic_id gi)) \<and> 0 \<le> sint (realmNum (gi_topic_id gi)) \<and>
         0 \<le> sint (topicNum (gi_topic_id gi)))"

lemma listable_directory:
  assumes "listable gi" "splits_directory_names split"
  obtains d ss where "get_directory_name gi = Inr d" "split d = Some ss" "group_info_of ss = Inr gi"
proof -
  define nm where "nm = takeWhile (\<lambda>c. c \<noteq> 0) (gi_alias gi)"
  define t where "t = gi_topic_id gi"
  have a: "nm \<noteq> []" "list_all name_char nm" "length nm < GROUP_ALIAS_LENGTH - 1"
      "gi_alias gi = nm @ replicate (GROUP_ALIAS_LENGTH - length nm) 0"
      "0 \<le> sint (shardNum t)" "0 \<le> sint (realmNum t)" "0 \<le> sint (topicNum t)"
    using assms(1) by (simp_all add: listable_def nm_def t_def Let_def)
  have "0 \<in> set (gi_alias gi)"
    using a(3) by (subst a(4)) (auto simp: GROUP_ALIAS_LENGTH_def)
  then have dir: "get_directory_name gi = Inr (dotted_name nm (show_int (sint (shardNum t)))
      (show_int (sint (realmNum t))) (show_int (sint (topicNum t))))"
    by (simp add: get_directory_name_def c_str_def nm_def t_def dotted_name_def)
  have "split (dotted_name nm (show_int (sint (shardNum t))) (show_int (sint (realmNum t)))
      (show_int (sint (topicNum t)))) = Some [dotted_name nm (show_int (sint (shardNum t)))
      (show_int (sint (realmNum t))) (show_int (sint (topicNum t))), nm, show_int (sint (shardNum t)),
      show_int (sint (realmNum t)), show_int (sint (topicNum t))]"
    using assms(2) a stoul_show_sint by (auto simp: splits_directory_names_def)
  moreover have "group_info_of [dotted_name nm (show_int (sint (shardNum t)))
      (show_int (sint (realmNum t))) (show_int (sint (topicNum t))), nm, show_int (sint (shardNum t)),
      show_int (sint (realmNum t)), show_int (sint (topicNum t))] = Inr gi"
  proof -
    have "gi = \<lparr>gi_topic_id = t, gi_alias = nm @ replicate (GROUP_ALIAS_LENGTH - length nm) 0\<rparr>"
      using a(4) by (simp add: t_def)
    then show ?thesis
      using a(3) stoul_show_sint(1) [OF a(5)] stoul_show_sint(1) [OF a(6)] stoul_show_sint(1) [OF a(7)]
      by (simp add: group_info_of_def)
  qed
  ultimately show thesis
    using dir that by blast
qed

fun add_blockchains :: "GroupInfo list \<Rightarrow> NodeConfig \<Rightarrow> NodeConfig res" where
  "add_blockchains [] c = Inr c"
| "add_blockchains (gi # gs) c = bind_res (add_blockchain gi c) (add_blockchains gs)"

lemma load_groups_append:
  "load_groups split xs = Inr gs \<Longrightarrow> load_groups split ys = Inr hs \<Longrightarrow> load_groups split (xs @ ys) = Inr (gs @ hs)"
proof (induction xs arbitrary: gs)
  case (Cons x xs)
  show ?case
  proof (cases "split x")
    case None
    then show ?thesis
      using Cons by simp
  next
    case (Some ss)
    then obtain g gs' where "group_info_of ss = Inr g" "load_groups split xs = Inr gs'" "gs = g # gs'"
      using Cons.prems(1) by (auto simp: bind_res_Inr_iff)
    then show ?thesis
      using Cons.IH [of gs'] Cons.prems(2) Some by simp
  qed
qed simp

lemma load_groups_names:
  assumes "load_groups split ds = Inr gs" "split d = Some ss" "group_info_of ss = Inr gi" "d \<in> set ds"
  shows "gi \<in> set gs"
  using assms
proof (induction ds arbitrary: gs)
  case (Cons x xs)
  then show ?case
    by (cases "split x") (auto simp: bind_res_Inr_iff)
qed simp

lemma add_blockchains_listed:
  assumes "splits_directory_names split" "\<forall>gi \<in> set hs. listable gi" "distinct (gs @ hs)"
    and "get_data_root_folder (fc c) = Inr root" "load_groups split (directories c) = Inr gs"
  shows "\<exists>c1. add_blockchains hs c = Inr c1 \<and> gis c1 = gis c @ hs \<and> fc c1 = fc c \<and>
     load_groups split (directories c1) = Inr (gs @ hs)"
  using assms(2-5)
proof (induction hs arbitrary: c gs)
  case (Cons gi hs)
  obtain d ss where d: "get_directory_name gi = Inr d" "split d = Some ss" "group_info_of ss = Inr gi"
    by (rule listable_directory [OF _ assms(1)]) (use Cons.prems in auto)
  have fresh: "d \<notin> set (directories c)"
    using load_groups_names [OF Cons.prems(4) d(2,3)] Cons.prems(2) by auto
  define c0 where "c0 = c\<lparr>directories := directories c @ [d], gis := gis c @ [gi]\<rparr>"
  have add: "add_blockchain gi c = Inr c0"
    using d(1) Cons.prems(3) fresh by (simp add: add_blockchain_def c0_def)
  have "load_groups split (directories c0) = Inr (gs @ [gi])"
    using load_groups_append [OF Cons.prems(4), of "[d]" "[gi]"] d by (simp add: c0_def)
  then obtain c1 where "add_blockchains hs c0 = Inr c1" "gis c1 = gis c0 @ hs" "fc c1 = fc c0"
      "load_groups split (directories c1) = Inr ((gs @ [gi]) @ hs)"
    using Cons.IH [of "gs @ [gi]" c0] Cons.prems by (auto simp: c0_def)
  then show ?case
    using add by (simp add: c0_def)
qed simp

text \<open>The order in which the directories are listed does not matter.\<close>

definition group_of :: "(bytes \<Rightarrow> bytes list option) \<Rightarrow> bytes \<Rightarrow> GroupInfo option" where
  "group_of split d =
     (case split d of None \<Rightarrow> None | Some ss \<Rightarrow> (case group_info_of ss of Inl _ \<Rightarrow> None | Inr gi \<Rightarrow> Some gi))"

lemma load_groups_iff:
  "load_groups split ds = Inr gs \<longleftrightarrow>
     (\<forall>d \<in> set ds. split d = None \<or> group_of split d \<noteq> None) \<and> gs = List.map_filter (group_of split) ds"
proof (induction ds arbitrary: gs)
  case (Cons d ds)
  show ?case
  proof (cases "split d")
    case None
    then show ?thesis
      using Cons by (simp add: group_of_def)
  next
    case (Some ss)
    then show ?thesis
      using Cons by (cases "group_info_of ss") (auto simp: group_of_def bind_res_Inr_iff)
  qed
qed auto

lemma load_groups_any_order:
  assumes "load_groups split ds = Inr gs" "mset ds' = mset ds"
  obtains gs' where "load_groups split ds' = Inr gs'" "mset gs' = mset gs"
proof -
  have "mset (List.map_filter (group_of split) ds') = mset (List.map_filter (group_of split) ds)"
    using assms(2) by (simp add: List.map_filter_def)
  moreover have "set ds' = set ds"
    using assms(2) by (rule mset_eq_setD)
  ultimately show thesis
    using assms(1) by (intro that [of "List.map_filter (group_of split) ds'"]) (simp_all add: load_groups_iff)
qed

text \<open>
  Groups added to the configuration of a node are found again after a restart: their directories
  are named so that listing the data folder, in any order, yields the same aliases and topics. This
  holds for aliases of up to 14 characters, the limit \<open>reload_group_infos\<close> enforces, and for topic
  numbers that are not negative.
\<close>

lemma groups_read_back:
  assumes "splits_directory_names split" "\<forall>gi \<in> set gs. listable gi" "distinct gs"
    and "get_data_root_folder (fc c) = Inr root" "directories c = []"
  obtains c1 where "add_blockchains gs c = Inr c1"
    "\<And>ds. mset ds = mset (directories c1) \<Longrightarrow> \<exists>c2. reload_group_infos split (c1\<lparr>gis := [], directories := ds\<rparr>) = Inr c2 \<and>
       mset (gis c2) = mset gs \<and> fc c2 = fc c"
proof -
  obtain c1 where c1: "add_blockchains gs c = Inr c1" "fc c1 = fc c" "load_groups split (directories c1) = Inr gs"
    using add_blockchains_listed [OF assms(1,2), of "[]" c root] assms(3-5) by auto
  show thesis
  proof (rule that [OF c1(1)])
    fix ds
    assume "mset ds = mset (directories c1)"
    then obtain gs' where "load_groups split ds = Inr gs'" "mset gs' = mset gs"
      using load_groups_any_order [OF c1(3)] by blast
    then show "\<exists>c2. reload_group_infos split (c1\<lparr>gis := [], directories := ds\<rparr>) = Inr c2 \<and>
        mset (gis c2) = mset gs \<and> fc c2 = fc c"
      using c1(2) assms(4) by (simp add: reload_group_infos_def rethrow_def)
  qed
qed


text \<open>A function that does what the expression is documented to do.\<close>

definition split_name :: "bytes \<Rightarrow> bytes list option" where
  "split_name f =
     (let a = takeWhile (\<lambda>c. c \<noteq> 46) f; f1 = drop (length a + 1) f;
          x = takeWhile (\<lambda>c. c \<noteq> 46) f1; f2 = drop (length x + 1) f1;
          y = takeWhile (\<lambda>c. c \<noteq> 46) f2; f3 = drop (length y + 1) f2;
          z = takeWhile (\<lambda>c. c \<noteq> 46) f3
      in if f = dotted_name a x y z \<and> a \<noteq> [] \<and> list_all name_char a \<and> x \<noteq> [] \<and> list_all is_digit x \<and>
            y \<noteq> [] \<and> list_all is_digit y \<and> z \<noteq> [] \<and> list_all is_digit z
         then Some [f, a, x, y, z] else None)"

lemma bytes_of_dot [simp]: "bytes_of ''.'' = [46]" "bytes_of ''.bc'' = [46, 98, 99]"
  by (simp_all add: bytes_of_def)

lemma no_dot: "list_all is_digit x \<Longrightarrow> c \<in> set x \<Longrightarrow> c \<noteq> 46" "list_all name_char x \<Longrightarrow> c \<in> set x \<Longrightarrow> c \<noteq> 46"
  by (auto simp: list_all_iff name_char_def is_digit_def)

lemma split_name_splits: "splits_directory_names split_name"
proof -
  have take: "takeWhile (\<lambda>c. c \<noteq> 46) (x @ 46 # r) = x" if "\<And>c. c \<in> set x \<Longrightarrow> c \<noteq> 46" for x r :: bytes
    by (rule takeWhile_append_stop) (use that in auto)
  show ?thesis
    unfolding splits_directory_names_def
  proof (intro allI impI)
    fix a x y z
    assume "a \<noteq> []" "list_all name_char a" "x \<noteq> []" "list_all is_digit x" "y \<noteq> []" "list_all is_digit y"
      "z \<noteq> []" "list_all is_digit z"
    then show "split_name (dotted_name a x y z) = Some [dotted_name a x y z, a, x, y, z]"
      using take [OF no_dot(2)] take [OF no_dot(1)] by (simp add: split_name_def dotted_name_def Let_def)
  qed
qed

definition two_groups :: "GroupInfo list" where
  "two_groups =
     [GroupInfo_create (bytes_of ''ab'') \<lparr>shardNum = 0, realmNum = 0, topicNum = 12\<rparr>,
      GroupInfo_create (bytes_of ''c_1'') \<lparr>shardNum = 1, realmNum = 2, topicNum = 3\<rparr>]"

definition blank_config :: NodeConfig where
  "blank_config =
     \<lparr>fc = (\<lambda>key. Some []), siblings = [], gis = [], group_register_topic_id = topic_zero,
      sibling_file = None, directories = []\<rparr>"

lemma two_groups_listable: "\<forall>gi \<in> set two_groups. listable gi" "distinct two_groups"
  by code_simp+

text \<open>
  An alias of 16 characters fills its field: the name of the directory has no defined value. One of 15
  characters gives a directory that makes the next start of the node fail.
\<close>

lemma long_alias_undefined:
  assumes "16 \<le> length alias" "0 \<notin> set alias"
  shows "undefined_behaviour (get_directory_name (GroupInfo_create alias topic))"
proof -
  have "takeWhile (\<lambda>c. c \<noteq> 0) alias = alias"
    using assms(2) by (subst takeWhile_eq_all_conv) auto
  then have "gi_alias (GroupInfo_create alias topic) = take 16 alias"
    using assms(1) by (simp only: GroupInfo_create_def copy_alias_def GROUP_ALIAS_LENGTH_def) simp
  then show ?thesis
    using assms(2) by (auto simp: get_directory_name_def c_str_def dest: in_set_takeD)
qed

lemma alias_of_15_rejected:
  assumes "length alias = 15"
  shows "group_info_of (d # alias # r # ss) = Inl (Throw ''blockchain name too long'') \<or> length ss < 2"
  using assms by (cases ss; cases "tl ss") (auto simp: group_info_of_def GROUP_ALIAS_LENGTH_def)

text \<open>\<open>operator<\<close> of \<open>GroupInfo\<close> holds in both directions for different aliases.\<close>

lemma strncmp_sym: "strncmp n a b = - strncmp n b a"
  by (induction n a b rule: strncmp.induct) auto

lemma GroupInfo_less_symmetric: "GroupInfo_less a b = GroupInfo_less b a"
  using strncmp_sym [of GROUP_ALIAS_LENGTH "gi_alias a" "gi_alias b"] by (simp add: GroupInfo_less_def)


section \<open>Siblings\<close>

definition line_text :: "bytes \<Rightarrow> bool" where
  "line_text e \<longleftrightarrow> e \<noteq> [] \<and> 10 \<notin> set e"

lemma getlines_line: "10 \<notin> set e \<Longrightarrow> getlines (e @ 10 # r) = e # getlines r"
proof -
  assume e: "10 \<notin> set e"
  have "takeWhile (\<lambda>c. c \<noteq> 10) (e @ 10 # r) = e"
    by (rule takeWhile_append_stop) (use e in auto)
  moreover have "dropWhile (\<lambda>c. c \<noteq> 10) (e @ 10 # r) = 10 # r"
    using e by (subst dropWhile_append2) auto
  ultimately show ?thesis
    by (subst getlines.simps) simp
qed

lemma getlines_lines: "\<forall>e \<in> set es. 10 \<notin> set e \<Longrightarrow> getlines (concat (map (\<lambda>i. i @ [10]) es)) = es"
  by (induction es) (simp_all add: getlines.simps [of "[]"] getlines_line)

fun add_siblings :: "bytes list \<Rightarrow> NodeConfig \<Rightarrow> NodeConfig res" where
  "add_siblings [] c = Inr c"
| "add_siblings (e # es) c = bind_res (add_sibling_node e c) (\<lambda>(_, c1). add_siblings es c1)"

text \<open>A file with one endpoint in each line is read as the list of these endpoints.\<close>

lemma sibling_file_read:
  assumes "sibling_file c = Some (concat (map (\<lambda>i. i @ [10]) es))" "\<forall>e \<in> set es. line_text e"
    and "get_sibling_node_file (fc c) = Inr f"
  shows "reload_sibling_file c = Inr (c\<lparr>siblings := es\<rparr>)"
proof -
  have "filter (\<lambda>l. l \<noteq> []) es = es"
    using assms(2) by (simp add: line_text_def)
  then show ?thesis
    using assms by (simp add: reload_sibling_file_def rethrow_def getlines_lines line_text_def)
qed

text \<open>While the node runs, every endpoint that was added is listed, and listed once.\<close>

lemma add_siblings_listed:
  assumes "distinct (siblings c)" "get_sibling_node_file (fc c) = Inr f"
  shows "\<exists>c1. add_siblings es c = Inr c1 \<and> distinct (siblings c1) \<and> set (siblings c1) = set (siblings c) \<union> set es \<and>
    fc c1 = fc c \<and> sibling_file c1 = (if set es \<subseteq> set (siblings c) then sibling_file c else None)"
  using assms
proof (induction es arbitrary: c)
  case (Cons e es)
  show ?case
  proof (cases "e \<in> set (siblings c)")
    case True
    then show ?thesis
      using Cons.IH [of c] Cons.prems by (auto simp: add_sibling_node_def split: if_splits)
  next
    case False
    define c0 where "c0 = c\<lparr>siblings := siblings c @ [e], sibling_file := None\<rparr>"
    have "add_sibling_node e c = Inr (True, c0)"
      using False Cons.prems by (simp add: add_sibling_node_def write_siblings_def c0_def)
    moreover have "distinct (siblings c0)" "get_sibling_node_file (fc c0) = Inr f"
      using Cons.prems False by (simp_all add: c0_def)
    ultimately show ?thesis
      using Cons.IH [of c0] False by (auto simp: c0_def)
  qed
qed simp

text \<open>After an endpoint that was not known has been added, the next start of the node finds no siblings at all.\<close>

lemma siblings_lost_on_restart:
  assumes "distinct (siblings c)" "get_sibling_node_file (fc c) = Inr f" "\<not> set es \<subseteq> set (siblings c)"
  shows "\<exists>c1 c2. add_siblings es c = Inr c1 \<and> set (siblings c1) = set (siblings c) \<union> set es \<and>
    reload_sibling_file c1 = Inr c2 \<and> siblings c2 = []"
  using add_siblings_listed [OF assms(1,2), of es] assms(2,3) by (auto simp: reload_sibling_file_def rethrow_def)

text \<open>\<open>remove_sibling_node\<close> reports success and removes nothing.\<close>

lemma removed_sibling_stays:
  assumes "endpoint \<in> set (siblings c)" "get_sibling_node_file (fc c) = Inr f"
  shows "\<exists>c1. remove_sibling_node endpoint c = Inr (True, c1) \<and> siblings c1 = siblings c"
  using assms by (simp add: remove_sibling_node_def write_siblings_def)

text \<open>A topic that is no number at all is accepted: the numbers keep their value.\<close>

lemma bad_topic_accepted:
  "topic_of_numbers (scan_dotted 3 (bytes_of ''x.y.z'')) t = Inr t"
  "topic_of_numbers (scan_dotted 3 (bytes_of ''7'')) t = Inr (t\<lparr>shardNum := 7\<rparr>)"
proof -
  have scan: "scan_dotted 3 (bytes_of ''x.y.z'') = []" "scan_dotted 3 (bytes_of ''7'') = [7]"
    by code_simp+
  show "topic_of_numbers (scan_dotted 3 (bytes_of ''x.y.z'')) t = Inr t"
    "topic_of_numbers (scan_dotted 3 (bytes_of ''7'')) t = Inr (t\<lparr>shardNum := 7\<rparr>)"
    by (simp_all add: scan topic_of_numbers_def)
qed


section \<open>The key pair survives a restart\<close>

definition is_key :: "bytes \<Rightarrow> bool" where
  "is_key k \<longleftrightarrow> length k = KEY_LENGTH_HEX \<and> is_hex k"

lemma read_key_found [simp]: "fmlookup fs name = Some k \<Longrightarrow> is_key k \<Longrightarrow> read_key_from_file name fs = Inr k"
  by (simp add: read_key_from_file_def is_key_def)

lemma identity_names [simp]: "identity_priv_name \<noteq> identity_pub_name" "identity_pub_name \<noteq> identity_priv_name"
    "launch_token_name \<noteq> identity_priv_name" "launch_token_name \<noteq> identity_pub_name"
    "identity_priv_name \<noteq> launch_token_name" "identity_pub_name \<noteq> launch_token_name"
  by (simp_all add: identity_priv_name_def identity_pub_name_def launch_token_name_def)

lemma kp_store_then_init:
  assumes "is_key pr" "is_key pu" "fmlookup fs identity_priv_name = None" "fmlookup fs identity_pub_name = None"
  obtains fs1 where "kp_store pr pu fs k = Inr (fs1, \<lparr>kp_present = True, priv_key = pr, pub_key = pu\<rparr>)"
    "KpIdentity_init fs1 k0 = Inr \<lparr>kp_present = True, priv_key = pr, pub_key = pu\<rparr>"
    "fmlookup fs1 launch_token_name = fmlookup fs launch_token_name"
proof -
  define fs1 where "fs1 = fmupd identity_pub_name pu (fmupd identity_priv_name pr fs)"
  have "kp_store pr pu fs k = Inr (fs1, \<lparr>kp_present = True, priv_key = pr, pub_key = pu\<rparr>)"
    using assms by (simp add: kp_store_def save_key_to_file_def is_key_def fs1_def)
  moreover have "KpIdentity_init fs1 k0 = Inr \<lparr>kp_present = True, priv_key = pr, pub_key = pu\<rparr>"
    using assms(1,2) by (simp add: KpIdentity_init_def fs1_def rethrow_def)
  moreover have "fmlookup fs1 launch_token_name = fmlookup fs launch_token_name"
    by (simp add: fs1_def)
  ultimately show thesis
    by (rule that)
qed

lemma kp_never_overwritten:
  assumes "kp_store pr pu fs k = Inr (fs1, k1)"
  shows "fmlookup fs identity_priv_name = None" "fmlookup fs identity_pub_name = None"
  using assms by (auto simp: kp_store_def save_key_to_file_def bind_res_Inr_iff split: if_splits)

end
