(* ===== verification/Facade.thy ===== *)
theory Facade
  imports Group_Chain Config
begin

text \<open>
  \<open>src/facades_impl.cpp\<close>, the node with group blockchains (\<open>GradidoNodeDeprecated\<close> with its
  \<open>GroupRegisterFacade\<close> and \<open>GroupBlockchainFacade\<close>), and the tasks of \<open>src/gradido_events.h\<close> that only call
  it. The node has the group register, the table of group blockchains, and the table of the paired
  transactions its blockchains wait for. Tasks handed to the worker pool are collected in \<open>pushed_tasks\<close>
  with their delay in seconds, requests to sibling nodes in \<open>outbound_requests\<close>. The methods run under a
  lock, so each is one step.
\<close>

section \<open>State\<close>

type_synonym group_chain = "(GradidoRecord, GroupLedger) chain"
type_synonym register_chain = "(GroupRegisterRecord, GroupRegister) chain"

record OutboundTransactionDescriptor =
  otd_group :: bytes
  otd_id :: HederaTimestamp

record OutboundTransaction =
  out_success :: bool
  out_data :: bytes

datatype node_task =
    AddPairedTask OutboundTransaction OutboundTransactionDescriptor
  | TryPairedAgainTask OutboundTransactionDescriptor
  | StartBlockchainTask GroupInfo
  | InitGroupRegister
  | InitGroupBlockchain bytes
  | ContinueGroupValidationTask bytes
  | ContinueRegisterValidationTask

text \<open>The listener of a paired transaction is a group blockchain of this node, by its name.\<close>

record PairedTransactionData =
  ptl :: bytes
  otd :: OutboundTransactionDescriptor

record GradidoNode =
  conf :: NodeConfig
  group_register :: "register_chain option"
  group_blockchains :: "(bytes, group_chain) fmap"
  waiting_pairs :: "(HederaTimestamp, PairedTransactionData) fmap"
  pushed_tasks :: "(node_task \<times> nat) list"
  outbound_requests :: "(bytes \<times> OutboundTransactionDescriptor) list"
  subscriptions :: "bytes list"

definition GradidoNode_new :: "NodeConfig \<Rightarrow> GradidoNode" where
  "GradidoNode_new c =
     \<lparr>conf = c, group_register = None, group_blockchains = fmempty, waiting_pairs = fmempty,
      pushed_tasks = [], outbound_requests = [], subscriptions = []\<rparr>"

definition push_node_task :: "node_task \<Rightarrow> nat \<Rightarrow> GradidoNode \<Rightarrow> GradidoNode" where
  "push_node_task t after n = n\<lparr>pushed_tasks := pushed_tasks n @ [(t, after)]\<rparr>"


section \<open>Starting\<close>

text \<open>\<open>reg\<close> is what the files of the group register hold; the blockchain is validated by the task pushed here.\<close>

definition GroupRegisterFacade_init :: "GroupRegisterRecord Blockchain \<Rightarrow> GradidoNode \<Rightarrow> GradidoNode res" where
  "GroupRegisterFacade_init reg n =
     bind_res (get_data_root_folder (fc (conf n))) (\<lambda>_.
       Inr (push_node_task InitGroupRegister 0 (n\<lparr>group_register := Some (chain_new reg GroupRegister_new)\<rparr>)))"

definition continue_init_after_group_register_done :: "GradidoNode \<Rightarrow> GradidoNode" where
  "continue_init_after_group_register_done n =
     fold (\<lambda>i. push_node_task (StartBlockchainTask i) 0) (gis (conf n)) n"


section \<open>The table of group blockchains\<close>

definition node_group_blockchain :: "bytes \<Rightarrow> GradidoNode \<Rightarrow> group_chain option" where
  "node_group_blockchain g n = fmlookup (group_blockchains n) g"

text \<open>
  \<open>stored\<close> gives what the directory of a group holds. The result tells whether a blockchain was created
  (the code returns it, or a null pointer).
\<close>

definition create_group_blockchain ::
  "(bytes \<Rightarrow> GradidoRecord Blockchain) \<Rightarrow> GroupInfo \<Rightarrow> GradidoNode \<Rightarrow> (bool \<times> GradidoNode) res" where
  "create_group_blockchain stored gi n =
     bind_res (c_str (gi_alias gi)) (\<lambda>alias.
       if fmlookup (group_blockchains n) alias \<noteq> None then Inr (False, n)
       else bind_res (get_data_root_folder (fc (conf n))) (\<lambda>_.
         let b = chain_new (stored alias) GroupLedger_new
         in Inr (True, push_node_task (InitGroupBlockchain alias) 0
              (n\<lparr>group_blockchains := std_insert alias b (group_blockchains n)\<rparr>))))"

text \<open>A group that is not in the table is never created; its directory name is that of an empty alias.\<close>

definition create_or_get_group_blockchain :: "bytes \<Rightarrow> GradidoNode \<Rightarrow> group_chain option res" where
  "create_or_get_group_blockchain g n =
     (case fmlookup (group_blockchains n) g of
        Some b \<Rightarrow> Inr (Some b)
      | None \<Rightarrow>
          bind_res (get_data_root_folder (fc (conf n))) (\<lambda>_.
            bind_res (get_directory_name GroupInfo_zero) (\<lambda>_. Inr None)))"

definition GROUP_REGISTER_NAME :: bytes where
  "GROUP_REGISTER_NAME = bytes_of ''group-register''"

datatype any_blockchain = AnyRegister register_chain | AnyGroup group_chain

definition get_any_blockchain :: "bytes \<Rightarrow> GradidoNode \<Rightarrow> any_blockchain option" where
  "get_any_blockchain name n =
     (if name = GROUP_REGISTER_NAME then map_option AnyRegister (group_register n)
      else map_option AnyGroup (node_group_blockchain name n))"


section \<open>Paired transactions\<close>

text \<open>\<open>rng.next(n)\<close> of Poco returns a number below \<open>n\<close>; \<open>rnd\<close> stands for it.\<close>

definition get_random_sibling_endpoint :: "(nat \<Rightarrow> nat) \<Rightarrow> GradidoNode \<Rightarrow> bytes option" where
  "get_random_sibling_endpoint rnd n =
     (let s = siblings (conf n) in if s = [] then None else Some (s ! rnd (length s)))"

text \<open>A blockchain asks for the other half of a cross-group transaction.\<close>

definition exec_once_paired_transaction_done ::
  "(nat \<Rightarrow> nat) \<Rightarrow> bytes \<Rightarrow> bytes \<Rightarrow> HederaTimestamp \<Rightarrow> GradidoNode \<Rightarrow> GradidoNode res" where
  "exec_once_paired_transaction_done rnd g listener hti n =
     (case get_random_sibling_endpoint rnd n of
        None \<Rightarrow> Inl (Throw ''need sibling to get paired transaction'')
      | Some se \<Rightarrow>
          (if fmlookup (waiting_pairs n) hti \<noteq> None then Inr n
           else let d = \<lparr>otd_group = g, otd_id = hti\<rparr>
                in Inr (n\<lparr>waiting_pairs := std_insert hti \<lparr>ptl = listener, otd = d\<rparr> (waiting_pairs n),
                          outbound_requests := outbound_requests n @ [(se, d)]\<rparr>)))"

text \<open>The request is repeated.\<close>

definition exec_again_paired_transaction_done ::
  "(nat \<Rightarrow> nat) \<Rightarrow> HederaTimestamp \<Rightarrow> GradidoNode \<Rightarrow> GradidoNode res" where
  "exec_again_paired_transaction_done rnd hti n =
     (case get_random_sibling_endpoint rnd n of
        None \<Rightarrow> Inl (Throw ''need sibling to get paired transaction'')
      | Some se \<Rightarrow>
          (case fmlookup (waiting_pairs n) hti of
             None \<Rightarrow> Inl (Throw ''cannot continue getting paired transaction'')
           | Some ptd \<Rightarrow> Inr (n\<lparr>outbound_requests := outbound_requests n @ [(se, otd ptd)]\<rparr>)))"

text \<open>A message of the answer of the sibling node.\<close>

definition outbound_on_block_record ::
  "OutboundTransaction \<Rightarrow> OutboundTransactionDescriptor \<Rightarrow> GradidoNode \<Rightarrow> GradidoNode" where
  "outbound_on_block_record br req n =
     (if out_success br then push_node_task (AddPairedTask br req) 0 n
      else push_node_task (TryPairedAgainTask req) 1 n)"

text \<open>
  The other half has arrived. Its entry is erased from the table, and the listener is then read through
  the iterator of the erased entry: there is no defined result.
\<close>

definition on_paired_transaction ::
  "OutboundTransaction \<Rightarrow> OutboundTransactionDescriptor \<Rightarrow> GradidoNode \<Rightarrow> GradidoNode res" where
  "on_paired_transaction br req n =
     (case fmlookup (waiting_pairs n) (otd_id req) of
        None \<Rightarrow> Inl (Throw ''unexpected incoming pair'')
      | Some _ \<Rightarrow> Inl (Undefined ''iterator of an erased entry''))"


section \<open>What the blockchains see of the node\<close>

text \<open>
  The facade argument of the ledger (\<open>Group_Ledger\<close>), as this node provides it: the blockchains of other
  groups it has, and whether a sibling is configured.
\<close>

definition peer_of :: "nat \<Rightarrow> group_chain \<Rightarrow> peer" where
  "peer_of now b =
     \<lparr>peer_paired_transaction = (\<lambda>hti. get_paired_transaction hti (indexes b)),
      peer_transaction = (\<lambda>seq. case get_transaction now (unat seq) b of Inr (t, _) \<Rightarrow> t | Inl _ \<Rightarrow> None)\<rparr>"

definition facade_of :: "nat \<Rightarrow> GradidoNode \<Rightarrow> facade" where
  "facade_of now n =
     \<lparr>get_group_blockchain = (\<lambda>g. map_option (peer_of now) (node_group_blockchain g n)),
      has_sibling = (siblings (conf n) \<noteq> [])\<rparr>"


text \<open>
  \<open>GradidoNodeDeprecated\<close> passes two of its calls on without returning their result, which leaves the
  result of the call undefined.
\<close>

definition node_group_register :: "GradidoNode \<Rightarrow> register_chain option res" where
  "node_group_register n = Inl (Undefined ''no return statement'')"

definition node_random_sibling_endpoint :: "GradidoNode \<Rightarrow> bytes option res" where
  "node_random_sibling_endpoint n = Inl (Undefined ''no return statement'')"


section \<open>The tasks of the node\<close>

text \<open>
  What the tasks take from outside the node: random numbers, what the directories of the groups hold,
  the clock, and the virtual methods of the two kinds of blockchain.
\<close>

record node_env =
  random_next :: "nat \<Rightarrow> nat"
  stored_group :: "bytes \<Rightarrow> GradidoRecord Blockchain"
  clock :: nat
  group_methods :: "facade \<Rightarrow> (GradidoRecord, GroupLedger) child"
  register_methods :: "(GroupRegisterRecord, GroupRegister) child"

text \<open>A blockchain asks for a sibling only when it has no blocks and does not know one yet.\<close>

definition node_continue_validation ::
  "('p, 'c) child \<Rightarrow> nat \<Rightarrow> GradidoNode \<Rightarrow> ('p, 'c) chain \<Rightarrow> ('p, 'c) chain res" where
  "node_continue_validation ch now n b =
     (if chain_state b = INITIAL \<and> get_block_count (storage b) = 0
      then bind_res (node_random_sibling_endpoint n) (\<lambda>e. continue_validation ch now e b)
      else continue_validation ch now None b)"

text \<open>
  \<open>init\<close> of a blockchain subscribes to its topic at the mirror node (\<open>subscriptions\<close>, by the name of the
  blockchain). A task that continues a validation holds a pointer to its blockchain.
\<close>

definition run_node_task :: "node_env \<Rightarrow> node_task \<Rightarrow> GradidoNode \<Rightarrow> GradidoNode res" where
  "run_node_task e t n =
     (case t of
        AddPairedTask br req \<Rightarrow> on_paired_transaction br req n
      | TryPairedAgainTask req \<Rightarrow> exec_again_paired_transaction_done (random_next e) (otd_id req) n
      | StartBlockchainTask gi \<Rightarrow> bind_res (create_group_blockchain (stored_group e) gi n) (\<lambda>(_, n1). Inr n1)
      | InitGroupRegister \<Rightarrow>
          bind_res (node_group_register n) (\<lambda>gr.
            case gr of
              None \<Rightarrow> Inl (Undefined ''null pointer'')
            | Some _ \<Rightarrow>
                Inr (push_node_task ContinueRegisterValidationTask 0
                  (n\<lparr>subscriptions := subscriptions n @ [GROUP_REGISTER_NAME]\<rparr>)))
      | InitGroupBlockchain b \<Rightarrow>
          Inr (push_node_task (ContinueGroupValidationTask b) 0 (n\<lparr>subscriptions := subscriptions n @ [b]\<rparr>))
      | ContinueGroupValidationTask g \<Rightarrow>
          (case node_group_blockchain g n of
             None \<Rightarrow> Inl (Undefined ''null pointer'')
           | Some b \<Rightarrow>
               bind_res (node_continue_validation (group_methods e (facade_of (clock e) n)) (clock e) n b) (\<lambda>b1.
                 Inr (n\<lparr>group_blockchains := fmupd g b1 (group_blockchains n)\<rparr>)))
      | ContinueRegisterValidationTask \<Rightarrow>
          (case group_register n of
             None \<Rightarrow> Inl (Undefined ''null pointer'')
           | Some b \<Rightarrow>
               bind_res (node_continue_validation (register_methods e) (clock e) n b) (\<lambda>b1.
                 Inr (n\<lparr>group_register := Some b1\<rparr>))))"


section \<open>Starting the configured groups\<close>

fun run_node_tasks :: "node_env \<Rightarrow> node_task list \<Rightarrow> GradidoNode \<Rightarrow> GradidoNode res" where
  "run_node_tasks e [] n = Inr n"
| "run_node_tasks e (t # ts) n = bind_res (run_node_task e t n) (run_node_tasks e ts)"

definition alias_of :: "GroupInfo \<Rightarrow> bytes" where
  "alias_of gi = takeWhile (\<lambda>c. c \<noteq> 0) (gi_alias gi)"

lemma push_node_task_fields [simp]:
  "conf (push_node_task t d n) = conf n" "group_blockchains (push_node_task t d n) = group_blockchains n"
  "pushed_tasks (push_node_task t d n) = pushed_tasks n @ [(t, d)]" "waiting_pairs (push_node_task t d n) = waiting_pairs n"
  "group_register (push_node_task t d n) = group_register n" "outbound_requests (push_node_task t d n) = outbound_requests n"
  by (simp_all add: push_node_task_def)

lemma fold_push_node_task:
  "fold (\<lambda>i. push_node_task (f i) 0) is n = n\<lparr>pushed_tasks := pushed_tasks n @ map (\<lambda>i. (f i, 0)) is\<rparr>"
  by (induction "is" arbitrary: n) (simp_all add: push_node_task_def)

lemma start_task:
  assumes "0 \<in> set (gi_alias gi)" "get_data_root_folder (fc (conf n)) = Inr folder"
  shows "run_node_task e (StartBlockchainTask gi) n = Inr
    (if fmlookup (group_blockchains n) (alias_of gi) \<noteq> None then n
     else push_node_task (InitGroupBlockchain (alias_of gi)) 0
       (n\<lparr>group_blockchains := fmupd (alias_of gi) (chain_new (stored_group e (alias_of gi)) GroupLedger_new)
            (group_blockchains n)\<rparr>))"
  using assms
  by (simp add: run_node_task_def create_group_blockchain_def c_str_def alias_of_def Let_def std_insert_absent)

text \<open>
  Starting a list of groups attaches each alias once: an alias that is there already keeps its
  blockchain, and every new one gets the blockchain of its directory and the task that initialises it.
\<close>

lemma start_tasks:
  assumes "\<forall>gi \<in> set gs. 0 \<in> set (gi_alias gi)" "get_data_root_folder (fc (conf n)) = Inr folder"
    and "distinct (map alias_of gs)"
  shows "\<exists>n1. run_node_tasks e (map StartBlockchainTask gs) n = Inr n1 \<and> conf n1 = conf n \<and>
    (\<forall>a. fmlookup (group_blockchains n1) a =
       (if fmlookup (group_blockchains n) a = None \<and> a \<in> set (map alias_of gs)
        then Some (chain_new (stored_group e a) GroupLedger_new) else fmlookup (group_blockchains n) a)) \<and>
    pushed_tasks n1 = pushed_tasks n @ map (\<lambda>a. (InitGroupBlockchain a, 0))
      (filter (\<lambda>a. fmlookup (group_blockchains n) a = None) (map alias_of gs))"
  using assms
proof (induction gs arbitrary: n)
  case (Cons gi gs)
  define n0 where "n0 = (if fmlookup (group_blockchains n) (alias_of gi) \<noteq> None then n
     else push_node_task (InitGroupBlockchain (alias_of gi)) 0
       (n\<lparr>group_blockchains := fmupd (alias_of gi) (chain_new (stored_group e (alias_of gi)) GroupLedger_new)
            (group_blockchains n)\<rparr>))"
  have step: "run_node_task e (StartBlockchainTask gi) n = Inr n0"
    using start_task [of gi n folder e] Cons.prems by (simp add: n0_def)
  have "conf n0 = conf n"
    by (simp add: n0_def)
  then obtain n1 where n1: "run_node_tasks e (map StartBlockchainTask gs) n0 = Inr n1" "conf n1 = conf n"
      "\<And>a. fmlookup (group_blockchains n1) a =
         (if fmlookup (group_blockchains n0) a = None \<and> a \<in> set (map alias_of gs)
          then Some (chain_new (stored_group e a) GroupLedger_new) else fmlookup (group_blockchains n0) a)"
      "pushed_tasks n1 = pushed_tasks n0 @ map (\<lambda>a. (InitGroupBlockchain a, 0))
        (filter (\<lambda>a. fmlookup (group_blockchains n0) a = None) (map alias_of gs))"
    using Cons.IH [of n0] Cons.prems by auto
  have same: "fmlookup (group_blockchains n0) a = fmlookup (group_blockchains n) a" if "a \<noteq> alias_of gi" for a
    using that by (simp add: n0_def)
  have "filter (\<lambda>a. fmlookup (group_blockchains n0) a = None) (map alias_of gs)
      = filter (\<lambda>a. fmlookup (group_blockchains n) a = None) (map alias_of gs)"
  proof (rule filter_cong [OF refl])
    fix a
    assume "a \<in> set (map alias_of gs)"
    then have "a \<noteq> alias_of gi"
      using Cons.prems(3) by (auto simp: image_iff)
    then show "(fmlookup (group_blockchains n0) a = None) = (fmlookup (group_blockchains n) a = None)"
      by (simp add: same)
  qed
  moreover have "fmlookup (group_blockchains n1) a =
       (if fmlookup (group_blockchains n) a = None \<and> a \<in> set (map alias_of (gi # gs))
        then Some (chain_new (stored_group e a) GroupLedger_new) else fmlookup (group_blockchains n) a)" for a
    using n1(3) [of a] same [of a] by (cases "a = alias_of gi") (auto simp: n0_def)
  ultimately show ?case
    using step n1 by (intro exI [of _ n1]) (auto simp: n0_def)
qed simp

lemma listable_terminated:
  assumes "listable gi"
  shows "0 \<in> set (gi_alias gi)"
  using assms unfolding listable_def Let_def GROUP_ALIAS_LENGTH_def
  by (elim conjE) (erule ssubst [of "gi_alias gi"], simp)

text \<open>
  C7. Groups survive a restart of the node. Groups with distinct aliases of 1 to 14 letters, digits and
  underscores and with topic numbers that are not negative are added to a configuration whose data folder
  holds no directories. A node that starts anew reads them back from the names of the directories, in
  whatever order the file system lists these, and once the group register is ready its tasks attach
  exactly these groups, each once and with the blockchain stored in its directory.
\<close>

theorem groups_attached_after_restart:
  assumes "splits_directory_names split" "\<forall>gi \<in> set gs. listable gi" "distinct (map alias_of gs)"
    and "get_data_root_folder (fc c) = Inr folder" "directories c = []"
  shows "\<exists>c1. add_blockchains gs c = Inr c1 \<and>
    (\<forall>ds. mset ds = mset (directories c1) \<longrightarrow> (\<exists>c2 n1.
       reload_group_infos split (c1\<lparr>gis := [], directories := ds\<rparr>) = Inr c2 \<and> mset (gis c2) = mset gs \<and>
       run_node_tasks e (map fst (pushed_tasks (continue_init_after_group_register_done (GradidoNode_new c2))))
         (GradidoNode_new c2) = Inr n1 \<and>
       (\<forall>a. node_group_blockchain a n1 =
          (if a \<in> alias_of ` set gs then Some (chain_new (stored_group e a) GroupLedger_new) else None)) \<and>
       pushed_tasks n1 = map (\<lambda>gi. (InitGroupBlockchain (alias_of gi), 0)) (gis c2)))"
proof -
  have dist: "distinct gs"
    using assms(3) by (simp add: distinct_map)
  obtain c1 where c1: "add_blockchains gs c = Inr c1"
      "\<And>ds. mset ds = mset (directories c1) \<Longrightarrow> \<exists>c2. reload_group_infos split (c1\<lparr>gis := [], directories := ds\<rparr>) = Inr c2 \<and>
         mset (gis c2) = mset gs \<and> fc c2 = fc c"
    by (rule groups_read_back [OF assms(1,2) dist assms(4,5)]) (rule that)
  show ?thesis
  proof (rule exI [of _ c1], intro conjI allI impI c1(1))
    fix ds
    assume "mset ds = mset (directories c1)"
    then obtain c2 where c2: "reload_group_infos split (c1\<lparr>gis := [], directories := ds\<rparr>) = Inr c2"
        "mset (gis c2) = mset gs" "fc c2 = fc c"
      using c1(2) by blast
    have same: "set (gis c2) = set gs"
      using c2(2) by (rule mset_eq_setD)
    have "mset (map alias_of (gis c2)) = mset (map alias_of gs)"
      using c2(2) by simp
    then have aliases: "distinct (map alias_of (gis c2))"
      using assms(3) mset_eq_imp_distinct_iff by blast
    have terminated: "\<forall>gi \<in> set (gis c2). 0 \<in> set (gi_alias gi)"
      using assms(2) same listable_terminated by blast
    have tasks: "map fst (pushed_tasks (continue_init_after_group_register_done (GradidoNode_new c2)))
        = map StartBlockchainTask (gis c2)"
      by (simp add: continue_init_after_group_register_done_def fold_push_node_task GradidoNode_new_def)
    obtain n1 where "run_node_tasks e (map StartBlockchainTask (gis c2)) (GradidoNode_new c2) = Inr n1"
        "\<And>a. fmlookup (group_blockchains n1) a =
           (if a \<in> set (map alias_of (gis c2)) then Some (chain_new (stored_group e a) GroupLedger_new) else None)"
        "pushed_tasks n1 = map (\<lambda>a. (InitGroupBlockchain a, 0)) (map alias_of (gis c2))"
      using start_tasks [OF terminated _ aliases, of "GradidoNode_new c2" folder e] c2(3) assms(4)
      by (auto simp: GradidoNode_new_def)
    then show "\<exists>c2 n1. reload_group_infos split (c1\<lparr>gis := [], directories := ds\<rparr>) = Inr c2 \<and> mset (gis c2) = mset gs \<and>
       run_node_tasks e (map fst (pushed_tasks (continue_init_after_group_register_done (GradidoNode_new c2))))
         (GradidoNode_new c2) = Inr n1 \<and>
       (\<forall>a. node_group_blockchain a n1 =
          (if a \<in> alias_of ` set gs then Some (chain_new (stored_group e a) GroupLedger_new) else None)) \<and>
       pushed_tasks n1 = map (\<lambda>gi. (InitGroupBlockchain (alias_of gi), 0)) (gis c2)"
      using c2 tasks same by (intro exI [of _ c2] exI [of _ n1]) (simp add: node_group_blockchain_def)
  qed
qed


definition plain_env :: "GradidoRecord Blockchain \<Rightarrow> node_env" where
  "plain_env s =
     \<lparr>random_next = (\<lambda>_. 0), stored_group = (\<lambda>_. s), clock = 0,
      group_methods = (\<lambda>gf. group_child exact_env gf id (\<lambda>_. []) (\<lambda>_. BLANK) 0 10 False),
      register_methods = plain_register\<rparr>"

theorem groups_attached_after_restart_witness:
  "\<exists>s c1 c2 n1. add_blockchains two_groups blank_config = Inr c1 \<and>
    reload_group_infos split_name (c1\<lparr>gis := [], directories := rev (directories c1)\<rparr>) = Inr c2 \<and>
    run_node_tasks (plain_env s) (map fst (pushed_tasks (continue_init_after_group_register_done (GradidoNode_new c2))))
      (GradidoNode_new c2) = Inr n1 \<and>
    (\<forall>a. node_group_blockchain a n1 =
       (if a \<in> alias_of ` set two_groups then Some (chain_new (stored_group (plain_env s) a) GroupLedger_new) else None))"
proof -
  obtain s :: "GradidoRecord Blockchain" where "stores GRADIDO_BLOCK_SIZE s []"
    by (rule blank_group_store)
  have "distinct (map alias_of two_groups)"
    by code_simp
  moreover have "get_data_root_folder (fc blank_config) = Inr []" "directories blank_config = []"
    by (simp_all add: blank_config_def get_data_root_folder_def get_string_def)
  ultimately obtain c1 where c1: "add_blockchains two_groups blank_config = Inr c1"
    "\<forall>ds. mset ds = mset (directories c1) \<longrightarrow> (\<exists>c2 n1.
       reload_group_infos split_name (c1\<lparr>gis := [], directories := ds\<rparr>) = Inr c2 \<and> mset (gis c2) = mset two_groups \<and>
       run_node_tasks (plain_env s) (map fst (pushed_tasks (continue_init_after_group_register_done (GradidoNode_new c2))))
         (GradidoNode_new c2) = Inr n1 \<and>
       (\<forall>a. node_group_blockchain a n1 =
          (if a \<in> alias_of ` set two_groups then Some (chain_new (stored_group (plain_env s) a) GroupLedger_new) else None)) \<and>
       pushed_tasks n1 = map (\<lambda>gi. (InitGroupBlockchain (alias_of gi), 0)) (gis c2))"
    using groups_attached_after_restart [OF split_name_splits two_groups_listable(1)] by blast
  have "mset (rev (directories c1)) = mset (directories c1)"
    by simp
  then show ?thesis
    using c1 by blast
qed


section \<open>Cross-group transfers within a node\<close>

lemma put_user_outbound [simp]: "outbound_transactions (put_user u ui L) = outbound_transactions L"
  by (simp add: put_user_def)

lemma outbound_indexed:
  assumes "body tr = outbound_transfer ot" "\<not> waiting_for_paired L"
    and "fmlookup (outbound_transactions L) (paired_transaction_id ot) = None"
    and "calc_fields_and_update_indexes_for env gf n tr L = Inr (True, tr', L')"
  shows "get_paired_transaction (paired_transaction_id ot) L' = Some (n - 1)"
  using assms
  by (auto simp: calc_fields_and_update_indexes_for_def calc_outbound_transfer_def get_paired_transaction_def
      end_iterator_def reject_def Let_def bind_res_Inr_iff split: option.splits if_splits)

lemma get_transaction_last:
  assumes "stores GRADIDO_BLOCK_SIZE s (ps @ [GRADIDO_TRANSACTION tr])" "storage b = s"
    and "length ps mod (GRADIDO_BLOCK_SIZE - 1) \<noteq> 0"
  shows "\<exists>b'. get_transaction now (payload_index GRADIDO_BLOCK_SIZE (length ps)) b = Inr (Some tr, b')"
proof -
  obtain s' where rec: "get_record GRADIDO_BLOCK_SIZE now (payload_index GRADIDO_BLOCK_SIZE (length ps)) s
      = Inr ((Some (PAYLOAD ((ps @ [GRADIDO_TRANSACTION tr]) ! length ps)), OK), s')"
    by (rule get_record_ok [OF assms(1), of "length ps" now]) simp_all
  have "payload_index GRADIDO_BLOCK_SIZE (length ps) < rec_count s"
    using storesD(1,4) [OF assms(1)] by (simp add: block_total_Suc payload_index_def)
  then show ?thesis
    using rec assms(2) by (simp add: get_transaction_def get_transaction_record_def get_rec_count_def)
qed



definition leaving :: OutboundTransfer where
  "leaving = \<lparr>paired_transaction_id = HederaTimestamp 7 0, other_group = [98, 0],
     ot_amount = GradidoValue 4 0, ot_sender = entry_of alice, ot_receiver = bob\<rparr>"

definition leaving_tr :: Transaction where
  "leaving_tr = Transaction_zero\<lparr>body := outbound_transfer leaving, hedera_transaction :=
     HederaTransaction_zero\<lparr>consensusTimestamp := HederaTimestamp 1 0, sequenceNumber := 2\<rparr>\<rparr>"

lemma leaving_accepted:
  "\<exists>tr' LA. calc_fields_and_update_indexes_for exact_env alone k leaving_tr two_users = Inr (True, tr', LA) \<and>
     result tr' = result_code SUCCESS"
proof -
  have ten: "calc_deflation exact_env (timestamp_of_last_balance ten) (now_of leaving_tr) (current_balance ten)
      = GradidoValue 10 0"
    using deflated_ten [of leaving_tr] by (simp only: deflated_def)
  have "gv_minus (GradidoValue 10 0) (GradidoValue 4 0) = Inr (GradidoValue 6 0)"
    by (simp add: gv_minus_def gv_less_def)
  then show ?thesis
    using ten
    by (simp add: calc_fields_and_update_indexes_for_def calc_outbound_transfer_def leaving_tr_def Let_def
        leaving_def entry_of_def gv_less_def)
qed


end
