(* ===== verification/Remote_Calls.thy ===== *)
theory Remote_Calls
  imports Gradido_Prelude
begin

text \<open>
  \<open>src/communications.cpp\<close> and \<open>src/communications.h\<close>: serving a remote call and receiving the answers
  to one. The calls are those of a gRPC service whose answer is a stream of messages. gRPC is not
  modelled; what the code observes of it is: a request or a write that was handed to gRPC comes back
  once through the completion queue (\<open>outstanding\<close>), and the reader of a stream is given the messages in
  the order of writing, then a failed read. The handlers (\<open>ITask\<close> objects of \<open>src/gradido_events.h\<close>) are
  the argument of the functions below.
\<close>

section \<open>Serving a call\<close>

datatype CallStatus = CREATE | PROCESS | FINISH

text \<open>
  \<open>AbstractCallData\<close> with the reply of \<open>TemplatedCallData\<close>. The last five fields record what was handed
  to gRPC and to the heap: whether an event of the call will come out of the completion queue, how
  often the call was registered anew, the messages written, whether the last write closed the stream,
  and whether the object was deleted. \<open>writes_done\<close> has 64 bits; a call does not get that far.
\<close>

record ('ctx, 'rep) CallData =
  call_status :: CallStatus
  first_call :: bool
  call_done :: bool
  handler_ctx :: "'ctx option"
  writes_done :: nat
  reply :: 'rep
  outstanding :: bool
  clones :: nat
  written :: "'rep list"
  stream_closed :: bool
  deleted :: bool

text \<open>
  A handler: its constructor, which may fill in the context of the call, and its \<open>run\<close>, which is given
  the number of writes done and the reply object of the call, and ends with \<open>write_ready\<close>. The state
  \<open>'s\<close> is that of the node.
\<close>

record ('s, 'ctx, 'rep) handler =
  handler_new :: "'s \<Rightarrow> 'ctx option \<Rightarrow> ('s \<times> 'ctx option) res"
  handler_run :: "'s \<Rightarrow> 'ctx option \<Rightarrow> nat \<Rightarrow> 'rep \<Rightarrow> ('s \<times> 'ctx option \<times> 'rep) res"
  reply_ok :: "'rep \<Rightarrow> bool"

text \<open>The first two lines of \<open>proceed\<close>: the request is registered with the completion queue.\<close>

definition finish_create :: "('ctx, 'rep) CallData \<Rightarrow> ('ctx, 'rep) CallData" where
  "finish_create cd = cd\<lparr>outstanding := True\<rparr>"

text \<open>\<open>hf\<close> is what the handler factory of the node returns for the method: a null pointer is \<open>None\<close>.\<close>

definition do_process ::
  "('s, 'ctx, 'rep) handler option \<Rightarrow> 's \<Rightarrow> ('ctx, 'rep) CallData \<Rightarrow> (bool \<times> 's \<times> ('ctx, 'rep) CallData) res"
where
  "do_process hf s cd =
     (if call_done cd then Inr (False, s, cd)
      else case hf of
        None \<Rightarrow> Inr (False, s, cd)
      | Some h \<Rightarrow> bind_res (handler_new h s (handler_ctx cd)) (\<lambda>(s1, c). Inr (True, s1, cd\<lparr>handler_ctx := c\<rparr>)))"

text \<open>The first component tells whether a handler was pushed to the worker pool.\<close>

definition proceed ::
  "('s, 'ctx, 'rep) handler option \<Rightarrow> 's \<Rightarrow> ('ctx, 'rep) CallData \<Rightarrow> (bool \<times> 's \<times> ('ctx, 'rep) CallData) res"
where
  "proceed hf s cd =
     (case call_status cd of
        CREATE \<Rightarrow> Inr (False, s, finish_create (cd\<lparr>call_status := PROCESS\<rparr>))
      | PROCESS \<Rightarrow>
          (let cd1 = (if first_call cd then cd\<lparr>first_call := False, clones := clones cd + 1\<rparr> else cd)
           in bind_res (do_process hf s cd1) (\<lambda>(pushed, s1, cd2).
                Inr (pushed, s1, if pushed then cd2 else cd2\<lparr>call_status := FINISH\<rparr>)))
      | FINISH \<Rightarrow> Inr (False, s, cd\<lparr>deleted := True\<rparr>))"

definition AbstractCallData_new :: "'rep \<Rightarrow> ('ctx, 'rep) CallData" where
  "AbstractCallData_new r =
     \<lparr>call_status = CREATE, first_call = True, call_done = False, handler_ctx = None, writes_done = 0,
      reply = r, outstanding = False, clones = 0, written = [], stream_closed = False, deleted = False\<rparr>"

text \<open>The constructor of a concrete call ends with \<open>proceed\<close>, which registers the request.\<close>

definition CallData_new :: "'rep \<Rightarrow> ('ctx, 'rep) CallData" where
  "CallData_new r = finish_create ((AbstractCallData_new r)\<lparr>call_status := PROCESS\<rparr>)"

definition write_ready :: "('rep \<Rightarrow> bool) \<Rightarrow> ('ctx, 'rep) CallData \<Rightarrow> ('ctx, 'rep) CallData" where
  "write_ready good cd =
     (let cd1 = cd\<lparr>writes_done := writes_done cd + 1, written := written cd @ [reply cd], outstanding := True\<rparr>
      in if \<not> good (reply cd) then cd1\<lparr>stream_closed := True, call_done := True\<rparr> else cd1)"

definition run_handler ::
  "('s, 'ctx, 'rep) handler \<Rightarrow> 's \<Rightarrow> ('ctx, 'rep) CallData \<Rightarrow> ('s \<times> ('ctx, 'rep) CallData) res" where
  "run_handler h s cd =
     bind_res (handler_run h s (handler_ctx cd) (writes_done cd) (reply cd)) (\<lambda>(s1, c, r).
       Inr (s1, write_ready (reply_ok h) (cd\<lparr>handler_ctx := c, reply := r\<rparr>)))"

text \<open>
  The life of a call: \<open>RpcsService::run\<close> takes its events out of the completion queue and calls
  \<open>proceed\<close>; a pushed handler is run by the worker pool and writes. The call is over when none of its
  events is to come; whether this happens depends on the handler.
\<close>

partial_function (option) serve ::
  "('s, 'ctx, 'rep) handler option \<Rightarrow> 's \<Rightarrow> ('ctx, 'rep) CallData \<Rightarrow> ('s \<times> ('ctx, 'rep) CallData) res option"
where
  "serve hf s cd =
     (if \<not> outstanding cd then Some (Inr (s, cd))
      else case proceed hf s (cd\<lparr>outstanding := False\<rparr>) of
        Inl e \<Rightarrow> Some (Inl e)
      | Inr (pushed, s1, cd1) \<Rightarrow>
          (if \<not> pushed then serve hf s1 cd1
           else case run_handler (the hf) s1 cd1 of
             Inl e \<Rightarrow> Some (Inl e)
           | Inr (s2, cd2) \<Rightarrow> serve hf s2 cd2))"


section \<open>Receiving the answers\<close>

text \<open>
  \<open>BlockSubscriber\<close>, \<open>BlockChecksumSubscriber\<close>, \<open>OutboundSubscriber\<close> and \<open>TransactionSubscriber\<close> differ in
  the type of the message only; \<open>delivered\<close> lists the messages given to the receiver.
\<close>

record 'rep Subscriber =
  sub_done :: bool
  first_message :: bool
  delivered :: "'rep list"

definition Subscriber_new :: "'rep Subscriber" where
  "Subscriber_new = \<lparr>sub_done = False, first_message = True, delivered = []\<rparr>"

text \<open>\<open>got_data\<close>, given the message in the buffer of the subscriber, and whether the subscriber stays.\<close>

definition got_data :: "('rep \<Rightarrow> bool) \<Rightarrow> 'rep \<Rightarrow> 'rep Subscriber \<Rightarrow> bool \<times> 'rep Subscriber" where
  "got_data good br x =
     (if sub_done x then (False, x)
      else (True, if first_message x then x\<lparr>first_message := False\<rparr>
                  else let x1 = x\<lparr>delivered := delivered x @ [br]\<rparr>
                       in if \<not> good br then x1\<lparr>sub_done := True\<rparr> else x1))"

text \<open>The subscriber of a topic is never done.\<close>

definition topic_got_data :: "'rep \<Rightarrow> 'rep Subscriber \<Rightarrow> bool \<times> 'rep Subscriber" where
  "topic_got_data ctr x =
     (True, if first_message x then x\<lparr>first_message := False\<rparr> else x\<lparr>delivered := delivered x @ [ctr]\<rparr>)"

record 'rep PollService =
  clients :: "(nat \<times> 'rep Subscriber) list"
  ps_shutdown :: bool

definition PollService_new :: "'rep PollService" where
  "PollService_new = \<lparr>clients = [], ps_shutdown = False\<rparr>"

definition add_client :: "nat \<Rightarrow> 'rep Subscriber \<Rightarrow> 'rep PollService \<Rightarrow> 'rep PollService" where
  "add_client pc x ps = ps\<lparr>clients := clients ps @ [(pc, x)]\<rparr>"

text \<open>
  One round of \<open>PollService::run\<close> for the event of client \<open>pc\<close>: a client that is done is removed. The
  tag of a client that is no longer there is a dangling pointer.
\<close>

definition poll_round ::
  "('rep \<Rightarrow> bool) \<Rightarrow> nat \<Rightarrow> bool \<times> 'rep \<Rightarrow> 'rep PollService \<Rightarrow> 'rep PollService res" where
  "poll_round good pc ev ps =
     (if ps_shutdown ps \<or> \<not> fst ev then Inr ps
      else case map_of (clients ps) pc of
        None \<Rightarrow> Inl (Undefined ''deleted client'')
      | Some x \<Rightarrow>
          (case got_data good (snd ev) x of
             (stays, x1) \<Rightarrow>
               Inr (ps\<lparr>clients := (if stays then map (\<lambda>(i, y). (i, if i = pc then x1 else y)) (clients ps)
                                  else filter (\<lambda>(i, _). i \<noteq> pc) (clients ps))\<rparr>)))"

fun poll_run ::
  "('rep \<Rightarrow> bool) \<Rightarrow> nat \<Rightarrow> (bool \<times> 'rep) list \<Rightarrow> 'rep PollService \<Rightarrow> 'rep PollService res" where
  "poll_run good pc [] ps = Inr ps"
| "poll_run good pc (ev # evs) ps = bind_res (poll_round good pc ev ps) (poll_run good pc evs)"

text \<open>
  The events of a subscriber whose server writes \<open>ms\<close>: the start of the call, one read for each message,
  and the read that fails because the stream is closed. \<open>r\<close> is the message buffer before the first read.
\<close>

definition stream_events :: "'rep \<Rightarrow> 'rep list \<Rightarrow> (bool \<times> 'rep) list" where
  "stream_events r ms = (True, r) # map (Pair True) ms @ [(False, r)]"

text \<open>The service for the next client: \<open>services\<close> is the number of services, \<open>counter\<close> the member.\<close>

definition get_poll_service :: "nat \<Rightarrow> nat \<Rightarrow> (nat \<times> nat) res" where
  "get_poll_service services counter =
     (if services = 0 then Inl (Undefined ''modulo zero'')
      else if services \<le> counter then Inl (Undefined ''poll service out of range'')
      else Inr (counter, (counter + 1) mod services))"


section \<open>What a call sends\<close>

definition handler_step ::
  "('s, 'ctx, 'rep) handler \<Rightarrow> 's \<Rightarrow> 'ctx option \<Rightarrow> nat \<Rightarrow> 'rep \<Rightarrow> ('s \<times> 'ctx option \<times> 'rep) res" where
  "handler_step h s c k r = bind_res (handler_new h s c) (\<lambda>(s1, c1). handler_run h s1 c1 k r)"

lemma serve_over: "\<not> outstanding cd \<Longrightarrow> serve hf s cd = Some (Inr (s, cd))"
  by (simp add: serve.simps)

lemma serve_closing:
  assumes "call_status cd = PROCESS" "outstanding cd" "call_done cd"
  shows "\<exists>cd'. serve hf s cd = Some (Inr (s, cd')) \<and> call_status cd' = FINISH \<and> \<not> outstanding cd' \<and>
           written cd' = written cd \<and> stream_closed cd' = stream_closed cd \<and> deleted cd' = deleted cd \<and>
           clones cd' = clones cd + (if first_call cd then 1 else 0)"
  using assms by (subst serve.simps) (simp add: proceed_def do_process_def serve_over)

text \<open>One round of a call that is being served: the handler runs and its reply is written.\<close>

lemma serve_round:
  assumes "call_status cd = PROCESS" "outstanding cd" "\<not> call_done cd"
    and "handler_step h s (handler_ctx cd) (writes_done cd) (reply cd) = Inr (s', c', r')"
  obtains cd' where "serve (Some h) s cd = serve (Some h) s' cd'"
    "call_status cd' = PROCESS" "outstanding cd'" "call_done cd' = (\<not> reply_ok h r')"
    "handler_ctx cd' = c'" "writes_done cd' = writes_done cd + 1" "reply cd' = r'"
    "written cd' = written cd @ [r']" "stream_closed cd' = (stream_closed cd \<or> \<not> reply_ok h r')"
    "deleted cd' = deleted cd" "clones cd' = clones cd + (if first_call cd then 1 else 0)" "\<not> first_call cd'"
proof -
  obtain s1 c1 where new: "handler_new h s (handler_ctx cd) = Inr (s1, c1)"
      "handler_run h s1 c1 (writes_done cd) (reply cd) = Inr (s', c', r')"
    using assms(4) by (auto simp: handler_step_def bind_res_Inr_iff)
  define cd1 where "cd1 = (if first_call cd then cd\<lparr>outstanding := False, first_call := False, clones := clones cd + 1\<rparr>
    else cd\<lparr>outstanding := False\<rparr>)"
  define cd' where "cd' = write_ready (reply_ok h) (cd1\<lparr>handler_ctx := c', reply := r'\<rparr>)"
  have "proceed (Some h) s (cd\<lparr>outstanding := False\<rparr>) = Inr (True, s1, cd1\<lparr>handler_ctx := c1\<rparr>)"
    using assms(1,3) new(1) by (simp add: proceed_def do_process_def cd1_def Let_def)
  moreover have "run_handler h s1 (cd1\<lparr>handler_ctx := c1\<rparr>) = Inr (s', cd')"
    using new(2) by (simp add: run_handler_def cd1_def cd'_def)
  ultimately have "serve (Some h) s cd = serve (Some h) s' cd'"
    using assms(2) by (subst serve.simps) simp
  then show thesis
    by (rule that) (use assms in \<open>simp_all add: cd'_def cd1_def write_ready_def Let_def\<close>)
qed

lemma serve_failing:
  assumes "call_status cd = PROCESS" "outstanding cd" "\<not> call_done cd"
    and "handler_step h s (handler_ctx cd) (writes_done cd) (reply cd) = Inl e"
  shows "serve (Some h) s cd = Some (Inl e)"
proof (cases "handler_new h s (handler_ctx cd)")
  case (Inl e')
  then show ?thesis
    using assms by (subst serve.simps) (simp add: proceed_def do_process_def handler_step_def Let_def)
next
  case (Inr z)
  obtain s1 c1 where "z = (s1, c1)"
    by (cases z)
  then show ?thesis
    using assms Inr
    by (subst serve.simps) (auto simp: proceed_def do_process_def handler_step_def run_handler_def Let_def)
qed

text \<open>
  The contract of a handler that streams data: as long as there is data left, a run replies with the
  next item; when there is none, it ends the stream. Every call of such a handler ends, and its
  receiver is given the data and one message that ends the stream.
\<close>

locale data_stream =
  fixes h :: "('s, 'ctx, 'rep) handler"
    and rest :: "'s \<Rightarrow> 'ctx option \<Rightarrow> nat \<Rightarrow> 'd list"
    and payload :: "'rep \<Rightarrow> 'd"
    and inv :: "'s \<Rightarrow> 'ctx option \<Rightarrow> nat \<Rightarrow> bool"
  assumes at_end: "\<And>s c k r. inv s c k \<Longrightarrow> rest s c k = [] \<Longrightarrow>
      \<exists>s' c' r'. handler_step h s c k r = Inr (s', c', r') \<and> \<not> reply_ok h r'"
    and item: "\<And>s c k r d ds. inv s c k \<Longrightarrow> rest s c k = d # ds \<Longrightarrow>
      \<exists>s' c' r'. handler_step h s c k r = Inr (s', c', r') \<and> reply_ok h r' \<and> payload r' = d \<and>
        inv s' c' (k + 1) \<and> rest s' c' (k + 1) = ds"
begin

lemma serving:
  assumes "inv s (handler_ctx cd) (writes_done cd)" "rest s (handler_ctx cd) (writes_done cd) = ds"
    and "call_status cd = PROCESS" "outstanding cd" "\<not> call_done cd"
  shows "\<exists>s' cd' rs r. serve (Some h) s cd = Some (Inr (s', cd')) \<and> written cd' = written cd @ rs @ [r] \<and>
    map payload rs = ds \<and> (\<forall>x \<in> set rs. reply_ok h x) \<and> \<not> reply_ok h r \<and> stream_closed cd' \<and>
    call_status cd' = FINISH \<and> clones cd' = clones cd + (if first_call cd then 1 else 0)"
  using assms
proof (induction ds arbitrary: s cd)
  case Nil
  obtain s' c' r' where step: "handler_step h s (handler_ctx cd) (writes_done cd) (reply cd) = Inr (s', c', r')"
      "\<not> reply_ok h r'"
    using at_end [OF Nil(1,2)] by blast
  obtain cd1 where cd1: "serve (Some h) s cd = serve (Some h) s' cd1" "call_status cd1 = PROCESS"
      "outstanding cd1" "call_done cd1 = (\<not> reply_ok h r')" "written cd1 = written cd @ [r']"
      "stream_closed cd1 = (stream_closed cd \<or> \<not> reply_ok h r')" "\<not> first_call cd1"
      "clones cd1 = clones cd + (if first_call cd then 1 else 0)"
    by (rule serve_round [OF Nil(3-5) step(1)]) (rule that)
  then obtain cd' where "serve (Some h) s' cd1 = Some (Inr (s', cd'))" "call_status cd' = FINISH"
      "written cd' = written cd @ [r']" "stream_closed cd'" "clones cd' = clones cd1"
    using serve_closing [of cd1 "Some h" s'] step(2) by auto
  then show ?case
    using cd1 step(2) by (intro exI [of _ s'] exI [of _ cd'] exI [of _ "[]"] exI [of _ r']) simp
next
  case (Cons d ds)
  obtain s' c' r' where step: "handler_step h s (handler_ctx cd) (writes_done cd) (reply cd) = Inr (s', c', r')"
      "reply_ok h r'" "payload r' = d" "inv s' c' (writes_done cd + 1)" "rest s' c' (writes_done cd + 1) = ds"
    using item [OF Cons.prems(1,2)] by blast
  obtain cd1 where cd1: "serve (Some h) s cd = serve (Some h) s' cd1" "call_status cd1 = PROCESS"
      "outstanding cd1" "call_done cd1 = (\<not> reply_ok h r')" "handler_ctx cd1 = c'"
      "writes_done cd1 = writes_done cd + 1" "written cd1 = written cd @ [r']" "\<not> first_call cd1"
      "clones cd1 = clones cd + (if first_call cd then 1 else 0)"
    by (rule serve_round [OF Cons.prems(3-5) step(1)]) (rule that)
  then obtain s2 cd' rs r where rec: "serve (Some h) s' cd1 = Some (Inr (s2, cd'))"
      "written cd' = written cd1 @ rs @ [r]" "map payload rs = ds" "\<forall>x \<in> set rs. reply_ok h x"
      "\<not> reply_ok h r" "stream_closed cd'" "call_status cd' = FINISH" "clones cd' = clones cd1"
    using Cons.IH [of s' cd1] step by auto
  show ?case
    using cd1 rec step(2,3)
    by (intro exI [of _ s2] exI [of _ cd'] exI [of _ "r' # rs"] exI [of _ r]) simp
qed

lemma call_served:
  assumes "inv s None 0"
  shows "\<exists>s' cd rs r. serve (Some h) s (CallData_new r0) = Some (Inr (s', cd)) \<and> written cd = rs @ [r] \<and>
    map payload rs = rest s None 0 \<and> (\<forall>x \<in> set rs. reply_ok h x) \<and> \<not> reply_ok h r \<and> stream_closed cd \<and>
    call_status cd = FINISH \<and> clones cd = 1"
  using serving [of s "CallData_new r0"] assms
  by (simp add: CallData_new_def finish_create_def AbstractCallData_new_def)

end


text \<open>
  A weaker contract is enough for a call to end: each message but the first leaves less to send. Nothing
  is assumed about what the handler does otherwise, it may also fail.
\<close>

locale bounded_stream =
  fixes h :: "('s, 'ctx, 'rep) handler"
    and inv :: "'ctx option \<Rightarrow> nat \<Rightarrow> bool"
    and left :: "'ctx option \<Rightarrow> nat \<Rightarrow> nat"
  assumes first: "\<And>s r s' c' r'. handler_step h s None 0 r = Inr (s', c', r') \<Longrightarrow> reply_ok h r' \<Longrightarrow> inv c' 1"
    and again: "\<And>s c k r s' c' r'. inv c k \<Longrightarrow> handler_step h s c k r = Inr (s', c', r') \<Longrightarrow> reply_ok h r' \<Longrightarrow>
      inv c' (k + 1) \<and> left c' (k + 1) < left c k"
begin

lemma round_ends:
  assumes "call_status cd = PROCESS" "outstanding cd" "\<not> call_done cd"
    and "\<And>s' c' r' cd'. handler_step h s (handler_ctx cd) (writes_done cd) (reply cd) = Inr (s', c', r') \<Longrightarrow>
      reply_ok h r' \<Longrightarrow> call_status cd' = PROCESS \<Longrightarrow> outstanding cd' \<Longrightarrow> \<not> call_done cd' \<Longrightarrow>
      handler_ctx cd' = c' \<Longrightarrow> writes_done cd' = writes_done cd + 1 \<Longrightarrow> \<exists>y. serve (Some h) s' cd' = Some y"
  shows "\<exists>y. serve (Some h) s cd = Some y"
proof (cases "handler_step h s (handler_ctx cd) (writes_done cd) (reply cd)")
  case (Inl e)
  then show ?thesis
    using serve_failing [OF assms(1-3) Inl] by blast
next
  case (Inr z)
  obtain s' c' r' where z: "z = (s', c', r')"
    by (cases z)
  obtain cd1 where cd1: "serve (Some h) s cd = serve (Some h) s' cd1" "call_status cd1 = PROCESS"
      "outstanding cd1" "call_done cd1 = (\<not> reply_ok h r')" "handler_ctx cd1 = c'"
      "writes_done cd1 = writes_done cd + 1"
    by (rule serve_round [OF assms(1-3) Inr [unfolded z]]) (rule that)
  then show ?thesis
    using assms(4) [of s' c' r' cd1] serve_closing [of cd1 "Some h" s'] Inr z by (cases "reply_ok h r'") auto
qed

lemma later_rounds_end:
  assumes "inv (handler_ctx cd) (writes_done cd)" "call_status cd = PROCESS" "outstanding cd" "\<not> call_done cd"
  shows "\<exists>y. serve (Some h) s cd = Some y"
  using assms
proof (induction "left (handler_ctx cd) (writes_done cd)" arbitrary: s cd rule: less_induct)
  case less
  show ?case
  proof (rule round_ends [OF less.prems(2-4)], goal_cases)
    case (1 s' c' r' cd')
    then show ?case
      using less.hyps [of cd' s'] again [OF less.prems(1) 1(1,2)] by simp
  qed
qed

lemma call_ends: "\<exists>y. serve (Some h) s (CallData_new r0) = Some y"
proof -
  define cd where "cd = (CallData_new r0 :: ('ctx, 'rep) CallData)"
  have cd: "call_status cd = PROCESS" "outstanding cd" "\<not> call_done cd" "handler_ctx cd = None" "writes_done cd = 0"
    by (simp_all add: cd_def CallData_new_def finish_create_def AbstractCallData_new_def)
  have "\<exists>y. serve (Some h) s cd = Some y"
    by (rule round_ends [OF cd(1-3)], rule later_rounds_end) (use first cd in auto)
  then show ?thesis
    by (simp add: cd_def)
qed

end


section \<open>What the receiver is given\<close>

lemma poll_round_stays:
  assumes "\<not> ps_shutdown ps" "clients ps = cs @ [(pc, x)]" "pc \<notin> fst ` set cs" "\<not> sub_done x"
  shows "poll_round good pc (True, br) ps = Inr (ps\<lparr>clients := cs @ [(pc, snd (got_data good br x))]\<rparr>)"
proof -
  have "map_of (clients ps) pc = Some x"
    using assms(2,3) by (auto simp: map_add_def split: option.splits dest: map_of_SomeD intro: rev_image_eqI)
  moreover have "map (\<lambda>(i, y). (i, if i = pc then z else y)) cs = cs" for z :: "'a Subscriber"
    using assms(3) by (intro map_idI) (force split: prod.splits)
  ultimately show ?thesis
    using assms by (simp add: poll_round_def got_data_def)
qed

lemma poll_run_append:
  "poll_run good pc (xs @ ys) ps = bind_res (poll_run good pc xs ps) (poll_run good pc ys)"
proof (induction xs arbitrary: ps)
  case (Cons x xs)
  then show ?case
    by (cases "poll_round good pc x ps") simp_all
qed simp

lemma poll_run_good:
  assumes "\<not> ps_shutdown ps" "clients ps = cs @ [(pc, x)]" "pc \<notin> fst ` set cs"
    and "\<not> sub_done x" "\<not> first_message x" "\<forall>m \<in> set ms. good m"
  shows "poll_run good pc (map (Pair True) ms) ps
           = Inr (ps\<lparr>clients := cs @ [(pc, x\<lparr>delivered := delivered x @ ms\<rparr>)]\<rparr>)"
  using assms
proof (induction ms arbitrary: ps x)
  case (Cons m ms)
  have step: "got_data good m x = (True, x\<lparr>delivered := delivered x @ [m]\<rparr>)"
    using Cons.prems by (simp add: got_data_def)
  show ?case
    using Cons.prems
    by (simp add: poll_round_stays step
          Cons.IH [of "ps\<lparr>clients := cs @ [(pc, x\<lparr>delivered := delivered x @ [m]\<rparr>)]\<rparr>"
                      "x\<lparr>delivered := delivered x @ [m]\<rparr>"])
qed simp

text \<open>
  A subscriber passes on all messages of a stream, the one that ends it included, and then stays in
  the list of clients: the failed read that follows is ignored by \<open>PollService::run\<close>.
\<close>

lemma stream_delivered:
  assumes "\<not> ps_shutdown ps" "pc \<notin> fst ` set (clients ps)" "\<forall>m \<in> set rs. good m" "\<not> good r"
  shows "poll_run good pc (stream_events r0 (rs @ [r])) (add_client pc Subscriber_new ps)
     = Inr (ps\<lparr>clients := clients ps @
              [(pc, \<lparr>sub_done = True, first_message = False, delivered = rs @ [r]\<rparr>)]\<rparr>)"
proof -
  define x0 :: "'a Subscriber" where "x0 = Subscriber_new\<lparr>first_message := False\<rparr>"
  have x0: "\<not> sub_done x0" "\<not> first_message x0" "delivered x0 = []"
    by (simp_all add: x0_def Subscriber_new_def)
  have start: "poll_round good pc (True, r0) (add_client pc Subscriber_new ps)
      = Inr (ps\<lparr>clients := clients ps @ [(pc, x0)]\<rparr>)"
    using assms(1,2)
    by (subst poll_round_stays [where cs = "clients ps" and x = Subscriber_new])
      (simp_all add: add_client_def Subscriber_new_def got_data_def x0_def)
  have middle: "poll_run good pc (map (Pair True) rs) (ps\<lparr>clients := clients ps @ [(pc, x0)]\<rparr>)
      = Inr (ps\<lparr>clients := clients ps @ [(pc, x0\<lparr>delivered := rs\<rparr>)]\<rparr>)"
    using poll_run_good [of "ps\<lparr>clients := clients ps @ [(pc, x0)]\<rparr>" "clients ps" pc x0 rs good] assms x0
    by simp
  have last: "poll_round good pc (True, r) (ps\<lparr>clients := clients ps @ [(pc, x0\<lparr>delivered := rs\<rparr>)]\<rparr>)
      = Inr (ps\<lparr>clients := clients ps @
              [(pc, \<lparr>sub_done = True, first_message = False, delivered = rs @ [r]\<rparr>)]\<rparr>)"
    using assms x0
    by (subst poll_round_stays [where cs = "clients ps" and x = "x0\<lparr>delivered := rs\<rparr>"])
      (simp_all add: got_data_def x0_def Subscriber_new_def)
  show ?thesis
    using assms(1) by (simp add: stream_events_def poll_run_append start middle last) (simp add: poll_round_def)
qed


section \<open>The end of a call\<close>

text \<open>
  A call is deleted when one of its events arrives in the state \<open>FINISH\<close>, but that state is entered when
  no further event is to come: no call is ever deleted, whatever its handler does.
\<close>

definition kept :: "('ctx, 'rep) CallData \<Rightarrow> ('s \<times> ('ctx, 'rep) CallData) res \<Rightarrow> bool" where
  "kept cd y \<longleftrightarrow>
     (\<forall>s' cd'. y = Inr (s', cd') \<longrightarrow> call_status cd \<noteq> CREATE \<longrightarrow>
        (call_status cd = FINISH \<longrightarrow> \<not> outstanding cd) \<longrightarrow> \<not> deleted cd \<longrightarrow>
        \<not> deleted cd' \<and> \<not> outstanding cd')"

lemma proceed_process:
  assumes "call_status cd = PROCESS" "proceed hf s (cd\<lparr>outstanding := False\<rparr>) = Inr (pushed, s1, cd1)"
  shows "deleted cd1 = deleted cd" "\<not> outstanding cd1" "call_status cd1 = (if pushed then PROCESS else FINISH)"
  using assms
  by (auto simp: proceed_def do_process_def bind_res_Inr_iff Let_def split: if_splits option.splits prod.splits)

lemma run_handler_process:
  "run_handler h s cd = Inr (s1, cd1) \<Longrightarrow> deleted cd1 = deleted cd \<and> call_status cd1 = call_status cd"
  by (auto simp: run_handler_def bind_res_Inr_iff write_ready_def Let_def split: if_splits)

lemma serve_kept:
  assumes "serve hf s cd = Some y"
  shows "kept cd y"
proof (rule serve.raw_induct [where P = "\<lambda>_ _ cd y. kept cd y", OF _ assms], goal_cases)
  case (1 self hf s cd y)
  show ?case
  proof (cases "outstanding cd \<and> call_status cd = PROCESS")
    case False
    then show ?thesis
      using 1(2) by (cases "call_status cd") (auto simp: kept_def)
  next
    case True
    show ?thesis
    proof (cases "proceed hf s (cd\<lparr>outstanding := False\<rparr>)")
      case (Inl e)
      then show ?thesis
        using 1(2) True by (auto simp: kept_def)
    next
      case (Inr z)
      obtain pushed s1 cd1 where z: "z = (pushed, s1, cd1)"
        by (cases z)
      note cd1 = proceed_process [OF conjunct2 [OF True] Inr [unfolded z]]
      show ?thesis
      proof (cases "pushed \<and> isl (run_handler (the hf) s1 cd1)")
        case failed: True
        then obtain e where "run_handler (the hf) s1 cd1 = Inl e"
          by (auto simp: isl_def)
        then show ?thesis
          using 1(2) True Inr z failed by (auto simp: kept_def)
      next
        case False
        obtain s2 cd2 where next_state: "self hf s2 cd2 = Some y" "deleted cd2 = deleted cd"
            "call_status cd2 = FINISH \<longrightarrow> \<not> outstanding cd2" "call_status cd2 \<noteq> CREATE"
        proof (cases pushed)
          case True
          then obtain s2 cd2 where "run_handler (the hf) s1 cd1 = Inr (s2, cd2)"
            using False by (cases "run_handler (the hf) s1 cd1") auto
          then show thesis
            using that [of s2 cd2] 1(2) \<open>outstanding cd \<and> call_status cd = PROCESS\<close> Inr z True cd1 run_handler_process
            by fastforce
        next
          case False
          then show thesis
            using that [of s1 cd1] 1(2) \<open>outstanding cd \<and> call_status cd = PROCESS\<close> Inr z cd1 by simp
        qed
        then show ?thesis
          using 1(1) [OF next_state(1)] by (simp add: kept_def)
      qed
    qed
  qed
qed

end
