(* ===== verification/Providers.thy ===== *)
theory Providers
  imports Facade Remote_Calls
begin

text \<open>
  \<open>src/gradido_events.h\<close>, the handlers of remote calls of a node with group blockchains: they stream the
  records and checksums of a blockchain, the users of a group, and the outbound half of a cross-group
  transfer to other nodes. Each class is a handler in the sense of \<open>Remote_Calls\<close> over the state of the
  node. The protocol file says of every stream that it ends with a message without success, whose
  contents are disregarded; this is what the contract \<open>data_stream\<close> states.
\<close>

section \<open>Messages\<close>

datatype BlockchainId = IdPubKey bytes | IdGroup bytes

definition id_pub_key :: "BlockchainId \<Rightarrow> bytes" where
  "id_pub_key i = (case i of IdPubKey k \<Rightarrow> k | IdGroup _ \<Rightarrow> [])"

definition id_group :: "BlockchainId \<Rightarrow> bytes" where
  "id_group i = (case i of IdPubKey _ \<Rightarrow> [] | IdGroup g \<Rightarrow> g)"

record BlockDescriptor =
  blockchain_id :: BlockchainId
  block_id :: u32

record BlockRecord =
  br_success :: bool
  br_record :: bytes

record BlockChecksum =
  bc_success :: bool
  bc_block_size :: u32
  bc_checksum :: bytes

record UserData =
  ud_success :: bool
  ud_pubkey :: bytes

record Ack =
  ack_success :: bool


section \<open>The blockchain of a request\<close>

definition any_block_record ::
  "node_env \<Rightarrow> nat \<Rightarrow> bytes \<Rightarrow> GradidoNode \<Rightarrow> (bytes option \<times> GradidoNode) res" where
  "any_block_record e seq_num name n =
     (case get_any_blockchain name n of
        None \<Rightarrow> Inr (None, n)
      | Some (AnyRegister b) \<Rightarrow>
          bind_res (get_block_record (register_methods e) (clock e) seq_num b) (\<lambda>(r, b1).
            Inr (r, n\<lparr>group_register := Some b1\<rparr>))
      | Some (AnyGroup b) \<Rightarrow>
          bind_res (get_block_record (group_methods e (facade_of (clock e) n)) (clock e) seq_num b) (\<lambda>(r, b1).
            Inr (r, n\<lparr>group_blockchains := fmupd name b1 (group_blockchains n)\<rparr>)))"

definition any_checksums :: "node_env \<Rightarrow> bytes \<Rightarrow> GradidoNode \<Rightarrow> ((nat \<times> bytes) list \<times> GradidoNode) res" where
  "any_checksums e name n =
     (case get_any_blockchain name n of
        None \<Rightarrow> Inr ([], n)
      | Some (AnyRegister b) \<Rightarrow>
          bind_res (get_checksums (register_methods e) (clock e) b) (\<lambda>(bis, b1).
            Inr (bis, n\<lparr>group_register := Some b1\<rparr>))
      | Some (AnyGroup b) \<Rightarrow>
          bind_res (get_checksums (group_methods e (facade_of (clock e) n)) (clock e) b) (\<lambda>(bis, b1).
            Inr (bis, n\<lparr>group_blockchains := fmupd name b1 (group_blockchains n)\<rparr>)))"


section \<open>Handlers\<close>

record BlockProviderContext =
  bp_alias :: bytes
  bp_records_provided :: u32

text \<open>The sequence number is a 64-bit sum of the records provided and a multiple of the block number.\<close>

definition BlockProvider :: "node_env \<Rightarrow> BlockDescriptor \<Rightarrow> (GradidoNode, BlockProviderContext, BlockRecord) handler" where
  "BlockProvider e req =
     \<lparr>handler_new = (\<lambda>n c. Inr (n, case c of
          None \<Rightarrow> Some \<lparr>bp_alias = id_pub_key (blockchain_id req), bp_records_provided = 0\<rparr> | Some x \<Rightarrow> Some x)),
      handler_run = (\<lambda>n c writes r.
        case c of
          None \<Rightarrow> Inl (Undefined ''null pointer'')
        | Some ctx \<Rightarrow>
            let seq_num = unat (bp_records_provided ctx) + GRADIDO_BLOCK_SIZE * unat (block_id req);
                ctx1 = ctx\<lparr>bp_records_provided := bp_records_provided ctx + 1\<rparr>
            in if get_any_blockchain (bp_alias ctx) n = None \<or> writes = GRADIDO_BLOCK_SIZE
               then Inr (n, Some ctx1, r\<lparr>br_success := False\<rparr>)
               else bind_res (any_block_record e seq_num (bp_alias ctx) n) (\<lambda>(d, n1).
                 Inr (n1, Some ctx1, case d of
                     None \<Rightarrow> r\<lparr>br_success := False\<rparr>
                   | Some bs \<Rightarrow> \<lparr>br_success = True, br_record = bs\<rparr>))),
      reply_ok = br_success\<rparr>"

record ChecksumProviderContext =
  cp_alias :: bytes
  cp_records_provided :: u32
  cp_bis :: "(nat \<times> bytes) list"

definition ChecksumProvider ::
  "node_env \<Rightarrow> BlockchainId \<Rightarrow> (GradidoNode, ChecksumProviderContext, BlockChecksum) handler" where
  "ChecksumProvider e req =
     \<lparr>handler_new = (\<lambda>n c.
        case c of
          Some x \<Rightarrow> Inr (n, Some x)
        | None \<Rightarrow>
            bind_res (any_checksums e (id_pub_key req) n) (\<lambda>(bis, n1).
              Inr (n1, Some \<lparr>cp_alias = id_pub_key req, cp_records_provided = 0, cp_bis = bis\<rparr>))),
      handler_run = (\<lambda>n c writes r.
        case c of
          None \<Rightarrow> Inl (Undefined ''null pointer'')
        | Some ctx \<Rightarrow>
            if get_any_blockchain (cp_alias ctx) n = None \<or> unat (cp_records_provided ctx) = length (cp_bis ctx)
            then Inr (n, c, r\<lparr>bc_success := False\<rparr>)
            else if length (cp_bis ctx) < unat (cp_records_provided ctx) then Inl (Throw ''vector::at'')
            else let bi = cp_bis ctx ! unat (cp_records_provided ctx)
                 in Inr (n, Some (ctx\<lparr>cp_records_provided := cp_records_provided ctx + 1\<rparr>),
                      \<lparr>bc_success = True, bc_block_size = of_nat (fst bi), bc_checksum = snd bi\<rparr>)),
      reply_ok = bc_success\<rparr>"

definition OutboundProvider ::
  "node_env \<Rightarrow> OutboundTransactionDescriptor \<Rightarrow> (GradidoNode, unit, OutboundTransaction) handler" where
  "OutboundProvider e req =
     \<lparr>handler_new = (\<lambda>n c. Inr (n, c)),
      handler_run = (\<lambda>n c writes r.
        if 0 < writes then Inr (n, c, r\<lparr>out_success := False\<rparr>)
        else case node_group_blockchain (otd_group req) n of
            None \<Rightarrow> Inr (n, c, r\<lparr>out_success := False\<rparr>)
          | Some b \<Rightarrow>
              (case get_paired_transaction (otd_id req) (indexes b) of
                 None \<Rightarrow> Inr (n, c, r\<lparr>out_success := False\<rparr>)
               | Some seq_num \<Rightarrow>
                   bind_res (get_block_record (group_methods e (facade_of (clock e) n)) (clock e) (unat seq_num) b)
                     (\<lambda>(d, b1).
                       Inr (n\<lparr>group_blockchains := fmupd (otd_group req) b1 (group_blockchains n)\<rparr>, c,
                         case d of
                           None \<Rightarrow> r\<lparr>out_success := False\<rparr>
                         | Some bs \<Rightarrow> \<lparr>out_success = True, out_data = bs\<rparr>)))),
      reply_ok = out_success\<rparr>"

definition ManageGroupProvider :: "node_env \<Rightarrow> bytes \<Rightarrow> (GradidoNode, unit, Ack) handler" where
  "ManageGroupProvider e g =
     \<lparr>handler_new = (\<lambda>n c. Inr (n, c)),
      handler_run = (\<lambda>n c writes r.
        if 0 < writes then Inr (n, c, \<lparr>ack_success = False\<rparr>)
        else bind_res (node_group_register n) (\<lambda>gr.
          case gr of
            None \<Rightarrow> Inl (Undefined ''null pointer'')
          | Some b \<Rightarrow>
              bind_res (get_topic_id (clock e) g b) (\<lambda>(t, b1).
                let n1 = n\<lparr>group_register := Some b1\<rparr>
                in case t of
                     None \<Rightarrow> Inr (n1, c, \<lparr>ack_success = False\<rparr>)
                   | Some topic \<Rightarrow>
                       bind_res (create_group_blockchain (stored_group e) (GroupInfo_create g topic) n1) (\<lambda>(_, n2).
                         Inr (n2, c, \<lparr>ack_success = True\<rparr>))))),
      reply_ok = ack_success\<rparr>"

text \<open>The two classes that list users differ in the field of the request they read.\<close>

definition users_new :: "bytes \<Rightarrow> GradidoNode \<Rightarrow> bytes list option \<Rightarrow> bytes list option" where
  "users_new g n c =
     (case c of
        Some x \<Rightarrow> Some x
      | None \<Rightarrow> map_option (\<lambda>b. get_users (indexes b)) (node_group_blockchain g n))"

definition users_run :: "bytes list option \<Rightarrow> nat \<Rightarrow> UserData \<Rightarrow> UserData" where
  "users_run c writes r =
     (case c of
        None \<Rightarrow> r\<lparr>ud_success := False\<rparr>
      | Some users \<Rightarrow>
          if length users \<le> writes then r\<lparr>ud_success := False\<rparr>
          else \<lparr>ud_success = True, ud_pubkey = users ! writes\<rparr>)"

definition UsersProvider :: "BlockchainId \<Rightarrow> (GradidoNode, bytes list, UserData) handler" where
  "UsersProvider req =
     \<lparr>handler_new = (\<lambda>n c. Inr (n, users_new (id_pub_key req) n c)),
      handler_run = (\<lambda>n c writes r. Inr (n, c, users_run c writes r)),
      reply_ok = ud_success\<rparr>"

definition UsersProviderDeprecated :: "BlockchainId \<Rightarrow> (GradidoNode, bytes list, UserData) handler" where
  "UsersProviderDeprecated req =
     \<lparr>handler_new = (\<lambda>n c. Inr (n, users_new (id_group req) n c)),
      handler_run = (\<lambda>n c writes r. Inr (n, c, users_run c writes r)),
      reply_ok = ud_success\<rparr>"


section \<open>Every call ends\<close>

lemmas provider_defs =
  BlockProvider_def ChecksumProvider_def OutboundProvider_def ManageGroupProvider_def UsersProvider_def
  UsersProviderDeprecated_def

interpretation blocks: bounded_stream "BlockProvider e req" "\<lambda>_ k. k \<le> GRADIDO_BLOCK_SIZE" "\<lambda>_ k. GRADIDO_BLOCK_SIZE - k"
  for e req
  by unfold_locales
    (auto simp: BlockProvider_def handler_step_def bind_res_Inr_iff Let_def GRADIDO_BLOCK_SIZE_def
      split: option.splits if_splits)

text \<open>One answer at most.\<close>

interpretation outbound: bounded_stream "OutboundProvider e req" "\<lambda>_ k. 0 < k" "\<lambda>_ _. 0" for e req
  by unfold_locales (auto simp: OutboundProvider_def handler_step_def bind_res_Inr_iff split: option.splits if_splits)

interpretation manage: bounded_stream "ManageGroupProvider e g" "\<lambda>_ k. 0 < k" "\<lambda>_ _. 0" for e g
  by unfold_locales
    (auto simp: ManageGroupProvider_def handler_step_def bind_res_Inr_iff Let_def split: option.splits if_splits)

interpretation users: bounded_stream "UsersProvider req" "\<lambda>c _. c \<noteq> None" "\<lambda>c k. length (the c) - k" for req
  by unfold_locales
    (auto simp: UsersProvider_def handler_step_def users_new_def users_run_def split: option.splits if_splits)

interpretation users_old: bounded_stream "UsersProviderDeprecated req" "\<lambda>c _. c \<noteq> None" "\<lambda>c k. length (the c) - k" for req
  by unfold_locales
    (auto simp: UsersProviderDeprecated_def handler_step_def users_new_def users_run_def split: option.splits if_splits)




section \<open>What the calls deliver\<close>

text \<open>Users: the keys of the index when the call begins, in ascending order.\<close>

interpretation user_list: data_stream "UsersProviderDeprecated req"
    "\<lambda>n c k. case users_new (id_group req) n c of None \<Rightarrow> [] | Some us \<Rightarrow> drop k us" ud_pubkey "\<lambda>n c k. c = None \<longrightarrow> k = 0"
  for req
proof
  fix n :: GradidoNode and c k and r :: UserData
  assume "c = None \<longrightarrow> k = 0" and "(case users_new (id_group req) n c of None \<Rightarrow> [] | Some us \<Rightarrow> drop k us) = []"
  then show "\<exists>s' c' r'. handler_step (UsersProviderDeprecated req) n c k r = Inr (s', c', r') \<and>
      \<not> reply_ok (UsersProviderDeprecated req) r'"
    by (auto simp: UsersProviderDeprecated_def handler_step_def users_run_def split: option.splits)
next
  fix n :: GradidoNode and c k and r :: UserData and d ds
  assume "c = None \<longrightarrow> k = 0" and "(case users_new (id_group req) n c of None \<Rightarrow> [] | Some us \<Rightarrow> drop k us) = d # ds"
  then obtain us where us: "users_new (id_group req) n c = Some us" "drop k us = d # ds"
    by (auto split: option.splits)
  then have k: "k < length us" "us ! k = d" "drop (k + 1) us = ds"
    by (metis drop_eq_Nil linorder_not_less list.distinct(1), metis hd_drop_conv_nth drop_eq_Nil
        linorder_not_less list.distinct(1) list.sel(1), metis drop_Suc tl_drop list.sel(3) Suc_eq_plus1)
  then show "\<exists>s' c' r'. handler_step (UsersProviderDeprecated req) n c k r = Inr (s', c', r') \<and>
      reply_ok (UsersProviderDeprecated req) r' \<and> ud_pubkey r' = d \<and> (c' = None \<longrightarrow> k + 1 = 0) \<and>
      (case users_new (id_group req) s' c' of None \<Rightarrow> [] | Some us \<Rightarrow> drop (k + 1) us) = ds"
    using us(1) by (simp add: UsersProviderDeprecated_def handler_step_def users_run_def) (simp add: users_new_def)
qed

text \<open>
  C26. A list of users is complete: the answer to \<open>get_users\<close> has the key of every user of the group once, in
  ascending order, and then one message that ends the stream; for a group the node does not have it has
  that message only.
\<close>

theorem users_listed:
  "\<exists>n' cd rs r. serve (Some (UsersProviderDeprecated (IdGroup g))) n (CallData_new r0) = Some (Inr (n', cd)) \<and>
     written cd = rs @ [r] \<and> \<not> ud_success r \<and> stream_closed cd \<and>
     map ud_pubkey rs = (case node_group_blockchain g n of None \<Rightarrow> [] | Some b \<Rightarrow> get_users (indexes b))"
proof -
  have "reply_ok (UsersProviderDeprecated (IdGroup g)) = ud_success"
    by (simp add: UsersProviderDeprecated_def)
  moreover have "(case users_new (id_group (IdGroup g)) n None of None \<Rightarrow> [] | Some us \<Rightarrow> drop 0 us)
      = (case node_group_blockchain g n of None \<Rightarrow> [] | Some b \<Rightarrow> get_users (indexes b))"
    by (simp add: users_new_def id_group_def split: option.splits)
  ultimately show ?thesis
    using user_list.call_served [of "IdGroup g" n r0] by metis
qed


section \<open>Blocks\<close>

text \<open>Reading the records of block \<open>i\<close> one after the other.\<close>

lemma block_record_at:
  assumes st: "stores GRADIDO_BLOCK_SIZE (storage b) ps" and i: "i < block_total GRADIDO_BLOCK_SIZE (length ps)" "i < 2 ^ 32"
    and k: "k < GRADIDO_BLOCK_SIZE"
  obtains b' where "stores GRADIDO_BLOCK_SIZE (storage b') ps"
    "file_contents (BlockFile i) (ft (storage b')) = file_contents (BlockFile i) (ft (storage b))"
    "get_block_record ch now (k + GRADIDO_BLOCK_SIZE * i) b =
       Inr (let r = file_contents (BlockFile i) (ft (storage b)) ! k
            in if r = EMPTY then None else Some (record_reply ch r), b')"
proof -
  obtain s' where s': "get_block GRADIDO_BLOCK_SIZE now i (storage b)
        = Inr ((Some (file_contents (BlockFile i) (ft (storage b))), OK), s')"
      "stores GRADIDO_BLOCK_SIZE s' ps" "store_step GRADIDO_BLOCK_SIZE (storage b) s'"
    by (rule get_block_ok [OF st i(1), of now]) (rule that)
  have len: "length (file_contents (BlockFile i) (ft (storage b))) = GRADIDO_BLOCK_SIZE"
    using storesD(6) [OF st i(1)] by (auto simp: is_block_def)
  have "file_contents (BlockFile i) (ft s') = file_contents (BlockFile i) (ft (storage b))"
    using s'(3) by (simp add: store_step_def cache_step_def file_contents_def)
  moreover have "i < get_block_count (storage b)"
    using storesD(3) [OF st] i(1) by (simp add: get_block_count_def get_tile_count_def)
  moreover have "(k + GRADIDO_BLOCK_SIZE * i) div GRADIDO_BLOCK_SIZE mod 2 ^ 32 = i"
      "(k + GRADIDO_BLOCK_SIZE * i) mod GRADIDO_BLOCK_SIZE = k"
    using k i(2) by simp_all
  ultimately show thesis
    using s' len k
    by (intro that [of "b\<lparr>storage := s'\<rparr>"]) (simp_all add: get_block_record_def Let_def)
qed

definition layout :: "node_env \<Rightarrow> (GradidoRecord Record \<Rightarrow> bytes) \<Rightarrow> nat \<Rightarrow> bool" where
  "layout e img sz \<longleftrightarrow> (\<forall>gf. chain_img (group_methods e gf) = img \<and> sizeof_T (group_methods e gf) = sz)"

definition reply_bytes :: "(GradidoRecord Record \<Rightarrow> bytes) \<Rightarrow> nat \<Rightarrow> GradidoRecord Record \<Rightarrow> bytes" where
  "reply_bytes img sz r = (case r of other_record_type _ \<Rightarrow> [] | _ \<Rightarrow> take sz (drop 1 (img r)))"

lemma record_reply_layout: "layout e img sz \<Longrightarrow> record_reply (group_methods e gf) r = reply_bytes img sz r"
  by (simp add: layout_def record_reply_def reply_bytes_def split: Record.splits)

text \<open>The state of the node while block \<open>i\<close> of group \<open>g\<close>, with the records \<open>rs\<close>, is being served.\<close>

definition serving_block ::
  "node_env \<Rightarrow> (GradidoRecord Record \<Rightarrow> bytes) \<Rightarrow> nat \<Rightarrow> bytes \<Rightarrow> u32 \<Rightarrow> GradidoRecord list \<Rightarrow> GradidoRecord Record list
     \<Rightarrow> GradidoNode \<Rightarrow> BlockProviderContext option \<Rightarrow> nat \<Rightarrow> bool" where
  "serving_block e img sz g i ps rs n c k \<longleftrightarrow>
     layout e img sz \<and> g \<noteq> GROUP_REGISTER_NAME \<and> unat i < block_total GRADIDO_BLOCK_SIZE (length ps) \<and>
     k \<le> length (takeWhile (\<lambda>r. r \<noteq> EMPTY) rs) \<and> length rs = GRADIDO_BLOCK_SIZE \<and>
     (case c of None \<Rightarrow> k = 0 | Some ctx \<Rightarrow> bp_alias ctx = g \<and> bp_records_provided ctx = of_nat k) \<and>
     (\<exists>b. node_group_blockchain g n = Some b \<and> stores GRADIDO_BLOCK_SIZE (storage b) ps \<and>
        file_contents (BlockFile (unat i)) (ft (storage b)) = rs)"

lemma BlockProvider_step:
  assumes "serving_block e img sz g i ps rs n c k"
  shows "\<exists>n' c'. handler_step (BlockProvider e \<lparr>blockchain_id = IdPubKey g, block_id = i\<rparr>) n c k r =
      Inr (n', c', if k < length (takeWhile (\<lambda>r. r \<noteq> EMPTY) rs)
                   then \<lparr>br_success = True, br_record = reply_bytes img sz (rs ! k)\<rparr> else r\<lparr>br_success := False\<rparr>) \<and>
    (k < length (takeWhile (\<lambda>r. r \<noteq> EMPTY) rs) \<longrightarrow> serving_block e img sz g i ps rs n' c' (k + 1))"
proof -
  obtain b where b: "node_group_blockchain g n = Some b" "stores GRADIDO_BLOCK_SIZE (storage b) ps"
      "file_contents (BlockFile (unat i)) (ft (storage b)) = rs"
    using assms by (auto simp: serving_block_def)
  note a = assms [unfolded serving_block_def]
  define ctx where "ctx = \<lparr>bp_alias = g, bp_records_provided = of_nat k\<rparr>"
  define ctx1 where "ctx1 = \<lparr>bp_alias = g, bp_records_provided = of_nat k + 1\<rparr>"
  have small: "k \<le> GRADIDO_BLOCK_SIZE"
    using a length_takeWhile_le [of "\<lambda>r. r \<noteq> EMPTY" rs] by linarith
  then have k: "unat (of_nat k :: u32) = k"
    by (simp add: unat_of_nat GRADIDO_BLOCK_SIZE_def)
  have new: "handler_new (BlockProvider e \<lparr>blockchain_id = IdPubKey g, block_id = i\<rparr>) n c = Inr (n, Some ctx)"
    using a by (cases c) (auto simp: BlockProvider_def ctx_def id_pub_key_def)
  have any: "get_any_blockchain g n = Some (AnyGroup b)"
    using a b(1) by (simp add: get_any_blockchain_def)
  show ?thesis
  proof (cases "k = GRADIDO_BLOCK_SIZE")
    case True
    then have "\<not> k < length (takeWhile (\<lambda>r. r \<noteq> EMPTY) rs)"
      using a length_takeWhile_le [of "\<lambda>r. r \<noteq> EMPTY" rs] by simp
    then show ?thesis
      using True new by (auto simp: handler_step_def) (simp add: BlockProvider_def)
  next
    case False
    then have kb: "k < GRADIDO_BLOCK_SIZE"
      using small by simp
    obtain b' where b': "stores GRADIDO_BLOCK_SIZE (storage b') ps"
        "file_contents (BlockFile (unat i)) (ft (storage b')) = file_contents (BlockFile (unat i)) (ft (storage b))"
        "get_block_record (group_methods e (facade_of (clock e) n)) (clock e) (k + GRADIDO_BLOCK_SIZE * unat i) b =
           Inr (let r = file_contents (BlockFile (unat i)) (ft (storage b)) ! k
                in if r = EMPTY then None else Some (record_reply (group_methods e (facade_of (clock e) n)) r), b')"
      by (rule block_record_at [OF b(2) _ _ kb]) (use a unsigned_less [of i, where ?'a = nat] in simp_all)
    define n' where "n' = n\<lparr>group_blockchains := fmupd g b' (group_blockchains n)\<rparr>"
    have step: "handler_step (BlockProvider e \<lparr>blockchain_id = IdPubKey g, block_id = i\<rparr>) n c k r =
        Inr (n', Some ctx1, if rs ! k = EMPTY then r\<lparr>br_success := False\<rparr>
          else \<lparr>br_success = True, br_record = reply_bytes img sz (rs ! k)\<rparr>)"
      using any b'(3) False k a unfolding handler_step_def new
      by (auto simp: BlockProvider_def ctx_def ctx1_def any_block_record_def n'_def b(3) Let_def record_reply_layout)
    show ?thesis
    proof (cases "k < length (takeWhile (\<lambda>r. r \<noteq> EMPTY) rs)")
      case True
      then have "rs ! k \<noteq> EMPTY"
        using nth_mem [OF True] set_takeWhileD [of "rs ! k" "\<lambda>r. r \<noteq> EMPTY" rs] takeWhile_nth [OF True] by metis
      moreover have "serving_block e img sz g i ps rs n' (Some ctx1) (k + 1)"
        using a True b'(1,2) b(3) by (simp add: serving_block_def n'_def ctx1_def node_group_blockchain_def)
      ultimately show ?thesis
        using step True by auto
    next
      case False
      then have "k = length (takeWhile (\<lambda>r. r \<noteq> EMPTY) rs)"
        using a by simp
      then have "rs ! k = EMPTY"
        using nth_length_takeWhile [of "\<lambda>r. r \<noteq> EMPTY" rs] kb a by simp
      then show ?thesis
        using step False by auto
    qed
  qed
qed


interpretation block_data: data_stream "BlockProvider e \<lparr>blockchain_id = IdPubKey g, block_id = i\<rparr>"
    "\<lambda>n c k. map (reply_bytes img sz) (drop k (takeWhile (\<lambda>r. r \<noteq> EMPTY) rs))" br_record
    "serving_block e img sz g i ps rs"
  for e g i img sz ps rs
proof
  fix n c k r
  assume inv: "serving_block e img sz g i ps rs n c k"
    and "map (reply_bytes img sz) (drop k (takeWhile (\<lambda>r. r \<noteq> EMPTY) rs)) = []"
  then show "\<exists>s' c' r'. handler_step (BlockProvider e \<lparr>blockchain_id = IdPubKey g, block_id = i\<rparr>) n c k r
      = Inr (s', c', r') \<and> \<not> reply_ok (BlockProvider e \<lparr>blockchain_id = IdPubKey g, block_id = i\<rparr>) r'"
    using BlockProvider_step [OF inv, of r] by (auto simp: not_less) (simp add: BlockProvider_def)
next
  fix n c k r d ds
  assume inv: "serving_block e img sz g i ps rs n c k"
    and rest: "map (reply_bytes img sz) (drop k (takeWhile (\<lambda>r. r \<noteq> EMPTY) rs)) = d # ds"
  define ts where "ts = takeWhile (\<lambda>r. r \<noteq> EMPTY) rs"
  have k: "k < length ts"
    using rest by (cases "k < length ts") (simp_all add: ts_def)
  then have "drop k ts = ts ! k # drop (k + 1) ts"
    using Cons_nth_drop_Suc [OF k] by simp
  moreover have "ts ! k = rs ! k"
    using k unfolding ts_def by (rule takeWhile_nth)
  ultimately have d: "d = reply_bytes img sz (rs ! k)" "ds = map (reply_bytes img sz) (drop (k + 1) ts)"
    using rest by (simp_all add: ts_def)
  show "\<exists>s' c' r'. handler_step (BlockProvider e \<lparr>blockchain_id = IdPubKey g, block_id = i\<rparr>) n c k r
      = Inr (s', c', r') \<and> reply_ok (BlockProvider e \<lparr>blockchain_id = IdPubKey g, block_id = i\<rparr>) r' \<and>
      br_record r' = d \<and> serving_block e img sz g i ps rs s' c' (k + 1) \<and>
      map (reply_bytes img sz) (drop (k + 1) (takeWhile (\<lambda>r. r \<noteq> EMPTY) rs)) = ds"
    using BlockProvider_step [OF inv, of r] k d unfolding ts_def by (auto simp: BlockProvider_def)
qed

lemma block_records:
  assumes "stores GRADIDO_BLOCK_SIZE s ps" "i < block_total GRADIDO_BLOCK_SIZE (length ps)"
  obtains c where "takeWhile (\<lambda>r. r \<noteq> EMPTY) (file_contents (BlockFile i) (ft s))
      = map PAYLOAD (block_payloads GRADIDO_BLOCK_SIZE i ps) @ [CHECKSUM c]"
    "length (file_contents (BlockFile i) (ft s)) = GRADIDO_BLOCK_SIZE"
proof -
  obtain c m where block: "file_contents (BlockFile i) (ft s)
      = map PAYLOAD (block_payloads GRADIDO_BLOCK_SIZE i ps) @ CHECKSUM c # replicate m EMPTY"
      "length (file_contents (BlockFile i) (ft s)) = GRADIDO_BLOCK_SIZE"
    using storesD(6) [OF assms] by (auto simp: is_block_def)
  have "takeWhile (\<lambda>r. r \<noteq> EMPTY) (map PAYLOAD qs @ CHECKSUM c # replicate m EMPTY) = map PAYLOAD qs @ [CHECKSUM c]"
    for qs :: "'a list"
    by (subst takeWhile_append2) (auto simp: takeWhile_replicate)
  then show thesis
    using that block by simp
qed

text \<open>
  C6. A block that another node requests arrives complete: \<open>BlockProvider\<close>, the call that carries its messages
  and the subscriber of the other node together hand the receiver the bytes of all payloads of the block
  in order, then those of its checksum, and then exactly one message that ends the stream.
\<close>

theorem block_delivered:
  assumes "layout e img sz" "g \<noteq> GROUP_REGISTER_NAME" "node_group_blockchain g n = Some b"
    and "stores GRADIDO_BLOCK_SIZE (storage b) ps" "unat i < block_total GRADIDO_BLOCK_SIZE (length ps)"
    and "\<not> ps_shutdown svc" "pc \<notin> fst ` set (clients svc)"
  shows "\<exists>n' cd svc' x rs r c.
    serve (Some (BlockProvider e \<lparr>blockchain_id = IdPubKey g, block_id = i\<rparr>)) n (CallData_new r0) = Some (Inr (n', cd)) \<and>
    poll_run br_success pc (stream_events r0 (written cd)) (add_client pc Subscriber_new svc) = Inr svc' \<and>
    (pc, x) \<in> set (clients svc') \<and> delivered x = rs @ [r] \<and> \<not> br_success r \<and>
    map br_record rs = map (reply_bytes img sz)
      (map PAYLOAD (block_payloads GRADIDO_BLOCK_SIZE (unat i) ps) @ [CHECKSUM c])"
proof -
  define fs where "fs = file_contents (BlockFile (unat i)) (ft (storage b))"
  obtain c where c: "takeWhile (\<lambda>r. r \<noteq> EMPTY) fs
      = map PAYLOAD (block_payloads GRADIDO_BLOCK_SIZE (unat i) ps) @ [CHECKSUM c]" "length fs = GRADIDO_BLOCK_SIZE"
    using block_records [OF assms(4,5)] unfolding fs_def by blast
  have "serving_block e img sz g i ps fs n None 0"
    using assms(1-5) c(2) by (simp add: serving_block_def fs_def)
  then obtain n' cd rs r where served:
      "serve (Some (BlockProvider e \<lparr>blockchain_id = IdPubKey g, block_id = i\<rparr>)) n (CallData_new r0) = Some (Inr (n', cd))"
      "written cd = rs @ [r]" "map br_record rs = map (reply_bytes img sz) (takeWhile (\<lambda>r. r \<noteq> EMPTY) fs)"
      "\<forall>x \<in> set rs. br_success x" "\<not> br_success r"
    using block_data.call_served [of e img sz g i ps fs n r0] by (auto simp: BlockProvider_def)
  have "poll_run br_success pc (stream_events r0 (rs @ [r])) (add_client pc Subscriber_new svc)
      = Inr (svc\<lparr>clients := clients svc @ [(pc, \<lparr>sub_done = True, first_message = False, delivered = rs @ [r]\<rparr>)]\<rparr>)"
    by (rule stream_delivered [OF assms(6,7) served(4,5)])
  then show ?thesis
    using served c(1) by fastforce
qed


definition one_group_node :: "GradidoRecord Blockchain \<Rightarrow> GradidoNode" where
  "one_group_node s =
     (GradidoNode_new blank_config)\<lparr>group_blockchains := fmupd [103] (ready_group s) fmempty\<rparr>"

lemma one_group_node_simps [simp]:
  "node_group_blockchain [103] (one_group_node s) = Some (ready_group s)" "layout (plain_env s) (\<lambda>_. []) 0"
  "[103] \<noteq> GROUP_REGISTER_NAME"
  by (simp_all add: one_group_node_def node_group_blockchain_def layout_def plain_env_def group_child_def
      GROUP_REGISTER_NAME_def bytes_of_def)

theorem block_delivered_witness:
  "\<exists>s e n' cd svc' x rs r. stores GRADIDO_BLOCK_SIZE s [GRADIDO_TRANSACTION added] \<and>
    serve (Some (BlockProvider e \<lparr>blockchain_id = IdPubKey [103], block_id = 0\<rparr>)) (one_group_node s)
      (CallData_new \<lparr>br_success = False, br_record = []\<rparr>) = Some (Inr (n', cd)) \<and>
    poll_run br_success 7 (stream_events \<lparr>br_success = False, br_record = []\<rparr> (written cd))
      (add_client 7 Subscriber_new PollService_new) = Inr svc' \<and>
    (7, x) \<in> set (clients svc') \<and> delivered x = rs @ [r] \<and> \<not> br_success r \<and> length rs = 2"
proof -
  obtain s where s: "stores GRADIDO_BLOCK_SIZE s [GRADIDO_TRANSACTION added]"
    by (rule one_group_transaction_store)
  have "unat (0 :: u32) < block_total GRADIDO_BLOCK_SIZE (length [GRADIDO_TRANSACTION added])"
    by (simp add: block_total_def GRADIDO_BLOCK_SIZE_def)
  moreover have "length (block_payloads GRADIDO_BLOCK_SIZE 0 [GRADIDO_TRANSACTION added]) = 1"
    by (simp add: block_payloads_def GRADIDO_BLOCK_SIZE_def)
  moreover obtain n' cd svc' x rs r c where
      "serve (Some (BlockProvider (plain_env s) \<lparr>blockchain_id = IdPubKey [103], block_id = 0\<rparr>)) (one_group_node s)
        (CallData_new \<lparr>br_success = False, br_record = []\<rparr>) = Some (Inr (n', cd))"
      "poll_run br_success 7 (stream_events \<lparr>br_success = False, br_record = []\<rparr> (written cd))
        (add_client 7 Subscriber_new PollService_new) = Inr svc'"
      "(7, x) \<in> set (clients svc')" "delivered x = rs @ [r]" "\<not> br_success r"
      "map br_record rs = map (reply_bytes (\<lambda>_. []) 0)
        (map PAYLOAD (block_payloads GRADIDO_BLOCK_SIZE (unat (0 :: u32)) [GRADIDO_TRANSACTION added]) @ [CHECKSUM c])"
    using block_delivered [of "plain_env s" "\<lambda>_. []" 0 "[103]" "one_group_node s" "ready_group s"
        "[GRADIDO_TRANSACTION added]" 0 PollService_new 7 "\<lparr>br_success = False, br_record = []\<rparr>"] s calculation
    by (auto simp: PollService_new_def)
  moreover have "length rs = 2"
    using map_eq_imp_length_eq [OF calculation(8)] calculation(2) by simp
  ultimately show ?thesis
    using s by blast
qed


section \<open>Checksums\<close>

text \<open>The state of the node while the checksums \<open>bis\<close> of blockchain \<open>name\<close> are being served.\<close>

definition serving_checksums ::
  "node_env \<Rightarrow> bytes \<Rightarrow> (nat \<times> bytes) list \<Rightarrow> GradidoNode \<Rightarrow> ChecksumProviderContext option \<Rightarrow> nat \<Rightarrow> bool" where
  "serving_checksums e name bis n c k \<longleftrightarrow>
     length bis < 2 ^ 32 \<and> k \<le> length bis \<and> get_any_blockchain name n \<noteq> None \<and>
     (case c of
        None \<Rightarrow> k = 0 \<and> (\<exists>n1. any_checksums e name n = Inr (bis, n1))
      | Some ctx \<Rightarrow> cp_alias ctx = name \<and> cp_bis ctx = bis \<and> cp_records_provided ctx = of_nat k)"

lemma any_checksums_keeps:
  "any_checksums e name n = Inr (bis, n1) \<Longrightarrow> get_any_blockchain name n \<noteq> None \<Longrightarrow> get_any_blockchain name n1 \<noteq> None"
  by (auto simp: any_checksums_def get_any_blockchain_def node_group_blockchain_def bind_res_Inr_iff
      split: option.splits any_blockchain.splits if_splits)

lemma ChecksumProvider_step:
  assumes "serving_checksums e name bis n c k"
  shows "\<exists>n' c'. handler_step (ChecksumProvider e (IdPubKey name)) n c k r =
      Inr (n', c', if k < length bis
                   then \<lparr>bc_success = True, bc_block_size = of_nat (fst (bis ! k)), bc_checksum = snd (bis ! k)\<rparr>
                   else r\<lparr>bc_success := False\<rparr>) \<and>
    (k < length bis \<longrightarrow> serving_checksums e name bis n' c' (k + 1))"
proof -
  note a = assms [unfolded serving_checksums_def]
  define ctx where "ctx = \<lparr>cp_alias = name, cp_records_provided = of_nat k, cp_bis = bis\<rparr>"
  have k: "unat (of_nat k :: u32) = k"
    using a by (simp add: unat_of_nat)
  obtain n1 where new: "handler_new (ChecksumProvider e (IdPubKey name)) n c = Inr (n1, Some ctx)"
      "get_any_blockchain name n1 \<noteq> None"
  proof (cases c)
    case None
    then show thesis
      using that a any_checksums_keeps by (fastforce simp: ChecksumProvider_def id_pub_key_def ctx_def)
  next
    case (Some x)
    then show thesis
      using that [of n] a by (cases x) (simp add: ChecksumProvider_def ctx_def)
  qed
  show ?thesis
  proof (cases "k < length bis")
    case True
    then have "handler_step (ChecksumProvider e (IdPubKey name)) n c k r = Inr (n1,
        Some (ctx\<lparr>cp_records_provided := of_nat k + 1\<rparr>),
        \<lparr>bc_success = True, bc_block_size = of_nat (fst (bis ! k)), bc_checksum = snd (bis ! k)\<rparr>)"
      using k new(2) unfolding handler_step_def new(1) by (simp add: ChecksumProvider_def ctx_def Let_def)
    moreover have "serving_checksums e name bis n1 (Some (ctx\<lparr>cp_records_provided := of_nat k + 1\<rparr>)) (k + 1)"
      using True new(2) a by (simp add: serving_checksums_def ctx_def)
    ultimately show ?thesis
      using True by auto
  next
    case False
    then have "handler_step (ChecksumProvider e (IdPubKey name)) n c k r = Inr (n1, Some ctx, r\<lparr>bc_success := False\<rparr>)"
      using k a unfolding handler_step_def new(1) by (simp add: ChecksumProvider_def ctx_def)
    then show ?thesis
      using False by auto
  qed
qed

interpretation checksum_data: data_stream "ChecksumProvider e (IdPubKey name)"
    "\<lambda>n c k. map (\<lambda>(size, cs). (of_nat size, cs)) (drop k bis)" "\<lambda>r. (bc_block_size r, bc_checksum r)"
    "serving_checksums e name bis"
  for e name bis
proof
  fix n c k r
  assume inv: "serving_checksums e name bis n c k" and "map (\<lambda>(size, cs). (of_nat size :: u32, cs)) (drop k bis) = []"
  then show "\<exists>s' c' r'. handler_step (ChecksumProvider e (IdPubKey name)) n c k r = Inr (s', c', r') \<and>
      \<not> reply_ok (ChecksumProvider e (IdPubKey name)) r'"
    using ChecksumProvider_step [OF inv, of r] by (auto simp: not_less) (simp add: ChecksumProvider_def)
next
  fix n c k r d ds
  assume inv: "serving_checksums e name bis n c k"
    and rest: "map (\<lambda>(size, cs). (of_nat size :: u32, cs)) (drop k bis) = d # ds"
  have k: "k < length bis"
    using rest by (cases "k < length bis") simp_all
  then have "d = (of_nat (fst (bis ! k)), snd (bis ! k))" "ds = map (\<lambda>(size, cs). (of_nat size, cs)) (drop (k + 1) bis)"
    using rest Cons_nth_drop_Suc [OF k, symmetric] by (auto simp: split_beta)
  then show "\<exists>s' c' r'. handler_step (ChecksumProvider e (IdPubKey name)) n c k r = Inr (s', c', r') \<and>
      reply_ok (ChecksumProvider e (IdPubKey name)) r' \<and> (bc_block_size r', bc_checksum r') = d \<and>
      serving_checksums e name bis s' c' (k + 1) \<and> map (\<lambda>(size, cs). (of_nat size, cs)) (drop (k + 1) bis) = ds"
    using ChecksumProvider_step [OF inv, of r] k by (auto simp: ChecksumProvider_def)
qed

text \<open>The answer to a request for checksums: size and checksum of every block, then the end.\<close>

lemma checksums_served:
  assumes "get_any_blockchain name n \<noteq> None" "any_checksums e name n = Inr (bis, n1)" "length bis < 2 ^ 32"
  shows "\<exists>n' cd rs r. serve (Some (ChecksumProvider e (IdPubKey name))) n (CallData_new r0) = Some (Inr (n', cd)) \<and>
    written cd = rs @ [r] \<and> \<not> bc_success r \<and>
    map (\<lambda>r. (bc_block_size r, bc_checksum r)) rs = map (\<lambda>(size, cs). (of_nat size, cs)) bis"
proof -
  have "serving_checksums e name bis n None 0"
    using assms by (simp add: serving_checksums_def)
  then show ?thesis
    using checksum_data.call_served [of e name bis n r0] by (auto simp: ChecksumProvider_def)
qed



section \<open>The answer to a request for an outbound transaction\<close>

lemma payload_record_at:
  assumes st: "stores GRADIDO_BLOCK_SIZE (storage b) ps" and k: "k < length ps"
    and small: "payload_index GRADIDO_BLOCK_SIZE k div GRADIDO_BLOCK_SIZE < 2 ^ 32"
  obtains b' where "get_block_record ch now (payload_index GRADIDO_BLOCK_SIZE k) b
      = Inr (Some (record_reply ch (PAYLOAD (ps ! k))), b')"
proof -
  let ?r = GRADIDO_BLOCK_SIZE
  define i j where "i = k div (?r - 1)" and "j = k mod (?r - 1)"
  have r: "2 \<le> ?r"
    by (rule storesD(1) [OF st])
  note P = payload_block [OF r k, folded i_def j_def]
  note D = payload_index_div_mod [OF r, of k, folded i_def j_def]
  have j: "j < ?r"
    using r mod_less_divisor [of "?r - 1" k] unfolding j_def by linarith
  have split: "payload_index ?r k = j + ?r * i"
    using div_mult_mod_eq [of "payload_index ?r k" ?r] D by (simp add: mult.commute)
  have rec: "file_contents (BlockFile i) (ft (storage b)) ! j = PAYLOAD (ps ! k)"
    using is_block_nth(1) [OF storesD(6) [OF st P(1)] P(2)] P(3) by simp
  show thesis
    by (rule block_record_at [OF st P(1) _ j, of ch now])
      (use small D(1) rec split that in \<open>simp_all add: Let_def\<close>)
qed

lemma OutboundProvider_first:
  assumes "layout e img sz" "node_group_blockchain (otd_group req) m = Some b" "stores GRADIDO_BLOCK_SIZE (storage b) ps"
    and "get_paired_transaction (otd_id req) (indexes b) = Some seq" "unat seq = payload_index GRADIDO_BLOCK_SIZE k"
    and "k < length ps" "unat seq div GRADIDO_BLOCK_SIZE < 2 ^ 32"
  shows "\<exists>m'. handler_step (OutboundProvider e req) m c 0 r
    = Inr (m', c, \<lparr>out_success = True, out_data = reply_bytes img sz (PAYLOAD (ps ! k))\<rparr>)"
proof -
  obtain b' where "get_block_record (group_methods e (facade_of (clock e) m)) (clock e) (unat seq) b
      = Inr (Some (record_reply (group_methods e (facade_of (clock e) m)) (PAYLOAD (ps ! k))), b')"
    by (rule payload_record_at [OF assms(3,6)]) (use assms(5,7) in auto)
  then show ?thesis
    using assms(1,2,4) by (simp add: OutboundProvider_def handler_step_def record_reply_layout)
qed

lemma OutboundProvider_later:
  "0 < k \<Longrightarrow> handler_step (OutboundProvider e req) m c k r = Inr (m, c, r\<lparr>out_success := False\<rparr>)"
  by (simp add: OutboundProvider_def handler_step_def)

text \<open>The answers a sibling can give: the outbound half, if it has it and has not sent it yet.\<close>

interpretation outbound_data: data_stream "OutboundProvider e req"
    "\<lambda>m c k. if k = 0 then [d] else []" out_data
    "\<lambda>m c k. k = 0 \<longrightarrow> (\<forall>r. \<exists>m'. handler_step (OutboundProvider e req) m c 0 r = Inr (m', c, \<lparr>out_success = True, out_data = d\<rparr>))"
  for e req d
proof
  fix m :: GradidoNode and c :: "unit option" and k :: nat and r :: OutboundTransaction
  assume "(if k = 0 then [d] else []) = ([] :: bytes list)"
  then have "0 < k"
    by (simp split: if_splits)
  then show "\<exists>s' c' r'. handler_step (OutboundProvider e req) m c k r = Inr (s', c', r') \<and>
      \<not> reply_ok (OutboundProvider e req) r'"
    using OutboundProvider_later [of k e req m c r] by (simp add: OutboundProvider_def)
next
  fix m :: GradidoNode and c :: "unit option" and k :: nat and r :: OutboundTransaction and d' :: bytes and ds
  assume "k = 0 \<longrightarrow> (\<forall>r. \<exists>m'. handler_step (OutboundProvider e req) m c 0 r = Inr (m', c, \<lparr>out_success = True, out_data = d\<rparr>))"
    and rest: "(if k = 0 then [d] else []) = d' # ds"
  moreover have "k = 0" "d' = d" "ds = []"
    using rest by (simp_all split: if_splits)
  ultimately obtain m' where "handler_step (OutboundProvider e req) m c 0 r = Inr (m', c, \<lparr>out_success = True, out_data = d\<rparr>)"
    by blast
  moreover have "reply_ok (OutboundProvider e req) \<lparr>out_success = True, out_data = d\<rparr>"
    by (simp add: OutboundProvider_def)
  ultimately show "\<exists>s' c' r'. handler_step (OutboundProvider e req) m c k r = Inr (s', c', r') \<and>
      reply_ok (OutboundProvider e req) r' \<and> out_data r' = d' \<and>
      (k + 1 = 0 \<longrightarrow> (\<forall>r. \<exists>m'. handler_step (OutboundProvider e req) s' c' 0 r = Inr (m', c', \<lparr>out_success = True, out_data = d\<rparr>))) \<and>
      (if k + 1 = 0 then [d] else []) = ds"
    using \<open>k = 0\<close> \<open>d' = d\<close> \<open>ds = []\<close> by auto
qed

text \<open>
  An answered request is repeated. When a sibling has the outbound half of a transfer, its answer is the
  stored record and the message that ends the stream; the node pushes a task that adds the record, and for
  the end of the stream a task that requests it again a second later. By then the request is no longer
  listed, so that task throws, which makes the worker that runs it stop the process.
\<close>

theorem answered_request_repeated:
  assumes "layout e img sz" "node_group_blockchain (otd_group req) m = Some b" "stores GRADIDO_BLOCK_SIZE (storage b) ps"
    and "get_paired_transaction (otd_id req) (indexes b) = Some seq" "unat seq = payload_index GRADIDO_BLOCK_SIZE k"
    and "k < length ps" "unat seq div GRADIDO_BLOCK_SIZE < 2 ^ 32"
    and "\<not> ps_shutdown svc" "pc \<notin> fst ` set (clients svc)" "siblings (conf n) \<noteq> []"
  shows "\<exists>m' cd svc' x ok n1.
    serve (Some (OutboundProvider e req)) m (CallData_new r0) = Some (Inr (m', cd)) \<and>
    poll_run out_success pc (stream_events r0 (written cd)) (add_client pc Subscriber_new svc) = Inr svc' \<and>
    (pc, x) \<in> set (clients svc') \<and> n1 = fold (\<lambda>br. outbound_on_block_record br req) (delivered x) n \<and>
    out_data ok = reply_bytes img sz (PAYLOAD (ps ! k)) \<and>
    pushed_tasks n1 = pushed_tasks n @ [(AddPairedTask ok req, 0), (TryPairedAgainTask req, 1)] \<and>
    run_node_task e' (TryPairedAgainTask req) (n1\<lparr>waiting_pairs := fmdrop (otd_id req) (waiting_pairs n1)\<rparr>)
      = Inl (Throw ''cannot continue getting paired transaction'')"
proof -
  define d where "d = reply_bytes img sz (PAYLOAD (ps ! k))"
  have "\<forall>r. \<exists>m'. handler_step (OutboundProvider e req) m None 0 r = Inr (m', None, \<lparr>out_success = True, out_data = d\<rparr>)"
    using OutboundProvider_first [OF assms(1-7)] by (simp add: d_def)
  then obtain m' cd rs r where served: "serve (Some (OutboundProvider e req)) m (CallData_new r0) = Some (Inr (m', cd))"
      "written cd = rs @ [r]" "map out_data rs = [d]" "\<forall>x \<in> set rs. out_success x" "\<not> out_success r"
    using outbound_data.call_served [where e = e and req = req and d = d and s = m and ?r0.0 = r0] by (auto simp: OutboundProvider_def)
  then obtain ok where ok: "rs = [ok]" "out_data ok = d" "out_success ok"
    by auto
  define n1 where "n1 = fold (\<lambda>br. outbound_on_block_record br req) [ok, r] n"
  have "poll_run out_success pc (stream_events r0 (rs @ [r])) (add_client pc Subscriber_new svc)
      = Inr (svc\<lparr>clients := clients svc @ [(pc, \<lparr>sub_done = True, first_message = False, delivered = rs @ [r]\<rparr>)]\<rparr>)"
    by (rule stream_delivered [OF assms(8,9) served(4,5)])
  moreover have "pushed_tasks n1 = pushed_tasks n @ [(AddPairedTask ok req, 0), (TryPairedAgainTask req, 1)]"
    using ok(3) served(5) by (simp add: n1_def outbound_on_block_record_def)
  moreover have "conf n1 = conf n"
    using ok(3) served(5) by (simp add: n1_def outbound_on_block_record_def)
  then have "run_node_task e' (TryPairedAgainTask req) (n1\<lparr>waiting_pairs := fmdrop (otd_id req) (waiting_pairs n1)\<rparr>)
      = Inl (Throw ''cannot continue getting paired transaction'')"
    using assms(10)
    by (simp add: run_node_task_def exec_again_paired_transaction_done_def get_random_sibling_endpoint_def Let_def)
  ultimately show ?thesis
    using served ok unfolding d_def
    by (intro exI [of _ m'] exI [of _ cd] exI [of _ "svc\<lparr>clients := clients svc @
        [(pc, \<lparr>sub_done = True, first_message = False, delivered = rs @ [r]\<rparr>)]\<rparr>"]
        exI [of _ "\<lparr>sub_done = True, first_message = False, delivered = rs @ [r]\<rparr>"] exI [of _ ok] exI [of _ n1])
      (simp add: n1_def)
qed

definition paying_node :: "GradidoRecord Blockchain \<Rightarrow> GradidoNode" where
  "paying_node s =
     (GradidoNode_new blank_config)\<lparr>group_blockchains := fmupd [103]
        ((ready_group s)\<lparr>indexes := GroupLedger_new\<lparr>outbound_transactions := fmupd (HederaTimestamp 7 0) 0 fmempty\<rparr>\<rparr>)
        fmempty\<rparr>"

theorem answered_request_repeated_witness:
  "\<exists>s e m' cd svc' x ok n1. stores GRADIDO_BLOCK_SIZE s [GRADIDO_TRANSACTION added] \<and>
    serve (Some (OutboundProvider e \<lparr>otd_group = [103], otd_id = HederaTimestamp 7 0\<rparr>)) (paying_node s)
      (CallData_new \<lparr>out_success = False, out_data = []\<rparr>) = Some (Inr (m', cd)) \<and>
    poll_run out_success 7 (stream_events \<lparr>out_success = False, out_data = []\<rparr> (written cd))
      (add_client 7 Subscriber_new PollService_new) = Inr svc' \<and>
    (7, x) \<in> set (clients svc') \<and>
    n1 = fold (\<lambda>br. outbound_on_block_record br \<lparr>otd_group = [103], otd_id = HederaTimestamp 7 0\<rparr>) (delivered x)
      (GradidoNode_new (blank_config\<lparr>siblings := [[97]]\<rparr>)) \<and>
    length (pushed_tasks n1) = 2"
proof -
  obtain s where s: "stores GRADIDO_BLOCK_SIZE s [GRADIDO_TRANSACTION added]"
    by (rule one_group_transaction_store)
  have node: "node_group_blockchain [103] (paying_node s) = Some ((ready_group s)
      \<lparr>indexes := GroupLedger_new\<lparr>outbound_transactions := fmupd (HederaTimestamp 7 0) 0 fmempty\<rparr>\<rparr>)"
    by (simp add: paying_node_def node_group_blockchain_def)
  obtain m' cd svc' x ok n1 where
      "serve (Some (OutboundProvider (plain_env s) \<lparr>otd_group = [103], otd_id = HederaTimestamp 7 0\<rparr>)) (paying_node s)
        (CallData_new \<lparr>out_success = False, out_data = []\<rparr>) = Some (Inr (m', cd))"
      "poll_run out_success 7 (stream_events \<lparr>out_success = False, out_data = []\<rparr> (written cd))
        (add_client 7 Subscriber_new PollService_new) = Inr svc'"
      "(7, x) \<in> set (clients svc')"
      "n1 = fold (\<lambda>br. outbound_on_block_record br \<lparr>otd_group = [103], otd_id = HederaTimestamp 7 0\<rparr>) (delivered x)
        (GradidoNode_new (blank_config\<lparr>siblings := [[97]]\<rparr>))"
      "pushed_tasks n1 = pushed_tasks (GradidoNode_new (blank_config\<lparr>siblings := [[97]]\<rparr>)) @
        [(AddPairedTask ok \<lparr>otd_group = [103], otd_id = HederaTimestamp 7 0\<rparr>, 0),
         (TryPairedAgainTask \<lparr>otd_group = [103], otd_id = HederaTimestamp 7 0\<rparr>, 1)]"
    using answered_request_repeated [of "plain_env s" "\<lambda>_. []" 0 "\<lparr>otd_group = [103], otd_id = HederaTimestamp 7 0\<rparr>"
        "paying_node s" "(ready_group s)\<lparr>indexes := GroupLedger_new\<lparr>outbound_transactions :=
          fmupd (HederaTimestamp 7 0) 0 fmempty\<rparr>\<rparr>" "[GRADIDO_TRANSACTION added]" 0 0 PollService_new 7
        "GradidoNode_new (blank_config\<lparr>siblings := [[97]]\<rparr>)" "\<lparr>out_success = False, out_data = []\<rparr>" "plain_env s"] s node
    by (auto simp: PollService_new_def GradidoNode_new_def get_paired_transaction_def payload_index_def)
  moreover from this(5) have "length (pushed_tasks n1) = 2"
    by (simp add: GradidoNode_new_def)
  ultimately show ?thesis
    using s by blast
qed

text \<open>The task that adds the record has no defined result.\<close>

lemma awaited_pair_undefined:
  assumes "fmlookup (waiting_pairs n) (otd_id req) = Some ptd"
  shows "undefined_behaviour (run_node_task e (AddPairedTask br req) n)"
  using assms by (simp add: run_node_task_def on_paired_transaction_def)

text \<open>
  While the sibling does not have the transaction, the node asks again: each failing answer leads to the
  same request to a sibling one second later, and the listener stays listed.
\<close>

lemma unanswered_request_repeated:
  assumes "fmlookup (waiting_pairs n) (otd_id req) = Some ptd" "siblings (conf n) \<noteq> []" "\<not> out_success br"
  shows "\<exists>n1 n2 se. outbound_on_block_record br req n = n1 \<and>
    pushed_tasks n1 = pushed_tasks n @ [(TryPairedAgainTask req, 1)] \<and>
    run_node_task e (TryPairedAgainTask req) n1 = Inr n2 \<and>
    outbound_requests n2 = outbound_requests n @ [(se, otd ptd)] \<and> waiting_pairs n2 = waiting_pairs n"
  using assms
  by (simp add: outbound_on_block_record_def run_node_task_def exec_again_paired_transaction_done_def
      get_random_sibling_endpoint_def Let_def)

end
