(* ===== verification/Json_Text.thy ===== *)
theory Json_Text
  imports Config
begin

text \<open>
  A reference for the text the node prints: the values of JSON, their tokens, a scanner and a parser. The
  scanner knows the part of JSON that the sources print, strings without escapes and whole numbers; what it
  accepts is JSON with the value the parser gives, and the parser accepts exactly the token sequences of
  values.
\<close>

section \<open>Values and tokens\<close>

datatype json =
    JString bytes
  | JNumber int
  | JObject "(bytes \<times> json) list"
  | JArray "json list"

datatype token = TOpen | TClose | TOpenArray | TCloseArray | TColon | TComma | TString bytes | TNumber int

fun json_tokens :: "json \<Rightarrow> token list"
and member_tokens :: "(bytes \<times> json) list \<Rightarrow> token list"
and element_tokens :: "json list \<Rightarrow> token list" where
  "json_tokens (JString s) = [TString s]"
| "json_tokens (JNumber k) = [TNumber k]"
| "json_tokens (JObject fs) = TOpen # member_tokens fs @ [TClose]"
| "json_tokens (JArray vs) = TOpenArray # element_tokens vs @ [TCloseArray]"
| "member_tokens [] = []"
| "member_tokens ((k, v) # fs) =
     TString k # TColon # json_tokens v @ (if fs = [] then [] else TComma # member_tokens fs)"
| "element_tokens [] = []"
| "element_tokens (v # vs) = json_tokens v @ (if vs = [] then [] else TComma # element_tokens vs)"


section \<open>Scanner\<close>

text \<open>The characters a string may have without being escaped; those beyond ASCII are left out.\<close>

definition text_char :: "u8 \<Rightarrow> bool" where
  "text_char c \<longleftrightarrow> 32 \<le> c \<and> c < 127 \<and> c \<noteq> 34 \<and> c \<noteq> 92"

definition plain :: "bytes \<Rightarrow> bool" where
  "plain s = list_all text_char s"

definition punctuation :: "u8 \<Rightarrow> token option" where
  "punctuation c =
     (if c = 123 then Some TOpen else if c = 125 then Some TClose
      else if c = 91 then Some TOpenArray else if c = 93 then Some TCloseArray
      else if c = 58 then Some TColon else if c = 44 then Some TComma else None)"

text \<open>A number has no leading zeros: its digits are those \<^const>\<open>decimal_str\<close> prints.\<close>

function scan_json :: "bytes \<Rightarrow> token list option" where
  "scan_json [] = Some []"
| "scan_json (c # cs) =
     (if c = 32 \<or> c = 9 \<or> c = 10 \<or> c = 13 then scan_json cs
      else case punctuation c of
        Some t \<Rightarrow> map_option (Cons t) (scan_json cs)
      | None \<Rightarrow>
          if c = 34 then
            (case dropWhile text_char cs of
               [] \<Rightarrow> None
             | q # r \<Rightarrow> if q = 34 then map_option (Cons (TString (takeWhile text_char cs))) (scan_json r) else None)
          else if c = 45 \<or> is_digit c then
            (let ds = takeWhile is_digit (if c = 45 then cs else c # cs);
                 k = (if c = 45 then - int (digits_value ds) else int (digits_value ds))
             in if ds = decimal_str (digits_value ds)
                then map_option (Cons (TNumber k)) (scan_json (dropWhile is_digit cs)) else None)
          else None)"
  by pat_completeness auto
termination
proof (relation "measure length", goal_cases)
  case (3 c cs q r)
  then have "dropWhile text_char cs = q # r"
    by simp
  then have "length (q # r) \<le> length cs"
    using length_dropWhile_le [of text_char cs] by simp
  then show ?case
    by simp
qed (simp_all add: less_Suc_eq_le length_dropWhile_le)

declare scan_json.simps(2) [simp del]


section \<open>Parser\<close>

text \<open>The first argument bounds the depth; the number of tokens is enough.\<close>

fun parse_value :: "nat \<Rightarrow> token list \<Rightarrow> (json \<times> token list) option"
and parse_members :: "nat \<Rightarrow> token list \<Rightarrow> ((bytes \<times> json) list \<times> token list) option"
and parse_elements :: "nat \<Rightarrow> token list \<Rightarrow> (json list \<times> token list) option" where
  "parse_value 0 ts = None"
| "parse_value (Suc n) ts =
     (case ts of
        [] \<Rightarrow> None
      | t # r \<Rightarrow>
          (case t of
             TString s \<Rightarrow> Some (JString s, r)
           | TNumber k \<Rightarrow> Some (JNumber k, r)
           | TOpen \<Rightarrow>
               if r \<noteq> [] \<and> hd r = TClose then Some (JObject [], tl r)
               else map_option (\<lambda>(fs, r1). (JObject fs, r1)) (parse_members n r)
           | TOpenArray \<Rightarrow>
               if r \<noteq> [] \<and> hd r = TCloseArray then Some (JArray [], tl r)
               else map_option (\<lambda>(vs, r1). (JArray vs, r1)) (parse_elements n r)
           | _ \<Rightarrow> None))"
| "parse_members 0 ts = None"
| "parse_members (Suc n) ts =
     (case ts of
        TString k # TColon # r \<Rightarrow>
          (case parse_value n r of
             Some (v, TComma # r1) \<Rightarrow> map_option (\<lambda>(fs, r2). ((k, v) # fs, r2)) (parse_members n r1)
           | Some (v, TClose # r1) \<Rightarrow> Some ([(k, v)], r1)
           | _ \<Rightarrow> None)
      | _ \<Rightarrow> None)"
| "parse_elements 0 ts = None"
| "parse_elements (Suc n) ts =
     (case parse_value n ts of
        Some (v, TComma # r1) \<Rightarrow> map_option (\<lambda>(vs, r2). (v # vs, r2)) (parse_elements n r1)
      | Some (v, TCloseArray # r1) \<Rightarrow> Some ([v], r1)
      | _ \<Rightarrow> None)"

definition parse_json :: "bytes \<Rightarrow> json option" where
  "parse_json s =
     (case scan_json s of
        None \<Rightarrow> None
      | Some ts \<Rightarrow> (case parse_value (length ts) ts of Some (v, []) \<Rightarrow> Some v | _ \<Rightarrow> None))"

lemma json_tokens_hd: "\<exists>t ts. json_tokens v = t # ts \<and> t \<notin> {TClose, TCloseArray, TColon, TComma}"
  by (cases v) auto

lemma member_tokens_hd: "fs \<noteq> [] \<Longrightarrow> \<exists>k ts. member_tokens fs = TString k # ts"
  by (cases fs) auto

lemma element_tokens_hd: "vs \<noteq> [] \<Longrightarrow> \<exists>t ts. element_tokens vs = t # ts \<and> t \<noteq> TCloseArray"
  using json_tokens_hd [of "hd vs"] by (cases vs) auto

lemma parse_complete:
  "length (json_tokens v) \<le> n \<Longrightarrow> parse_value n (json_tokens v @ r) = Some (v, r)"
  "fs \<noteq> [] \<Longrightarrow> length (member_tokens fs) < n \<Longrightarrow> parse_members n (member_tokens fs @ TClose # r) = Some (fs, r)"
  "vs \<noteq> [] \<Longrightarrow> length (element_tokens vs) < n \<Longrightarrow> parse_elements n (element_tokens vs @ TCloseArray # r) = Some (vs, r)"
proof (induction v and fs and vs arbitrary: n r and n r and n r rule: json_tokens_member_tokens_element_tokens.induct)
  case (1 s)
  then show ?case by (cases n) simp_all
next
  case (2 k)
  then show ?case by (cases n) simp_all
next
  case (3 fs)
  then show ?case
    using member_tokens_hd [of fs] by (cases n; cases "fs = []") auto
next
  case (4 vs)
  then show ?case
    using element_tokens_hd [of vs] by (cases n; cases "vs = []") auto
next
  case (6 k v fs)
  then show ?case
    by (cases n) (auto split: if_splits)
next
  case (8 v vs)
  then show ?case
    by (cases n) (auto split: if_splits)
qed simp_all

lemma parse_sound:
  "parse_value n ts = Some (v, r) \<Longrightarrow> ts = json_tokens v @ r"
  "parse_members n ts = Some (fs, r) \<Longrightarrow> fs \<noteq> [] \<and> ts = member_tokens fs @ TClose # r"
  "parse_elements n ts = Some (vs, r) \<Longrightarrow> vs \<noteq> [] \<and> ts = element_tokens vs @ TCloseArray # r"
proof (induction n ts and n ts and n ts arbitrary: v r and fs r and vs r rule: parse_value_parse_members_parse_elements.induct)
  case (2 n ts)
  then show ?case
    by (cases ts) (auto split: token.splits if_splits simp: neq_Nil_conv)
next
  case (4 n ts)
  then show ?case
    by (auto split: list.splits token.splits option.splits)
next
  case (6 n ts)
  then show ?case
    by (auto split: list.splits token.splits option.splits)
qed simp_all

text \<open>A text is JSON with a value exactly if its tokens are those of the value.\<close>

lemma parse_json_iff: "parse_json s = Some v \<longleftrightarrow> scan_json s = Some (json_tokens v)"
proof
  assume "scan_json s = Some (json_tokens v)"
  then show "parse_json s = Some v"
    using parse_complete(1) [of v "length (json_tokens v)" "[]"] by (simp add: parse_json_def)
qed (auto simp: parse_json_def dest!: parse_sound(1) split: option.splits list.splits)

lemma parse_json_None: "scan_json s = Some ts \<Longrightarrow> parse_value (length ts) ts = None \<Longrightarrow> parse_json s = None"
  by (simp add: parse_json_def)

lemma json_tokens_prefix:
  assumes "json_tokens v @ r = json_tokens w @ q"
  shows "v = w \<and> r = q"
proof -
  let ?n = "length (json_tokens v) + length (json_tokens w)"
  have "Some (v, r) = parse_value ?n (json_tokens v @ r)"
    by (rule parse_complete(1) [symmetric]) simp
  also have "\<dots> = Some (w, q)"
    unfolding assms by (rule parse_complete(1)) simp
  finally show ?thesis
    by simp
qed

end
