(* ===== verification/Subcluster.thy ===== *)
theory Subcluster
  imports Group_Register
begin

text \<open>
  \<open>src/subcluster_blockchain.cpp\<close>: the blockchain of a subcluster, which lists its administrators, nodes
  and blockchains, with its records from \<open>src/blockchain_gradido_def.h\<close>.
\<close>

section \<open>Records\<close>

definition SB_ENDPOINT_LENGTH :: nat where "SB_ENDPOINT_LENGTH = 128"

datatype SbNodeType = ORDERING | GRADIDO | LOGIN | BACKUP | LOGGER | PINGER

fun node_type_code :: "SbNodeType \<Rightarrow> u8" where
  "node_type_code ORDERING = 1"
| "node_type_code GRADIDO = 2"
| "node_type_code LOGIN = 3"
| "node_type_code BACKUP = 4"
| "node_type_code LOGGER = 5"
| "node_type_code PINGER = 6"

record SbHeader =
  subcluster_name :: bytes
  initial_key_type :: u8
  header_pub_key :: bytes
  ca_pub_key_chain_length :: u8

record SbAdmin =
  admin_pub_key :: bytes
  admin_name :: bytes
  admin_email :: bytes

record SbNode =
  node_type :: u8
  node_pub_key :: bytes
  endpoint :: bytes

record SbNodeBlockchain =
  nb_node_pub_key :: bytes
  nb_blockchain_pub_key :: bytes
  nb_alias :: bytes

datatype SbTransactionResult =
    SB_SUCCESS | DUPLICATE_PUB_KEY | BAD_ADMIN_SIGNATURE | NON_MAJORITY | DUPLICATE_ALIAS
  | NODE_ALREADY_ADDED_TO_BLOCKCHAIN

fun sb_result_code :: "SbTransactionResult \<Rightarrow> u8" where
  "sb_result_code SB_SUCCESS = 0"
| "sb_result_code DUPLICATE_PUB_KEY = 1"
| "sb_result_code BAD_ADMIN_SIGNATURE = 2"
| "sb_result_code NON_MAJORITY = 3"
| "sb_result_code DUPLICATE_ALIAS = 4"
| "sb_result_code NODE_ALREADY_ADDED_TO_BLOCKCHAIN = 5"

text \<open>The union of \<open>SbRecord\<close>, selected by \<open>record_type\<close>; a key entity is its bytes.\<close>

datatype SbBody =
    SB_HEADER SbHeader
  | SB_ADD_ADMIN SbAdmin
  | SB_ADD_NODE SbNode
  | ENABLE_ADMIN bytes
  | DISABLE_ADMIN bytes
  | ENABLE_NODE bytes
  | DISABLE_NODE bytes
  | ADD_BLOCKCHAIN bytes
  | ADD_NODE_TO_BLOCKCHAIN SbNodeBlockchain
  | REMOVE_NODE_FROM_BLOCKCHAIN SbNodeBlockchain
  | SB_SIGNATURES "Signature list"
  | sb_other_record u8

record SbRecord =
  sb_version_number :: u32
  sb_hedera_transaction :: HederaTransaction
  sb_memo :: bytes
  sb_signature_count :: u8
  sb_result :: u8
  sb_body :: SbBody


section \<open>The indexes\<close>

text \<open>
  \<open>has_notifier\<close> tells whether a notifier has been set, \<open>notifications\<close> counts the tasks it has created.
\<close>

record SubclusterBlockchain =
  sb_first_good_validation :: bool
  initial_key :: bytes
  admins :: "(bytes, SbAdmin) fmap"
  nodes :: "(bytes, SbNode) fmap"
  nodes_by_type :: "(u8, (bytes, SbNode) fmap) fmap"
  blockchains :: "(bytes, bytes) fmap"
  has_notifier :: bool
  notifications :: nat

definition SubclusterBlockchain_new :: SubclusterBlockchain where
  "SubclusterBlockchain_new =
     \<lparr>sb_first_good_validation = True, initial_key = [], admins = fmempty, nodes = fmempty,
      nodes_by_type = fmempty, blockchains = fmempty, has_notifier = False, notifications = 0\<rparr>"

definition sb_init :: "SubclusterBlockchain \<Rightarrow> SubclusterBlockchain" where
  "sb_init c =
     c\<lparr>nodes_by_type := fold (\<lambda>t. std_insert (node_type_code t) fmempty)
          [ORDERING, GRADIDO, LOGIN, BACKUP, LOGGER, PINGER] (nodes_by_type c)\<rparr>"

text \<open>
  A node of a type that is not in the table dereferences the end of the table; the node has already been
  entered into the list of all nodes, but there is no defined result.
\<close>

definition do_add_index_data :: "SbRecord \<Rightarrow> SubclusterBlockchain \<Rightarrow> SubclusterBlockchain res" where
  "do_add_index_data pp c =
     (case sb_body pp of
        SB_HEADER h \<Rightarrow> Inr (c\<lparr>initial_key := header_pub_key h\<rparr>)
      | SB_ADD_ADMIN a \<Rightarrow> Inr (c\<lparr>admins := std_insert (admin_pub_key a) a (admins c)\<rparr>)
      | SB_ADD_NODE n \<Rightarrow>
          (let c1 = c\<lparr>nodes := std_insert (node_pub_key n) n (nodes c)\<rparr>
           in case fmlookup (nodes_by_type c) (node_type n) of
                None \<Rightarrow> Inl (Undefined ''end iterator'')
              | Some m \<Rightarrow>
                  Inr (c1\<lparr>nodes_by_type :=
                        fmupd (node_type n) (std_insert (node_pub_key n) n m) (nodes_by_type c)\<rparr>))
      | ADD_BLOCKCHAIN k \<Rightarrow> Inr (c\<lparr>blockchains := std_insert k k (blockchains c)\<rparr>)
      | _ \<Rightarrow> Inr c)"

definition sb_index_record :: "nat \<Rightarrow> SbRecord \<Rightarrow> SubclusterBlockchain \<Rightarrow> (bool \<times> SubclusterBlockchain) res" where
  "sb_index_record n pp c =
     (if sb_result pp \<noteq> sb_result_code SB_SUCCESS then Inr (True, c)
      else bind_res (do_add_index_data pp c) (\<lambda>c1. Inr (True, c1)))"

definition sb_add_index_data ::
  "nat \<Rightarrow> nat \<Rightarrow> SbRecord Blockchain \<Rightarrow> SubclusterBlockchain
     \<Rightarrow> (bool \<times> SbRecord Blockchain \<times> SubclusterBlockchain) res" where
  "sb_add_index_data now indexed s c =
     index_blocks sb_index_record now [indexed..<get_checksum_valid_block_count s] s c"

definition sb_latest :: "nat \<Rightarrow> SbRecord Blockchain \<Rightarrow> (u64 option \<times> SbRecord Blockchain) res" where
  "sb_latest now s =
     (if get_rec_count s = 0 then Inr (None, s)
      else bind_res (get_record GRADIDO_BLOCK_SIZE now
             (if get_rec_count s = 1 then 2 ^ 64 - 1 else get_rec_count s - 2) s) (\<lambda>((r, _), s1).
        case r of
          None \<Rightarrow> Inl (Undefined ''null pointer'')
        | Some (PAYLOAD p) \<Rightarrow> Inr (Some (sequenceNumber (sb_hedera_transaction p)), s1)
        | _ \<Rightarrow> inactive_member))"

definition sb_transaction_id :: "SbRecord list \<Rightarrow> u64 res" where
  "sb_transaction_id rs =
     (case rs of [] \<Rightarrow> Inl (Undefined ''empty buffer'')
               | r # _ \<Rightarrow> Inr (sequenceNumber (sb_hedera_transaction r)))"

definition sb_check :: "SbRecord \<Rightarrow> SubclusterBlockchain \<Rightarrow> SbTransactionResult" where
  "sb_check r c =
     (case sb_body r of
        SB_ADD_ADMIN a \<Rightarrow> (if fmlookup (admins c) (admin_pub_key a) \<noteq> None then DUPLICATE_PUB_KEY else SB_SUCCESS)
      | _ \<Rightarrow> SB_SUCCESS)"

definition sb_calc ::
  "nat \<Rightarrow> SbRecord list \<Rightarrow> SubclusterBlockchain \<Rightarrow> (bool \<times> SbRecord list \<times> SubclusterBlockchain) res" where
  "sb_calc n rs c =
     (case rs of
        [] \<Rightarrow> Inr (False, [], c)
      | r # rest \<Rightarrow>
          (let result = sb_check r c;
               r' = r\<lparr>sb_result := sb_result_code result\<rparr>
           in if result = SB_SUCCESS then
                bind_res (do_add_index_data r' c) (\<lambda>c1.
                  Inr (True, r' # rest,
                       if has_notifier c1 then c1\<lparr>notifications := notifications c1 + 1\<rparr> else c1))
              else Inr (True, r' # rest, c)))"

text \<open>
  \<open>clear_indexes\<close>: the loop over \<open>nodes_by_type\<close> clears a copy of each entry, so the table stays as it is;
  the initial key is not cleared either.
\<close>

definition sb_clear :: "SubclusterBlockchain \<Rightarrow> SubclusterBlockchain" where
  "sb_clear c = c\<lparr>admins := fmempty, nodes := fmempty, blockchains := fmempty\<rparr>"

definition sb_ready :: "SubclusterBlockchain \<Rightarrow> request list \<times> SubclusterBlockchain" where
  "sb_ready c =
     (if sb_first_good_validation c
      then ([push_task ContinueInitTask 0], c\<lparr>sb_first_good_validation := False\<rparr>) else ([], c))"

definition on_succ_append :: "bool \<Rightarrow> SubclusterBlockchain \<Rightarrow> SubclusterBlockchain" where
  "on_succ_append n c = c\<lparr>has_notifier := n\<rparr>"

definition get_logger_nodes :: "SubclusterBlockchain \<Rightarrow> bytes list res" where
  "get_logger_nodes c =
     (case fmlookup (nodes_by_type c) (node_type_code LOGGER) of
        None \<Rightarrow> Inl (Undefined ''end iterator'')
      | Some m \<Rightarrow> Inr (map (\<lambda>k. case fmlookup m k of Some n \<Rightarrow> node_pub_key n | None \<Rightarrow> k) (std_keys m)))"

text \<open>The endpoints of all nodes, in the order of their keys, each up to its terminator.\<close>

fun collect_endpoints :: "bytes list \<Rightarrow> (bytes, SbNode) fmap \<Rightarrow> bytes list res" where
  "collect_endpoints [] m = Inr []"
| "collect_endpoints (k # ks) m =
     (case fmlookup m k of
        None \<Rightarrow> collect_endpoints ks m
      | Some n \<Rightarrow>
          bind_res (c_str (endpoint n)) (\<lambda>e.
            bind_res (collect_endpoints ks m) (\<lambda>es. Inr (e # es))))"

definition get_all_endpoints :: "SubclusterBlockchain \<Rightarrow> bytes list res" where
  "get_all_endpoints c = collect_endpoints (std_keys (nodes c)) (nodes c)"

definition sb_child ::
  "(bytes \<Rightarrow> bytes) \<Rightarrow> (SbRecord Record \<Rightarrow> bytes) \<Rightarrow> (bytes \<Rightarrow> SbRecord) \<Rightarrow> nat \<Rightarrow> nat
     \<Rightarrow> (SbRecord, SubclusterBlockchain) child" where
  "sb_child sha img dec sz batch =
     \<lparr>child_latest = sb_latest, child_id = sb_transaction_id, child_calc = sb_calc, child_clear = sb_clear,
      child_index = sb_add_index_data, child_ready = sb_ready, child_valid = (\<lambda>_. True), chain_sha = sha,
      chain_img = img, sizeof_T = sz, from_bytes = dec, batch_size = batch, topic_reset_allowed = False\<rparr>"


section \<open>The subcluster fulfils the contract of the common code\<close>

definition sb_latest_of :: "SbRecord list \<Rightarrow> u64 option" where
  "sb_latest_of ps = (if ps = [] then None else Some (sequenceNumber (sb_hedera_transaction (last ps))))"

lemma sb_child_fields [simp]:
  "child_latest (sb_child sha img dec sz batch) = sb_latest"
  "child_id (sb_child sha img dec sz batch) = sb_transaction_id"
  "child_calc (sb_child sha img dec sz batch) = sb_calc"
  "child_clear (sb_child sha img dec sz batch) = sb_clear"
  "child_ready (sb_child sha img dec sz batch) = sb_ready"
  "child_valid (sb_child sha img dec sz batch) rs"
  "batch_size (sb_child sha img dec sz batch) = batch"
  by (simp_all add: sb_child_def)

interpretation sbc: chain_child "sb_child sha img dec sz batch" sb_latest_of "\<lambda>_. True"
  for sha img dec sz batch
proof
  fix s :: "SbRecord Blockchain" and ps now
  assume st: "stores GRADIDO_BLOCK_SIZE s ps"
  show "\<exists>s'. child_latest (sb_child sha img dec sz batch) now s = Inr (sb_latest_of ps, s')
      \<and> stores GRADIDO_BLOCK_SIZE s' ps"
  proof (cases "ps = []")
    case True
    then show ?thesis
      using st storesD(1,4) [OF st] by (auto simp: sb_latest_def sb_latest_of_def get_rec_count_def)
  next
    case False
    then have count: "rec_count s = payload_index GRADIDO_BLOCK_SIZE (length ps - 1) + 2"
      using storesD(1,4) [OF st] payload_index_last [of GRADIDO_BLOCK_SIZE ps] by simp
    obtain s' where s': "get_record GRADIDO_BLOCK_SIZE now (payload_index GRADIDO_BLOCK_SIZE (length ps - 1)) s
        = Inr ((Some (PAYLOAD (ps ! (length ps - 1))), OK), s')" "stores GRADIDO_BLOCK_SIZE s' ps"
      by (rule get_record_ok [OF st, of "length ps - 1" now]) (use False in simp_all)
    with count False show ?thesis
      by (auto simp: sb_latest_def sb_latest_of_def get_rec_count_def last_conv_nth)
  qed
next
  show "child_valid (sb_child sha img dec sz batch) rs" for rs
    by simp
next
  show "quiet (sb_child sha img dec sz batch)"
    by (simp add: quiet_def sb_ready_def)
qed

section \<open>Properties\<close>

text \<open>A running node that calculates a sequence of records, one batch each.\<close>

fun sb_live :: "SbRecord list \<Rightarrow> SubclusterBlockchain \<Rightarrow> (SbRecord list \<times> SubclusterBlockchain) res" where
  "sb_live [] c = Inr ([], c)"
| "sb_live (r # rs) c =
     bind_res (sb_calc 0 [r] c) (\<lambda>(_, r', c1). bind_res (sb_live rs c1) (\<lambda>(rs', c2). Inr (r' @ rs', c2)))"

lemma do_add_index_data_notifications:
  "do_add_index_data pp (c\<lparr>notifications := k\<rparr>) =
     bind_res (do_add_index_data pp c) (\<lambda>c1. Inr (c1\<lparr>notifications := k\<rparr>))"
  by (auto simp: do_add_index_data_def Let_def split: SbBody.split option.split)

lemma sb_calc_index:
  assumes "sb_calc n [r] c = Inr (go_on, rs', c')"
  obtains r' where "rs' = [r']" "sb_index_record m r' (c\<lparr>notifications := k\<rparr>) = Inr (True, c'\<lparr>notifications := k\<rparr>)"
proof (cases "sb_check r c = SB_SUCCESS")
  case True
  define r' where "r' = r\<lparr>sb_result := sb_result_code SB_SUCCESS\<rparr>"
  obtain c1 where "do_add_index_data r' c = Inr c1" "rs' = [r']"
      "c' = (if has_notifier c1 then c1\<lparr>notifications := notifications c1 + 1\<rparr> else c1)"
    using assms True by (auto simp: sb_calc_def Let_def bind_res_Inr_iff r'_def)
  then show thesis
    by (intro that [of r']) (simp_all add: sb_index_record_def do_add_index_data_notifications r'_def)
next
  case False
  then have "sb_check r c = DUPLICATE_PUB_KEY"
    by (auto simp: sb_check_def split: SbBody.splits if_splits)
  then show thesis
    using assms by (intro that) (auto simp: sb_calc_def sb_index_record_def)
qed

lemma sb_live_replay:
  assumes "sb_live rs c = Inr (rs', c')" "map snd xs = rs'"
  shows "fold_index sb_index_record xs (c\<lparr>notifications := k\<rparr>) = Inr (True, c'\<lparr>notifications := k\<rparr>)"
  using assms
proof (induction rs arbitrary: c rs' xs)
  case (Cons r rs)
  obtain go_on r1 c1 rs1 where calc: "sb_calc 0 [r] c = Inr (go_on, r1, c1)"
    and rest: "sb_live rs c1 = Inr (rs1, c')" "rs' = r1 @ rs1"
    using Cons.prems(1) by (auto simp: bind_res_Inr_iff)
  have "r1 \<noteq> []"
    by (rule sb_calc_index [OF calc, of 0 0]) simp
  then obtain x ys where xs: "xs = x # ys"
    using Cons.prems(2) rest(2) by (cases xs) auto
  obtain r' where "r1 = [r']"
      "sb_index_record (fst x) r' (c\<lparr>notifications := k\<rparr>) = Inr (True, c1\<lparr>notifications := k\<rparr>)"
    by (rule sb_calc_index [OF calc])
  then show ?case
    using Cons.IH [OF rest(1), of ys] Cons.prems(2) rest(2) xs by (cases x) simp
qed simp


definition some_admin :: SbRecord where
  "some_admin = \<lparr>sb_version_number = 1, sb_hedera_transaction = HederaTransaction_zero, sb_memo = [],
     sb_signature_count = 0, sb_result = 0,
     sb_body = SB_ADD_ADMIN \<lparr>admin_pub_key = [1], admin_name = [], admin_email = []\<rparr>\<rparr>"


text \<open>
  A subcluster blockchain without records never gets its first one: every batch resets the validation
  and goes back into the queue.
\<close>

lemma first_record_never_appended:
  assumes "stores GRADIDO_BLOCK_SIZE (storage b) []" "buff batch = Some rs" "rs \<noteq> []" "inbound b = []"
  shows "\<exists>b'. continue_round_grpr (sb_child sha img dec sz n) now batch b = Inr (False, b') \<and>
    chain_state b' = INITIAL \<and> inbound b' = [batch]"
proof -
  obtain s where "sb_latest now (storage b) = Inr (None, s)"
    using sbc.latest_reads [OF assms(1), where now = now and sha = sha and img = img and dec = dec and sz = sz
        and batch = n] by (auto simp: sb_latest_of_def)
  then show ?thesis
    using assms(2-4)
    by (auto simp: continue_round_grpr_def neq_Nil_conv sb_transaction_id_def reset_validation_def send_def)
qed

text \<open>After the indexes have been cleared the logger nodes are still listed.\<close>

lemma logger_nodes_not_cleared: "get_logger_nodes (sb_clear c) = get_logger_nodes c"
  by (simp add: get_logger_nodes_def sb_clear_def)

end
