(* ===== verification/Json_Dump.thy ===== *)
theory Json_Dump
  imports Json_Text Record_Layout Subcluster
begin

text \<open>
  Printing of records as JSON: \<open>dump_transaction_in_json\<close> of \<open>src/utils.cpp\<close> for the three kinds of records
  and its frame in \<open>src/utils.h\<close>. The text that goes to the stream is the result; names of
  enumerations are chosen by \<open>switch\<close> statements that return nothing for other values. The theorems
  compare the text with the values of \<open>Json_Text\<close>.
\<close>

section \<open>Names of enumerations\<close>

text \<open>A \<open>switch\<close> that returns a string in each case and has no default.\<close>

definition switch_str :: "(u8 \<times> string) list \<Rightarrow> u8 \<Rightarrow> bytes res" where
  "switch_str tab c =
     (case map_of tab c of None \<Rightarrow> Inl (Undefined ''no return statement'') | Some s \<Rightarrow> Inr (bytes_of s))"

definition transaction_type_str :: "u8 \<Rightarrow> bytes res" where
  "transaction_type_str = switch_str
     [(transaction_type_code GRADIDO_CREATION, ''GRADIDO_CREATION''),
      (transaction_type_code ADD_GROUP_FRIEND, ''ADD_GROUP_FRIEND''),
      (transaction_type_code REMOVE_GROUP_FRIEND, ''REMOVE_GROUP_FRIEND''),
      (transaction_type_code ADD_USER, ''ADD_USER''),
      (transaction_type_code MOVE_USER_INBOUND, ''MOVE_USER_INBOUND''),
      (transaction_type_code MOVE_USER_OUTBOUND, ''MOVE_USER_OUTBOUND''),
      (transaction_type_code LOCAL_TRANSFER, ''LOCAL_TRANSFER''),
      (transaction_type_code INBOUND_TRANSFER, ''INBOUND_TRANSFER''),
      (transaction_type_code OUTBOUND_TRANSFER, ''OUTBOUND_TRANSFER'')]"

definition transaction_result_str :: "u8 \<Rightarrow> bytes res" where
  "transaction_result_str = switch_str
     [(result_code SUCCESS, ''SUCCESS''), (result_code UNKNOWN, ''UNKNOWN''),
      (result_code NOT_ENOUGH_GRADIDOS, ''NOT_ENOUGH_GRADIDOS''),
      (result_code UNKNOWN_LOCAL_USER, ''UNKNOWN_LOCAL_USER''),
      (result_code UNKNOWN_REMOTE_USER, ''UNKNOWN_REMOTE_USER''),
      (result_code UNKNOWN_GROUP, ''UNKNOWN_GROUP''),
      (result_code OUTBOUND_TRANSACTION_FAILED, ''OUTBOUND_TRANSACTION_FAILED''),
      (result_code USER_ALREADY_EXISTS, ''USER_ALREADY_EXISTS''),
      (result_code GROUP_IS_ALREADY_FRIEND, ''GROUP_IS_ALREADY_FRIEND''),
      (result_code GROUP_IS_NOT_FRIEND, ''GROUP_IS_NOT_FRIEND'')]"

definition bad_message_str :: "u8 \<Rightarrow> bytes res" where
  "bad_message_str = switch_str
     [(1, ''UNDESERIALIZABLE''), (2, ''INVALID_SIGNATURE''), (3, ''MISSING_SIGNATURE''), (4, ''TOO_LARGE''),
      (5, ''NEGATIVE_AMOUNT''), (6, ''BAD_MEMO_CHARACTER''), (7, ''BAD_ALIAS_CHARACTER''),
      (8, ''KEY_SIZE_NOT_CORRECT'')]"

definition gradido_record_str :: "u8 \<Rightarrow> bytes res" where
  "gradido_record_str = switch_str
     [(0, ''BLANK''), (1, ''GRADIDO_TRANSACTION''), (2, ''MEMO''), (3, ''SIGNATURES''),
      (4, ''STRUCTURALLY_BAD_MESSAGE''), (5, ''RAW_MESSAGE'')]"

definition register_record_str :: "u8 \<Rightarrow> bytes res" where
  "register_record_str = switch_str
     [(1, ''GROUP_RECORD''), (2, ''GR_STRUCTURALLY_BAD_MESSAGE''), (3, ''GR_RAW_MESSAGE'')]"

definition sb_record_str :: "u8 \<Rightarrow> bytes res" where
  "sb_record_str = switch_str
     [(1, ''SB_HEADER''), (2, ''SB_ADD_ADMIN''), (3, ''SB_ADD_NODE''), (4, ''ENABLE_ADMIN''), (5, ''DISABLE_ADMIN''),
      (6, ''ENABLE_NODE''), (7, ''DISABLE_NODE''), (8, ''ADD_BLOCKCHAIN''), (9, ''ADD_NODE_TO_BLOCKCHAIN''),
      (10, ''REMOVE_NODE_FROM_BLOCKCHAIN''), (11, ''SIGNATURES'')]"

definition sb_result_str :: "u8 \<Rightarrow> bytes res" where
  "sb_result_str = switch_str
     [(sb_result_code SB_SUCCESS, ''SUCCESS''), (sb_result_code DUPLICATE_PUB_KEY, ''DUPLICATE_PUB_KEY''),
      (sb_result_code BAD_ADMIN_SIGNATURE, ''BAD_ADMIN_SIGNATURE''), (sb_result_code NON_MAJORITY, ''NON_MAJORITY''),
      (sb_result_code DUPLICATE_ALIAS, ''DUPLICATE_ALIAS''),
      (sb_result_code NODE_ALREADY_ADDED_TO_BLOCKCHAIN, ''NODE_ALREADY_ADDED_TO_BLOCKCHAIN'')]"

definition node_type_str :: "u8 \<Rightarrow> bytes res" where
  "node_type_str = switch_str
     [(node_type_code ORDERING, ''ORDERING''), (node_type_code GRADIDO, ''GRADIDO''), (node_type_code LOGIN, ''LOGIN''),
      (node_type_code BACKUP, ''BACKUP''), (node_type_code LOGGER, ''LOGGER''), (node_type_code PINGER, ''PINGER'')]"

definition key_type_str :: "u8 \<Rightarrow> bytes res" where
  "key_type_str = switch_str [(1, ''SELF_SIGNED''), (2, ''CA_SIGNED'')]"


section \<open>Parts of the text\<close>

text \<open>An indented key with its colon, a string in quotes, and the ends of lines.\<close>

definition key :: "nat \<Rightarrow> string \<Rightarrow> bytes" where
  "key n k = replicate n 32 @ 34 # bytes_of k @ [34, 58, 32]"

definition quoted :: "bytes \<Rightarrow> bytes" where
  "quoted s = 34 # s @ [34]"

definition endl :: bytes where "endl = [10]"
definition comma :: bytes where "comma = [44, 10]"
definition comma_sp :: bytes where "comma_sp = [44, 32, 10]"
definition brace :: bytes where "brace = [123, 10]"

definition closing :: "nat \<Rightarrow> bytes" where
  "closing n = replicate n 32 @ [125]"

text \<open>The parts that recur at different depths; \<open>n\<close> is the indentation.\<close>

definition dump_value :: "nat \<Rightarrow> string \<Rightarrow> GradidoValue \<Rightarrow> bytes" where
  "dump_value n k v =
     key n k @ brace @
     key (n + 2) ''amount'' @ decimal_str (unat (amount v)) @ comma_sp @
     key (n + 2) ''decimal_amount'' @ decimal_str (unat (decimal_amount v)) @ endl @
     closing n"

definition dump_timestamp :: "nat \<Rightarrow> string \<Rightarrow> HederaTimestamp \<Rightarrow> bytes" where
  "dump_timestamp n k ts =
     key n k @ brace @
     key (n + 2) ''seconds'' @ show_int (sint (seconds ts)) @ comma_sp @
     key (n + 2) ''nanos'' @ show_int (sint (nanos ts)) @ endl @
     closing n"

definition dump_hedera :: "nat \<Rightarrow> HederaTransaction \<Rightarrow> bytes res" where
  "dump_hedera n h =
     bind_res (dump_in_hex (runningHash h)) (\<lambda>running_hash.
       Inr (key n ''hedera_transaction'' @ brace @
            dump_timestamp (n + 2) ''consensusTimestamp'' (consensusTimestamp h) @ comma @
            key (n + 2) ''runningHash'' @ quoted running_hash @ comma_sp @
            key (n + 2) ''sequenceNumber'' @ decimal_str (unat (sequenceNumber h)) @ comma_sp @
            key (n + 2) ''runningHashVersion'' @ decimal_str (unat (runningHashVersion h)) @ endl @
            closing n))"

definition dump_signature :: "nat \<Rightarrow> Signature \<Rightarrow> bytes res" where
  "dump_signature n s =
     bind_res (dump_in_hex (sig_pubkey s)) (\<lambda>pubkey.
     bind_res (dump_in_hex (sig_signature s)) (\<lambda>signature.
       Inr (key (n + 2) ''pubkey'' @ quoted pubkey @ comma_sp @
            key (n + 2) ''signature'' @ quoted signature @ endl @
            closing n)))"

definition dump_user_transfer :: "nat \<Rightarrow> string \<Rightarrow> UserTransfer \<Rightarrow> bytes res" where
  "dump_user_transfer n k u =
     bind_res (dump_in_hex (user u)) (\<lambda>uid.
       Inr (key n k @ brace @
            key (n + 2) ''user'' @ quoted uid @ comma_sp @
            dump_value (n + 2) ''new_balance'' (new_balance u) @ comma @
            key (n + 2) ''prev_transfer_rec_num'' @ decimal_str (unat (prev_transfer_rec_num u)) @ endl @
            closing n))"

definition dump_user :: "nat \<Rightarrow> string \<Rightarrow> bytes \<Rightarrow> bytes res" where
  "dump_user n k u =
     bind_res (dump_in_hex u) (\<lambda>uid.
       Inr (key n k @ brace @ key (n + 2) ''user'' @ quoted uid @ endl @ closing n))"


section \<open>Records of a group\<close>

definition dump_group :: "string \<Rightarrow> bytes \<Rightarrow> bytes res" where
  "dump_group k g =
     bind_res (c_str g) (\<lambda>g1.
       Inr (key 4 k @ brace @ key 6 ''group'' @ quoted g1 @ endl @ closing 4 @ comma))"

definition dump_move_user :: "string \<Rightarrow> MoveUser \<Rightarrow> bytes res" where
  "dump_move_user k m =
     bind_res (dump_in_hex (mu_user m)) (\<lambda>uid.
     bind_res (c_str (other_group m)) (\<lambda>g.
       Inr (key 4 k @ brace @
            key 6 ''user'' @ quoted uid @ comma @
            key 6 ''other_group'' @ quoted g @ comma @
            dump_timestamp 6 ''paired_transaction_id'' (paired_transaction_id m) @ endl @
            closing 4 @ comma)))"

fun dump_body :: "TransactionBody \<Rightarrow> bytes res" where
  "dump_body (gradido_creation v) =
     bind_res (dump_in_hex (user v)) (\<lambda>uid.
       Inr (key 4 ''gradido_creation'' @ brace @
            key 6 ''user'' @ quoted uid @ comma_sp @
            dump_value 6 ''new_balance'' (new_balance v) @ comma @
            key 6 ''prev_transfer_rec_num'' @ decimal_str (unat (prev_transfer_rec_num v)) @ comma_sp @
            dump_value 6 ''amount'' (creation_amount v) @ endl @
            closing 4 @ comma))"
| "dump_body (add_group_friend g) = dump_group ''add_group_friend'' g"
| "dump_body (remove_group_friend g) = dump_group ''remove_group_friend'' g"
| "dump_body (add_user u) =
     bind_res (dump_user 4 ''add_user'' u) (\<lambda>t. Inr (t @ comma))"
| "dump_body (move_user_inbound m) = dump_move_user ''move_user_inbound'' m"
| "dump_body (move_user_outbound m) = dump_move_user ''move_user_outbound'' m"
| "dump_body (local_transfer tt) =
     bind_res (dump_user_transfer 6 ''sender'' (lt_sender tt)) (\<lambda>sender.
     bind_res (dump_user_transfer 6 ''receiver'' (lt_receiver tt)) (\<lambda>receiver.
       Inr (key 4 ''local_transfer'' @ brace @ sender @ comma @ receiver @ comma @
            dump_value 6 ''amount'' (lt_amount tt) @ endl @ closing 4 @ comma)))"
| "dump_body (inbound_transfer tt) =
     bind_res (dump_user 6 ''sender'' (it_sender tt)) (\<lambda>sender.
     bind_res (dump_user_transfer 6 ''receiver'' (it_receiver tt)) (\<lambda>receiver.
     bind_res (c_str (other_group tt)) (\<lambda>g.
       Inr (key 4 ''inbound_transfer'' @ brace @ sender @ comma @ receiver @ comma @
            dump_value 6 ''amount'' (it_amount tt) @ comma @
            key 6 ''other_group'' @ quoted g @ comma @
            dump_timestamp 6 ''paired_transaction_id'' (paired_transaction_id tt) @ endl @ closing 4 @ comma))))"
| "dump_body (outbound_transfer tt) =
     bind_res (dump_user_transfer 6 ''sender'' (ot_sender tt)) (\<lambda>sender.
     bind_res (dump_user 6 ''receiver'' (ot_receiver tt)) (\<lambda>receiver.
     bind_res (c_str (other_group tt)) (\<lambda>g.
       Inr (key 4 ''outbound_transfer'' @ brace @ sender @ comma @ receiver @ comma @
            dump_value 6 ''amount'' (ot_amount tt) @ comma @
            key 6 ''other_group'' @ quoted g @ comma @
            dump_timestamp 6 ''paired_transaction_id'' (paired_transaction_id tt) @ endl @ closing 4 @ comma))))"
| "dump_body _ = Inr []"

text \<open>A memo that fills its field has no terminating null character.\<close>

definition memo_str :: "bytes \<Rightarrow> bytes res" where
  "memo_str m = (if m ! (MEMO_MAIN_SIZE - 1) = 0 then c_str m else Inr (take MEMO_MAIN_SIZE m))"

definition dump_transaction :: "Transaction \<Rightarrow> bytes res" where
  "dump_transaction u =
     bind_res (memo_str (memo u)) (\<lambda>m.
     bind_res (dump_signature 4 (tr_signature u)) (\<lambda>sig.
     bind_res (dump_hedera 4 (hedera_transaction u)) (\<lambda>hedera.
     bind_res (transaction_type_str (transaction_type (body u))) (\<lambda>ttype.
     bind_res (dump_body (body u)) (\<lambda>b.
     bind_res (transaction_result_str (result u)) (\<lambda>result_str.
       Inr (key 2 ''transaction'' @ brace @
            key 4 ''version_number'' @ show_int (sint (version_number u)) @ comma_sp @
            key 4 ''signature'' @ brace @ sig @ comma_sp @
            key 4 ''signature_count'' @ decimal_str (unat (signature_count u)) @ comma_sp @
            hedera @ comma @
            key 4 ''transaction_type'' @ quoted ttype @ comma_sp @
            b @
            key 4 ''result'' @ quoted result_str @ comma_sp @
            key 4 ''parts'' @ show_int (sint (parts u)) @ comma_sp @
            key 4 ''memo'' @ quoted m @ endl @
            closing 2 @ endl)))))))"

text \<open>
  The loop over the signatures of a record ends with the first one that is taken to be empty. The inner loop,
  meant to look at all bytes of a key, looks at its first byte each time.
\<close>

fun dump_signatures :: "string \<Rightarrow> Signature list \<Rightarrow> bytes res" where
  "dump_signatures k [] = Inr []"
| "dump_signatures k (s # ss) =
     (if sig_pubkey s ! 0 = 0 then Inr []
      else bind_res (dump_signature 4 s) (\<lambda>t.
        bind_res (dump_signatures k ss) (\<lambda>rest.
          Inr (key 2 k @ [91, 10] @ replicate 4 32 @ brace @ t @ endl @ [32, 32, 93, 10] @ rest))))"

definition dump_bad_message :: "StructurallyBadMessage \<Rightarrow> bytes res" where
  "dump_bad_message u =
     bind_res (dump_hedera 4 (bad_hedera_transaction u)) (\<lambda>hedera.
     bind_res (transaction_result_str (bad_result u)) (\<lambda>result_str.
       Inr (key 4 ''result'' @ quoted result_str @ comma_sp @
            key 4 ''parts'' @ show_int (sint (parts u)) @ comma_sp @
            key 4 ''length'' @ decimal_str (unat (bad_length u)) @ comma_sp @
            hedera @ endl)))"

fun dump_contents :: "GradidoRecord \<Rightarrow> bytes res" where
  "dump_contents (GRADIDO_TRANSACTION u) = dump_transaction u"
| "dump_contents (MEMO m) = bind_res (c_str m) (\<lambda>m1. Inr (key 2 ''memo'' @ quoted m1 @ [32, 10]))"
| "dump_contents (SIGNATURES ss) = dump_signatures ''signature'' ss"
| "dump_contents (STRUCTURALLY_BAD_MESSAGE u) = dump_bad_message u"
| "dump_contents _ = Inr []"

definition dump_gradido_record :: "GradidoRecord \<Rightarrow> bytes res" where
  "dump_gradido_record t =
     bind_res (gradido_record_str (record_type t)) (\<lambda>rt.
     bind_res (dump_contents t) (\<lambda>c.
       Inr (brace @ key 2 ''record_type'' @ quoted rt @ comma_sp @ c @ [125, 10])))"


section \<open>Records of the register and of a subcluster\<close>

definition dump_register_record :: "GroupRegisterRecord \<Rightarrow> bytes res" where
  "dump_register_record t =
     bind_res (register_record_str (gr_record_type t)) (\<lambda>rt.
       case t of
         GROUP_RECORD u \<Rightarrow>
           bind_res (c_str (gr_alias u)) (\<lambda>alias.
           bind_res (dump_hedera 4 (gr_hedera_transaction u)) (\<lambda>hedera.
           bind_res (dump_signature 4 (gr_signature u)) (\<lambda>sig.
             Inr (brace @
                  key 4 ''record_type'' @ quoted rt @ comma @
                  key 4 ''alias'' @ quoted alias @ comma @
                  key 4 ''topic_id'' @ brace @
                  key 8 ''shardNum'' @ show_int (sint (shardNum (topic_id u))) @ comma @
                  key 8 ''realmNum'' @ show_int (sint (realmNum (topic_id u))) @ comma @
                  key 8 ''topicNum'' @ show_int (sint (topicNum (topic_id u))) @ endl @
                  closing 4 @ comma @
                  key 4 ''success'' @ decimal_str (if success u then 1 else 0) @ comma @
                  hedera @ comma @
                  key 4 ''signature'' @ brace @ sig @ [32, 10] @
                  [125, 10]))))
       | _ \<Rightarrow> inactive_member)"

fun sb_record_type :: "SbBody \<Rightarrow> u8" where
  "sb_record_type (SB_HEADER _) = 1"
| "sb_record_type (SB_ADD_ADMIN _) = 2"
| "sb_record_type (SB_ADD_NODE _) = 3"
| "sb_record_type (ENABLE_ADMIN _) = 4"
| "sb_record_type (DISABLE_ADMIN _) = 5"
| "sb_record_type (ENABLE_NODE _) = 6"
| "sb_record_type (DISABLE_NODE _) = 7"
| "sb_record_type (ADD_BLOCKCHAIN _) = 8"
| "sb_record_type (ADD_NODE_TO_BLOCKCHAIN _) = 9"
| "sb_record_type (REMOVE_NODE_FROM_BLOCKCHAIN _) = 10"
| "sb_record_type (SB_SIGNATURES _) = 11"
| "sb_record_type (sb_other_record c) = c"

definition dump_key_entity :: "string \<Rightarrow> bytes \<Rightarrow> bytes res" where
  "dump_key_entity k pk = bind_res (dump_in_hex pk) (\<lambda>h. Inr (key 2 k @ quoted h @ endl))"

definition dump_node_blockchain :: "string \<Rightarrow> SbNodeBlockchain \<Rightarrow> bytes res" where
  "dump_node_blockchain k b =
     bind_res (dump_in_hex (nb_node_pub_key b)) (\<lambda>node.
     bind_res (dump_in_hex (nb_blockchain_pub_key b)) (\<lambda>chain.
     bind_res (c_str (nb_alias b)) (\<lambda>alias.
       Inr (key 2 k @ brace @
            key 4 ''node_pub_key'' @ quoted node @ comma_sp @
            key 4 ''blockchain_pub_key'' @ quoted chain @ comma_sp @
            key 4 ''alias'' @ quoted alias @ endl @
            closing 2 @ endl))))"

text \<open>The length of the key chain is a byte that is not converted to a number: it is printed as a character.\<close>

fun dump_sb_body :: "SbBody \<Rightarrow> bytes res" where
  "dump_sb_body (SB_HEADER h) =
     bind_res (dump_in_hex (header_pub_key h)) (\<lambda>pk.
     bind_res (c_str (subcluster_name h)) (\<lambda>name.
     bind_res (key_type_str (initial_key_type h)) (\<lambda>kt.
       Inr (key 2 ''header'' @ brace @
            key 4 ''subcluster_name'' @ quoted name @ comma_sp @
            key 4 ''initial_key_type'' @ quoted kt @ comma_sp @
            key 4 ''pub_key'' @ quoted pk @ comma_sp @
            key 4 ''ca_pub_key_chain_length'' @ [ca_pub_key_chain_length h] @ endl @
            closing 2 @ endl))))"
| "dump_sb_body (SB_ADD_ADMIN a) =
     bind_res (dump_in_hex (admin_pub_key a)) (\<lambda>pk.
     bind_res (c_str (admin_name a)) (\<lambda>name.
     bind_res (c_str (admin_email a)) (\<lambda>email.
       Inr (key 2 ''admin'' @ brace @
            key 4 ''pub_key'' @ quoted pk @ comma_sp @
            key 4 ''name'' @ quoted name @ comma_sp @
            key 4 ''email'' @ quoted email @ endl @
            closing 2 @ endl))))"
| "dump_sb_body (SB_ADD_NODE n) =
     bind_res (dump_in_hex (node_pub_key n)) (\<lambda>pk.
     bind_res (node_type_str (node_type n)) (\<lambda>nt.
       Inr (key 2 ''add_node'' @ brace @
            key 4 ''node_type'' @ quoted nt @ comma_sp @
            key 4 ''pub_key'' @ quoted pk @ endl @
            closing 2 @ endl)))"
| "dump_sb_body (ENABLE_ADMIN k) = dump_key_entity ''enable_admin'' k"
| "dump_sb_body (DISABLE_ADMIN k) = dump_key_entity ''disable_admin'' k"
| "dump_sb_body (ENABLE_NODE k) = dump_key_entity ''enable_node'' k"
| "dump_sb_body (DISABLE_NODE k) = dump_key_entity ''disable_node'' k"
| "dump_sb_body (ADD_BLOCKCHAIN k) = dump_key_entity ''add_blockchain'' k"
| "dump_sb_body (ADD_NODE_TO_BLOCKCHAIN b) = dump_node_blockchain ''add_node_to_blockchain'' b"
| "dump_sb_body (REMOVE_NODE_FROM_BLOCKCHAIN b) = dump_node_blockchain ''remove_node_from_blockchain'' b"
| "dump_sb_body (SB_SIGNATURES ss) = dump_signatures ''signatures'' ss"
| "dump_sb_body (sb_other_record c) = Inr []"

definition dump_sb_record :: "SbRecord \<Rightarrow> bytes res" where
  "dump_sb_record t =
     bind_res (dump_hedera 2 (sb_hedera_transaction t)) (\<lambda>hedera.
     bind_res (c_str (sb_memo t)) (\<lambda>m.
     bind_res (sb_record_str (sb_record_type (sb_body t))) (\<lambda>rt.
     bind_res (sb_result_str (sb_result t)) (\<lambda>result_str.
     bind_res (dump_sb_body (sb_body t)) (\<lambda>b.
       Inr (brace @
            key 2 ''version_number'' @ show_int (sint (sb_version_number t)) @ comma_sp @
            hedera @ comma @
            key 2 ''record_type'' @ quoted rt @ comma_sp @
            key 2 ''memo'' @ quoted m @ comma_sp @
            key 2 ''signature_count'' @ decimal_str (unat (sb_signature_count t)) @ comma_sp @
            key 2 ''result'' @ quoted result_str @ comma_sp @
            b @ [125, 10]))))))"

text \<open>The frame: a checksum is a string, an empty record prints nothing.\<close>

definition dump_record :: "('p \<Rightarrow> bytes res) \<Rightarrow> 'p Record \<Rightarrow> bytes res" where
  "dump_record dump_payload r =
     (case r of
        PAYLOAD p \<Rightarrow> dump_payload p
      | CHECKSUM c \<Rightarrow> bind_res (dump_in_hex c) (\<lambda>h. Inr (quoted h @ endl))
      | _ \<Rightarrow> Inr [])"

text \<open>Records one after the other, with a comma before each but the first.\<close>

fun dump_list :: "('p \<Rightarrow> bytes res) \<Rightarrow> bool \<Rightarrow> 'p Record list \<Rightarrow> bytes res" where
  "dump_list dump_payload is_first [] = Inr []"
| "dump_list dump_payload is_first (r # rs) =
     bind_res (dump_record dump_payload r) (\<lambda>t.
     bind_res (dump_list dump_payload False rs) (\<lambda>rest.
       Inr ((if is_first then [] else comma) @ t @ rest)))"

end
