(* ===== verification/Json_Properties.thy ===== *)
theory Json_Properties
  imports Json_Dump
begin

text \<open>
  What the printed records are as JSON: for each part of the text its tokens, for each record that can be printed
  its value, and the records for which the text is not JSON.
\<close>

section \<open>Scanning the text\<close>

lemma map_option_append [simp]: "map_option ((@) a) (map_option ((@) b) x) = map_option ((@) (a @ b)) x"
  by (cases x) simp_all

lemma map_option_Nil [simp]: "map_option ((@) []) x = x"
  by (cases x) simp_all

lemma map_option_Cons: "map_option (Cons t) x = map_option ((@) [t]) x"
  by (rule arg_cong2 [where f = map_option]) auto

lemma scan_blank [simp]:
  "scan_json (32 # r) = scan_json r" "scan_json (10 # r) = scan_json r"
  "scan_json (replicate n 32 @ r) = scan_json r"
  subgoal by (simp add: scan_json.simps)
  subgoal by (simp add: scan_json.simps)
  subgoal by (induction n) (simp_all add: scan_json.simps)
  done

lemma scan_mark [simp]:
  "scan_json (123 # r) = map_option ((@) [TOpen]) (scan_json r)"
  "scan_json (125 # r) = map_option ((@) [TClose]) (scan_json r)"
  "scan_json (91 # r) = map_option ((@) [TOpenArray]) (scan_json r)"
  "scan_json (93 # r) = map_option ((@) [TCloseArray]) (scan_json r)"
  "scan_json (58 # r) = map_option ((@) [TColon]) (scan_json r)"
  "scan_json (44 # r) = map_option ((@) [TComma]) (scan_json r)"
  by (simp_all add: scan_json.simps punctuation_def map_option_Cons)

lemma not_text_quote [simp]: "\<not> text_char 34"
  by (simp add: text_char_def)

lemma scan_quote:
  assumes "plain s"
  shows "scan_json (34 # s @ 34 # r) = map_option ((@) [TString s]) (scan_json r)"
proof -
  have s: "\<forall>c \<in> set s. text_char c"
    using assms by (simp add: plain_def list_all_iff)
  have "takeWhile text_char (s @ 34 # r) = s"
    using s by (intro takeWhile_append_stop) auto
  moreover have "dropWhile text_char (s @ 34 # r) = 34 # r"
    using s by (subst dropWhile_append2) auto
  ultimately show ?thesis
    by (simp add: scan_json.simps punctuation_def map_option_Cons)
qed

lemma scan_quoted [simp]:
  "plain s \<Longrightarrow> scan_json (quoted s @ r) = map_option ((@) [TString s]) (scan_json r)"
  by (simp add: quoted_def scan_quote)

lemma scan_key [simp]:
  "plain (bytes_of k) \<Longrightarrow>
     scan_json (key n k @ r) = map_option ((@) [TString (bytes_of k), TColon]) (scan_json r)"
  by (simp add: key_def scan_quote)

lemma is_digit_mark [simp]: "\<not> is_digit 44" "\<not> is_digit 10"
  by (simp_all add: is_digit_def)

lemma digit_not_mark:
  assumes "is_digit c"
  shows "c \<noteq> 32" "c \<noteq> 9" "c \<noteq> 10" "c \<noteq> 13" "c \<noteq> 34" "c \<noteq> 45" "punctuation c = None"
  using assms by (auto simp: is_digit_def punctuation_def)

lemma scan_decimal:
  assumes "\<not> is_digit c"
  shows "scan_json (decimal_str n @ c # r) = map_option ((@) [TNumber (int n)]) (scan_json (c # r))"
    and "scan_json (45 # decimal_str n @ c # r) = map_option ((@) [TNumber (- int n)]) (scan_json (c # r))"
proof -
  have tk: "takeWhile is_digit (decimal_str n @ c # r) = decimal_str n"
    using assms decimal_digits [of n] by (intro takeWhile_append_stop) (auto simp: list_all_iff)
  have dr: "dropWhile is_digit (decimal_str n @ c # r) = c # r"
    using assms decimal_digits [of n] by (subst dropWhile_append2) (auto simp: list_all_iff)
  obtain d ds where d: "decimal_str n = d # ds" "is_digit d"
    using decimal_digits [of n] by (cases "decimal_str n") auto
  have drs: "dropWhile is_digit (ds @ c # r) = c # r"
    using dr d by simp
  show "scan_json (decimal_str n @ c # r) = map_option ((@) [TNumber (int n)]) (scan_json (c # r))"
    using tk d drs digit_not_mark [OF d(2)] decimal_digits [of n]
    by (simp add: scan_json.simps(2) [of d] Let_def map_option_Cons)
  show "scan_json (45 # decimal_str n @ c # r) = map_option ((@) [TNumber (- int n)]) (scan_json (c # r))"
    using tk dr decimal_digits [of n] by (simp add: scan_json.simps(2) [of 45] Let_def punctuation_def map_option_Cons)
qed

lemma scan_numbers [simp]:
  "scan_json (decimal_str n @ 44 # r) = map_option ((@) [TNumber (int n)]) (scan_json (44 # r))"
  "scan_json (decimal_str n @ 10 # r) = map_option ((@) [TNumber (int n)]) (scan_json (10 # r))"
  "scan_json (show_int k @ 44 # r) = map_option ((@) [TNumber k]) (scan_json (44 # r))"
  "scan_json (show_int k @ 10 # r) = map_option ((@) [TNumber k]) (scan_json (10 # r))"
  using scan_decimal(1) [of 44 n r] scan_decimal(1) [of 10 n r] scan_decimal(1) [of 44 "nat k" r] scan_decimal(1) [of 10 "nat k" r]
    scan_decimal(2) [of 44 "nat (- k)" r] scan_decimal(2) [of 10 "nat (- k)" r]
  by (simp_all add: show_int_def)


lemma keys_plain [simp]:
  "plain (bytes_of ''amount'')" "plain (bytes_of ''decimal_amount'')" "plain (bytes_of ''seconds'')"
  "plain (bytes_of ''nanos'')" "plain (bytes_of ''hedera_transaction'')" "plain (bytes_of ''consensusTimestamp'')"
  "plain (bytes_of ''runningHash'')" "plain (bytes_of ''sequenceNumber'')" "plain (bytes_of ''runningHashVersion'')"
  "plain (bytes_of ''pubkey'')" "plain (bytes_of ''signature'')" "plain (bytes_of ''user'')"
  "plain (bytes_of ''new_balance'')" "plain (bytes_of ''prev_transfer_rec_num'')" "plain (bytes_of ''group'')"
  "plain (bytes_of ''other_group'')" "plain (bytes_of ''paired_transaction_id'')" "plain (bytes_of ''gradido_creation'')"
  "plain (bytes_of ''add_group_friend'')" "plain (bytes_of ''remove_group_friend'')" "plain (bytes_of ''add_user'')"
  "plain (bytes_of ''move_user_inbound'')" "plain (bytes_of ''move_user_outbound'')" "plain (bytes_of ''local_transfer'')"
  "plain (bytes_of ''inbound_transfer'')" "plain (bytes_of ''outbound_transfer'')" "plain (bytes_of ''sender'')"
  "plain (bytes_of ''receiver'')" "plain (bytes_of ''transaction'')" "plain (bytes_of ''version_number'')"
  "plain (bytes_of ''signature_count'')" "plain (bytes_of ''transaction_type'')" "plain (bytes_of ''result'')"
  "plain (bytes_of ''parts'')" "plain (bytes_of ''memo'')" "plain (bytes_of ''length'')" "plain (bytes_of ''record_type'')"
  by (simp_all add: plain_def bytes_of_def text_char_def)


section \<open>Tokens of the parts\<close>

text \<open>A text prints tokens if these are read from it whatever follows.\<close>

definition prints :: "bytes \<Rightarrow> token list \<Rightarrow> bool" where
  "prints t ts \<longleftrightarrow> (\<forall>r. scan_json (t @ r) = map_option ((@) ts) (scan_json r))"

definition prints_res :: "bytes res \<Rightarrow> token list \<Rightarrow> bool" where
  "prints_res m ts \<longleftrightarrow> (\<exists>t. m = Inr t \<and> prints t ts)"

lemma printsD: "prints t ts \<Longrightarrow> scan_json (t @ r) = map_option ((@) ts) (scan_json r)"
  by (simp add: prints_def)

lemma prints_res_bind:
  "prints_res m ts \<Longrightarrow> (\<And>t. prints t ts \<Longrightarrow> prints_res (f t) us) \<Longrightarrow> prints_res (bind_res m f) us"
  by (auto simp: prints_res_def)

lemma prints_res_Inr [simp]: "prints_res (Inr t) ts \<longleftrightarrow> prints t ts"
  by (simp add: prints_res_def)

lemma prints_res_string: "m = Inr s \<Longrightarrow> prints_res (f s) ts \<Longrightarrow> prints_res (bind_res m f) ts"
  by simp

definition member :: "string \<Rightarrow> json \<Rightarrow> token list" where
  "member k v = TString (bytes_of k) # TColon # json_tokens v"

lemmas line_parts = endl_def comma_def comma_sp_def brace_def closing_def

text \<open>The values the parts stand for.\<close>

definition obj :: "(string \<times> json) list \<Rightarrow> json" where
  "obj fs = JObject (map (\<lambda>(k, v). (bytes_of k, v)) fs)"

definition num :: "'a::len word \<Rightarrow> json" where
  "num w = JNumber (int (unat w))"

definition hex :: "bytes \<Rightarrow> json" where
  "hex bs = JString (concat (map bin2hex_byte bs))"

definition text_of :: "bytes \<Rightarrow> bytes" where
  "text_of f = takeWhile (\<lambda>c. c \<noteq> 0) f"

definition value_json :: "GradidoValue \<Rightarrow> json" where
  "value_json v = obj [(''amount'', num (amount v)), (''decimal_amount'', num (decimal_amount v))]"

definition timestamp_json :: "HederaTimestamp \<Rightarrow> json" where
  "timestamp_json ts = obj [(''seconds'', JNumber (sint (seconds ts))), (''nanos'', JNumber (sint (nanos ts)))]"

definition hedera_json :: "HederaTransaction \<Rightarrow> json" where
  "hedera_json h = obj
     [(''consensusTimestamp'', timestamp_json (consensusTimestamp h)), (''runningHash'', hex (runningHash h)),
      (''sequenceNumber'', num (sequenceNumber h)), (''runningHashVersion'', num (runningHashVersion h))]"

definition signature_json :: "Signature \<Rightarrow> json" where
  "signature_json s = obj [(''pubkey'', hex (sig_pubkey s)), (''signature'', hex (sig_signature s))]"

definition user_transfer_json :: "UserTransfer \<Rightarrow> json" where
  "user_transfer_json u = obj
     [(''user'', hex (user u)), (''new_balance'', value_json (new_balance u)),
      (''prev_transfer_rec_num'', num (prev_transfer_rec_num u))]"

definition user_json :: "bytes \<Rightarrow> json" where
  "user_json u = obj [(''user'', hex u)]"

definition group_json :: "bytes \<Rightarrow> json" where
  "group_json g = obj [(''group'', JString (text_of g))]"

definition move_user_json :: "MoveUser \<Rightarrow> json" where
  "move_user_json m = obj
     [(''user'', hex (mu_user m)), (''other_group'', JString (text_of (other_group m))),
      (''paired_transaction_id'', timestamp_json (paired_transaction_id m))]"

text \<open>A name that can be printed, and a byte string that is short enough for \<^const>\<open>dump_in_hex\<close>.\<close>

definition name_printable :: "bytes \<Rightarrow> bool" where
  "name_printable f \<longleftrightarrow> 0 \<in> set f \<and> plain (text_of f)"

definition short :: "bytes \<Rightarrow> bool" where
  "short bs \<longleftrightarrow> length bs < (2 ^ 64 - 1) div 2"

lemma c_str_printable: "name_printable f \<Longrightarrow> c_str f = Inr (text_of f)"
  by (simp add: name_printable_def c_str_def text_of_def)

lemma hex_plain [simp]: "plain (concat (map bin2hex_byte bs))"
proof -
  have "text_char c" if "is_hex [c]" for c
    using that by (auto simp: is_hex_def text_char_def word_le_nat_alt word_less_nat_alt)
  moreover have "is_hex [c]" if "c \<in> set (concat (map bin2hex_byte bs))" for c
    using hex_of_bytes [of bs] that by (auto simp: is_hex_def list_all_iff)
  ultimately show ?thesis
    by (auto simp: plain_def list_all_iff)
qed

lemma dump_in_hex_short: "short bs \<Longrightarrow> dump_in_hex bs = Inr (concat (map bin2hex_byte bs))"
  by (simp add: short_def dump_in_hex_eq)

lemmas json_parts = prints_def member_def obj_def num_def hex_def line_parts

lemma dump_value_prints [simp]: "prints (dump_value n k v) (member k (value_json v))" if "plain (bytes_of k)"
  using that by (simp add: json_parts dump_value_def value_json_def)

lemma dump_timestamp_prints [simp]: "prints (dump_timestamp n k ts) (member k (timestamp_json ts))" if "plain (bytes_of k)"
  using that by (simp add: json_parts dump_timestamp_def timestamp_json_def)

lemmas value_scan = dump_value_prints [THEN printsD] dump_timestamp_prints [THEN printsD]

lemma dump_hedera_prints:
  "short (runningHash h) \<Longrightarrow> prints_res (dump_hedera n h) (member ''hedera_transaction'' (hedera_json h))"
  by (simp add: dump_hedera_def dump_in_hex_short json_parts hedera_json_def value_scan)

text \<open>The text of a signature begins after its opening brace.\<close>

definition signature_tokens :: "Signature \<Rightarrow> token list" where
  "signature_tokens s = tl (json_tokens (signature_json s))"

lemma signature_json_tokens [simp]: "json_tokens (signature_json s) = TOpen # signature_tokens s"
  by (simp add: signature_tokens_def signature_json_def obj_def)

lemma dump_signature_prints:
  "short (sig_pubkey s) \<Longrightarrow> short (sig_signature s) \<Longrightarrow> prints_res (dump_signature n s) (signature_tokens s)"
  by (simp add: dump_signature_def dump_in_hex_short json_parts signature_json_def signature_tokens_def)

lemma dump_user_transfer_prints:
  "short (user u) \<Longrightarrow> plain (bytes_of k) \<Longrightarrow> prints_res (dump_user_transfer n k u) (member k (user_transfer_json u))"
  by (simp add: dump_user_transfer_def dump_in_hex_short json_parts user_transfer_json_def value_scan)

lemma dump_user_prints:
  "short u \<Longrightarrow> plain (bytes_of k) \<Longrightarrow> prints_res (dump_user n k u) (member k (user_json u))"
  by (simp add: dump_user_def dump_in_hex_short json_parts user_json_def)

lemma dump_group_prints:
  "name_printable g \<Longrightarrow> plain (bytes_of k) \<Longrightarrow> prints_res (dump_group k g) (member k (group_json g) @ [TComma])"
  by (simp add: dump_group_def c_str_printable json_parts group_json_def name_printable_def)

lemma dump_move_user_prints:
  "name_printable (other_group m) \<Longrightarrow> short (mu_user m) \<Longrightarrow> plain (bytes_of k) \<Longrightarrow>
     prints_res (dump_move_user k m) (member k (move_user_json m) @ [TComma])"
  by (simp add: dump_move_user_def dump_in_hex_short c_str_printable json_parts move_user_json_def name_printable_def value_scan)


section \<open>Transactions\<close>

fun body_json :: "TransactionBody \<Rightarrow> string \<times> json" where
  "body_json (gradido_creation v) = (''gradido_creation'', obj
     [(''user'', hex (user v)), (''new_balance'', value_json (new_balance v)),
      (''prev_transfer_rec_num'', num (prev_transfer_rec_num v)), (''amount'', value_json (creation_amount v))])"
| "body_json (add_group_friend g) = (''add_group_friend'', group_json g)"
| "body_json (remove_group_friend g) = (''remove_group_friend'', group_json g)"
| "body_json (add_user u) = (''add_user'', user_json u)"
| "body_json (move_user_inbound m) = (''move_user_inbound'', move_user_json m)"
| "body_json (move_user_outbound m) = (''move_user_outbound'', move_user_json m)"
| "body_json (local_transfer tt) = (''local_transfer'', obj
     [(''sender'', user_transfer_json (lt_sender tt)), (''receiver'', user_transfer_json (lt_receiver tt)),
      (''amount'', value_json (lt_amount tt))])"
| "body_json (inbound_transfer tt) = (''inbound_transfer'', obj
     [(''sender'', user_json (it_sender tt)), (''receiver'', user_transfer_json (it_receiver tt)),
      (''amount'', value_json (it_amount tt)), (''other_group'', JString (text_of (other_group tt))),
      (''paired_transaction_id'', timestamp_json (paired_transaction_id tt))])"
| "body_json (outbound_transfer tt) = (''outbound_transfer'', obj
     [(''sender'', user_transfer_json (ot_sender tt)), (''receiver'', user_json (ot_receiver tt)),
      (''amount'', value_json (ot_amount tt)), (''other_group'', JString (text_of (other_group tt))),
      (''paired_transaction_id'', timestamp_json (paired_transaction_id tt))])"
| "body_json _ = ([], JString [])"

text \<open>The kinds of transactions that a group has, with names that can be printed.\<close>

fun body_printable :: "TransactionBody \<Rightarrow> bool" where
  "body_printable (add_group_friend g) \<longleftrightarrow> name_printable g"
| "body_printable (remove_group_friend g) \<longleftrightarrow> name_printable g"
| "body_printable (move_user_inbound m) \<longleftrightarrow> name_printable (other_group m)"
| "body_printable (move_user_outbound m) \<longleftrightarrow> name_printable (other_group m)"
| "body_printable (inbound_transfer tt) \<longleftrightarrow> name_printable (other_group tt)"
| "body_printable (outbound_transfer tt) \<longleftrightarrow> name_printable (other_group tt)"
| "body_printable (gradido_creation _) \<longleftrightarrow> True"
| "body_printable (add_user _) \<longleftrightarrow> True"
| "body_printable (local_transfer _) \<longleftrightarrow> True"
| "body_printable _ \<longleftrightarrow> False"

lemma short_sized: "length bs = PUB_KEY_LENGTH \<Longrightarrow> short bs" "length bs = SIGNATURE_LENGTH \<Longrightarrow> short bs"
    "length bs = HEDERA_RUNNING_HASH_LENGTH \<Longrightarrow> short bs" "length bs = BLOCKCHAIN_CHECKSUM_SIZE \<Longrightarrow> short bs"
  by (simp_all add: short_def PUB_KEY_LENGTH_def SIGNATURE_LENGTH_def HEDERA_RUNNING_HASH_LENGTH_def BLOCKCHAIN_CHECKSUM_SIZE_def)

lemma prints_append: "prints t ts \<Longrightarrow> prints u us \<Longrightarrow> prints (t @ u) (ts @ us)"
  by (simp add: prints_def)

lemma dump_body_prints:
  assumes "body_printable b" "body_sized b"
  shows "prints_res (dump_body b) (member (fst (body_json b)) (snd (body_json b)) @ [TComma])"
proof (cases b)
  case (gradido_creation v)
  then show ?thesis
    using assms by (simp add: short_sized dump_in_hex_short json_parts value_scan)
next
  case (add_user u)
  then show ?thesis
    using assms by (auto intro!: prints_res_bind [OF dump_user_prints] prints_append simp: short_sized prints_def comma_def)
next
  case (local_transfer tt)
  then show ?thesis
    using assms
    by (auto intro!: prints_res_bind [OF dump_user_transfer_prints] simp: short_sized)
      (simp add: json_parts value_scan)
next
  case (inbound_transfer tt)
  then show ?thesis
    using assms
    by (auto intro!: prints_res_bind [OF dump_user_transfer_prints] prints_res_bind [OF dump_user_prints] simp: short_sized c_str_printable)
      (simp add: json_parts value_scan name_printable_def)
next
  case (outbound_transfer tt)
  then show ?thesis
    using assms
    by (auto intro!: prints_res_bind [OF dump_user_transfer_prints] prints_res_bind [OF dump_user_prints] simp: short_sized c_str_printable)
      (simp add: json_parts value_scan name_printable_def)
qed (use assms in \<open>simp_all add: short_sized dump_group_prints dump_move_user_prints\<close>)

fun type_name :: "TransactionBody \<Rightarrow> string" where
  "type_name (gradido_creation _) = ''GRADIDO_CREATION''"
| "type_name (add_group_friend _) = ''ADD_GROUP_FRIEND''"
| "type_name (remove_group_friend _) = ''REMOVE_GROUP_FRIEND''"
| "type_name (add_user _) = ''ADD_USER''"
| "type_name (move_user_inbound _) = ''MOVE_USER_INBOUND''"
| "type_name (move_user_outbound _) = ''MOVE_USER_OUTBOUND''"
| "type_name (local_transfer _) = ''LOCAL_TRANSFER''"
| "type_name (inbound_transfer _) = ''INBOUND_TRANSFER''"
| "type_name (outbound_transfer _) = ''OUTBOUND_TRANSFER''"
| "type_name _ = []"

definition result_names :: "string list" where
  "result_names =
     [''SUCCESS'', ''UNKNOWN'', ''NOT_ENOUGH_GRADIDOS'', ''UNKNOWN_LOCAL_USER'', ''UNKNOWN_REMOTE_USER'', ''UNKNOWN_GROUP'',
      ''OUTBOUND_TRANSACTION_FAILED'', ''USER_ALREADY_EXISTS'', ''GROUP_IS_ALREADY_FRIEND'', ''GROUP_IS_NOT_FRIEND'']"

definition result_json :: "u8 \<Rightarrow> json" where
  "result_json c = JString (bytes_of (result_names ! unat c))"

definition memo_text :: "bytes \<Rightarrow> bytes" where
  "memo_text m = (if last m = 0 then text_of m else m)"

definition transaction_json :: "Transaction \<Rightarrow> json" where
  "transaction_json u = obj
     [(''version_number'', JNumber (sint (version_number u))), (''signature'', signature_json (tr_signature u)),
      (''signature_count'', num (signature_count u)), (''hedera_transaction'', hedera_json (hedera_transaction u)),
      (''transaction_type'', JString (bytes_of (type_name (body u)))), body_json (body u),
      (''result'', result_json (result u)), (''parts'', JNumber (sint (parts u))), (''memo'', JString (memo_text (memo u)))]"

definition transaction_printable :: "Transaction \<Rightarrow> bool" where
  "transaction_printable u \<longleftrightarrow> transaction_sized u \<and> body_printable (body u) \<and> unat (result u) < length result_names \<and>
     plain (memo_text (memo u))"

lemma type_str_printable:
  "body_printable b \<Longrightarrow> transaction_type_str (transaction_type b) = Inr (bytes_of (type_name b))"
  "body_printable b \<Longrightarrow> plain (bytes_of (type_name b))"
  by (cases b; simp add: transaction_type_str_def switch_str_def; fail)
    (cases b; simp add: plain_def bytes_of_def text_char_def; fail)

lemma result_str_printable:
  assumes "unat c < length result_names"
  shows "transaction_result_str c = Inr (bytes_of (result_names ! unat c))" "plain (bytes_of (result_names ! unat c))"
proof -
  have "unat c \<in> {0, 1, 2, 3, 4, 5, 6, 7, 8, 9}"
    using assms by (auto simp: result_names_def)
  then have c: "c \<in> {0, 1, 2, 3, 4, 5, 6, 7, 8, 9}"
    by (auto simp: word_unat_eq_iff)
  show "transaction_result_str c = Inr (bytes_of (result_names ! unat c))"
    using c by (auto simp: transaction_result_str_def switch_str_def result_names_def)
  show "plain (bytes_of (result_names ! unat c))"
    using c by (auto simp: result_names_def plain_def bytes_of_def text_char_def)
qed

lemma memo_str_printable:
  assumes "length m = MEMO_MAIN_SIZE"
  shows "memo_str m = Inr (memo_text m)"
proof -
  have ne: "m \<noteq> []"
    using assms by (auto simp: MEMO_MAIN_SIZE_def)
  then have "last m = m ! (MEMO_MAIN_SIZE - 1)"
    using assms by (simp add: last_conv_nth)
  then show ?thesis
    using assms ne last_in_set [of m] by (auto simp: memo_str_def memo_text_def c_str_def text_of_def)
qed

lemma sized_short:
  assumes "transaction_sized u"
  shows "short (sig_pubkey (tr_signature u))" "short (sig_signature (tr_signature u))" "short (runningHash (hedera_transaction u))"
  using assms by (simp_all add: transaction_sized_def signature_sized_def hedera_sized_def short_sized)

lemma dump_transaction_prints:
  assumes "transaction_printable u"
  shows "prints_res (dump_transaction u) (member ''transaction'' (transaction_json u))"
proof -
  have sized: "transaction_sized u" and b: "body_printable (body u)" "body_sized (body u)"
    and r: "unat (result u) < length result_names" and m: "plain (memo_text (memo u))" "length (memo u) = MEMO_MAIN_SIZE"
    using assms by (simp_all add: transaction_printable_def transaction_sized_def)
  obtain sig where sig: "dump_signature 4 (tr_signature u) = Inr sig" "prints sig (signature_tokens (tr_signature u))"
    using dump_signature_prints sized_short [OF sized] by (auto simp: prints_res_def)
  obtain hd where hd: "dump_hedera 4 (hedera_transaction u) = Inr hd"
      "prints hd (member ''hedera_transaction'' (hedera_json (hedera_transaction u)))"
    using dump_hedera_prints sized_short [OF sized] by (auto simp: prints_res_def)
  obtain t where t: "dump_body (body u) = Inr t" "prints t (member (fst (body_json (body u))) (snd (body_json (body u))) @ [TComma])"
    using dump_body_prints [OF b] by (auto simp: prints_res_def)
  show ?thesis
    unfolding dump_transaction_def prints_res_def
    by (simp add: memo_str_printable m sig(1) hd(1) t(1) type_str_printable [OF b(1)] result_str_printable [OF r] sig(2) [THEN printsD]
        hd(2) [THEN printsD] t(2) [THEN printsD] prints_def line_parts transaction_json_def obj_def num_def result_json_def
        member_def case_prod_beta)
qed

section \<open>Records of a group\<close>

text \<open>The signatures that are printed: those before the first whose key begins with a zero.\<close>

definition shown_signatures :: "Signature list \<Rightarrow> Signature list" where
  "shown_signatures ss = takeWhile (\<lambda>s. sig_pubkey s ! 0 \<noteq> 0) ss"

text \<open>The value that a listing gives for a record: the fields that are printed, in order.\<close>

fun record_json :: "GradidoRecord \<Rightarrow> json" where
  "record_json (GRADIDO_TRANSACTION u) =
     obj [(''record_type'', JString (bytes_of ''GRADIDO_TRANSACTION'')), (''transaction'', transaction_json u)]"
| "record_json (MEMO m) = obj [(''record_type'', JString (bytes_of ''MEMO'')), (''memo'', JString (text_of m))]"
| "record_json (SIGNATURES ss) =
     obj [(''record_type'', JString (bytes_of ''SIGNATURES'')), (''signature'', JArray (map signature_json (shown_signatures ss)))]"
| "record_json (STRUCTURALLY_BAD_MESSAGE u) =
     obj [(''record_type'', JString (bytes_of ''STRUCTURALLY_BAD_MESSAGE'')), (''result'', result_json (bad_result u)),
          (''parts'', JNumber (sint (parts u))), (''length'', num (bad_length u)),
          (''hedera_transaction'', hedera_json (bad_hedera_transaction u))]"
| "record_json _ = JString []"

fun record_printable :: "GradidoRecord \<Rightarrow> bool" where
  "record_printable (GRADIDO_TRANSACTION u) \<longleftrightarrow> transaction_printable u"
| "record_printable (MEMO m) \<longleftrightarrow> name_printable m"
| "record_printable (SIGNATURES ss) \<longleftrightarrow> list_all signature_sized ss \<and> length (shown_signatures ss) = 1"
| "record_printable (STRUCTURALLY_BAD_MESSAGE u) \<longleftrightarrow>
     hedera_sized (bad_hedera_transaction u) \<and> unat (bad_result u) < length result_names"
| "record_printable _ \<longleftrightarrow> False"

fun record_name :: "GradidoRecord \<Rightarrow> string" where
  "record_name BLANK = ''BLANK''"
| "record_name (GRADIDO_TRANSACTION _) = ''GRADIDO_TRANSACTION''"
| "record_name (MEMO _) = ''MEMO''"
| "record_name (SIGNATURES _) = ''SIGNATURES''"
| "record_name (STRUCTURALLY_BAD_MESSAGE _) = ''STRUCTURALLY_BAD_MESSAGE''"
| "record_name (RAW_MESSAGE _) = ''RAW_MESSAGE''"

lemma record_str: "gradido_record_str (record_type t) = Inr (bytes_of (record_name t))"
  by (cases t) (simp_all add: gradido_record_str_def switch_str_def)

lemma record_name_plain [simp]: "plain (bytes_of (record_name t))"
  by (cases t) (simp_all add: plain_def bytes_of_def text_char_def)

lemma dump_signatures_prints:
  assumes "list_all signature_sized ss" "plain (bytes_of k)"
  shows "prints_res (dump_signatures k ss) (concat (map (\<lambda>s. member k (JArray [signature_json s])) (shown_signatures ss)))"
  using assms(1)
proof (induction ss)
  case (Cons s ss)
  then obtain t where t: "dump_signature 4 s = Inr t" "prints t (signature_tokens s)"
    using dump_signature_prints [of s 4] by (auto simp: prints_res_def signature_sized_def short_sized)
  show ?case
    using Cons t(2) [THEN printsD] assms(2)
    by (auto simp: shown_signatures_def t(1) prints_res_def prints_def line_parts member_def)
qed (simp add: shown_signatures_def prints_def)

lemma dump_contents_prints:
  assumes "record_printable t"
  shows "\<exists>ts. prints_res (dump_contents t) ts \<and> json_tokens (record_json t) =
    TOpen # member ''record_type'' (JString (bytes_of (record_name t))) @ TComma # ts @ [TClose]"
proof (cases t)
  case (GRADIDO_TRANSACTION u)
  then show ?thesis
    using dump_transaction_prints assms by (intro exI [of _ "member ''transaction'' (transaction_json u)"]) (simp add: member_def obj_def)
next
  case (MEMO m)
  then show ?thesis
    using assms
    by (intro exI [of _ "member ''memo'' (JString (text_of m))"])
      (simp add: member_def obj_def c_str_printable prints_def name_printable_def)
next
  case (SIGNATURES ss)
  then obtain s where "shown_signatures ss = [s]"
    using assms by (auto simp: length_Suc_conv)
  then show ?thesis
    using SIGNATURES dump_signatures_prints [of ss "''signature''"] assms
    by (intro exI [of _ "member ''signature'' (JArray [signature_json s])"]) (simp add: member_def obj_def)
next
  case (STRUCTURALLY_BAD_MESSAGE u)
  then have u: "short (runningHash (bad_hedera_transaction u))" "unat (bad_result u) < length result_names"
    using assms by (simp_all add: hedera_sized_def short_sized)
  obtain hd where "dump_hedera 4 (bad_hedera_transaction u) = Inr hd"
      "prints hd (member ''hedera_transaction'' (hedera_json (bad_hedera_transaction u)))"
    using dump_hedera_prints [OF u(1)] by (auto simp: prints_res_def)
  then show ?thesis
    using STRUCTURALLY_BAD_MESSAGE u(2) assms
    by (intro exI [of _ "member ''result'' (result_json (bad_result u)) @ TComma # member ''parts'' (JNumber (sint (parts u))) @
          TComma # member ''length'' (num (bad_length u)) @
          TComma # member ''hedera_transaction'' (hedera_json (bad_hedera_transaction u))"])
      (simp add: member_def obj_def dump_bad_message_def result_str_printable result_json_def num_def prints_def line_parts)
qed (use assms in simp_all)

lemma prints_parse: "prints_res m (json_tokens v) \<Longrightarrow> \<exists>out. m = Inr out \<and> parse_json out = Some v"
  by (auto simp: prints_res_def parse_json_iff dest: printsD [where r = "[]"])

lemma printed_record:
  assumes "record_printable t"
  shows "prints_res (dump_gradido_record t) (json_tokens (record_json t))"
proof -
  obtain ts c where "json_tokens (record_json t) =
      TOpen # member ''record_type'' (JString (bytes_of (record_name t))) @ TComma # ts @ [TClose]" "dump_contents t = Inr c" "prints c ts"
    using dump_contents_prints [OF assms] by (auto simp: prints_res_def)
  then show ?thesis
    by (simp add: dump_gradido_record_def record_str prints_def line_parts member_def)
qed

text \<open>
  C23. A printed record is JSON. Take a record of a group whose fields have their lengths and whose enumerations have
  known values, whose texts have no quotes, backslashes or control characters, and which shows one signature if it
  is a record of further signatures. Then \<open>dump_transaction_in_json\<close> has a defined result, and parsing it gives the object
  with every field that is printed under its name: byte strings in hexadecimal, numbers in decimal, enumerations by
  name. Not printed are the transaction id of a transaction, the balance and the record number of a moved user, and the
  version number and the transaction id of a structurally bad message.
\<close>

theorem printed_record_parses:
  assumes "record_printable t"
  shows "\<exists>out. dump_gradido_record t = Inr out \<and> parse_json out = Some (record_json t)"
  using assms by (intro prints_parse printed_record)

text \<open>Two members with nothing between them are not the members of an object, and neither is a comma at the end.\<close>

lemma member_tokens_of_arrays:
  assumes "member_tokens fs = concat (map (\<lambda>s. member k (JArray [signature_json s])) ss)" "fs \<noteq> []"
  shows "length ss = 1"
proof -
  obtain f v fs' where fs: "fs = (f, v) # fs'"
    using assms(2) by (cases fs) auto
  obtain s ss' where ss: "ss = s # ss'"
    using assms fs by (cases ss) auto
  have "json_tokens v @ (if fs' = [] then [] else TComma # member_tokens fs')
      = json_tokens (JArray [signature_json s]) @ concat (map (\<lambda>s. member k (JArray [signature_json s])) ss')"
    using assms(1) by (simp add: fs ss member_def)
  then have "(if fs' = [] then [] else TComma # member_tokens fs') = concat (map (\<lambda>s. member k (JArray [signature_json s])) ss')"
    by (rule json_tokens_prefix [THEN conjunct2])
  then show ?thesis
    by (cases ss') (auto simp: ss member_def split: if_splits)
qed

text \<open>
  C38. A record of further signatures is printed as JSON exactly if it has one signature. Without one a comma is
  left before the closing brace, and with two or more their arrays follow one another without a comma.
\<close>

theorem signature_record_json_iff:
  assumes "list_all signature_sized ss"
  shows "\<exists>out. dump_gradido_record (SIGNATURES ss) = Inr out \<and>
    (parse_json out \<noteq> None \<longleftrightarrow> length (shown_signatures ss) = 1)"
proof -
  let ?ts = "concat (map (\<lambda>s. member ''signature'' (JArray [signature_json s])) (shown_signatures ss))"
  obtain c where c: "dump_signatures ''signature'' ss = Inr c" "prints c ?ts"
    using dump_signatures_prints [OF assms, of "''signature''"] by (auto simp: prints_res_def)
  define out where "out = brace @ key 2 ''record_type'' @ quoted (bytes_of ''SIGNATURES'') @ comma_sp @ c @ [125, 10]"
  have out: "dump_gradido_record (SIGNATURES ss) = Inr out"
    using record_str [of "SIGNATURES ss"] c by (simp add: dump_gradido_record_def out_def)
  have scan: "scan_json out = Some (TOpen # member ''record_type'' (JString (bytes_of ''SIGNATURES'')) @ TComma # ?ts @ [TClose])"
    using c(2) [THEN printsD] record_name_plain [of "SIGNATURES ss"] by (simp add: out_def line_parts member_def)
  have "length (shown_signatures ss) = 1" if "parse_json out = Some v" for v
  proof -
    have v: "json_tokens v = TOpen # TString (bytes_of ''record_type'') # TColon # TString (bytes_of ''SIGNATURES'') # TComma # ?ts @ [TClose]"
      using that scan by (simp add: parse_json_iff member_def)
    then obtain fs where fs: "v = JObject fs"
      by (cases v) auto
    with v obtain f x fs' where "fs = (f, x) # fs'"
      by (cases fs) auto
    moreover from this v fs have "x = JString (bytes_of ''SIGNATURES'')"
      by (cases x) simp_all
    ultimately have "fs' \<noteq> []" "member_tokens fs' = ?ts"
      using v fs by (auto split: if_splits)
    then show ?thesis
      by (rule member_tokens_of_arrays [rotated])
  qed
  moreover have "parse_json out \<noteq> None" if "length (shown_signatures ss) = 1"
    using printed_record [of "SIGNATURES ss", THEN prints_parse] that assms out by auto
  ultimately show ?thesis
    using out by auto
qed

definition sample_signature :: "u8 \<Rightarrow> Signature" where
  "sample_signature c = \<lparr>sig_pubkey = replicate PUB_KEY_LENGTH c, sig_signature = replicate SIGNATURE_LENGTH 7\<rparr>"

theorem signature_record_json_iff_witness:
  "\<exists>out. dump_gradido_record (SIGNATURES [sample_signature 1, sample_signature 2, Signature_zero]) = Inr out \<and> parse_json out = None"
  using signature_record_json_iff [of "[sample_signature 1, sample_signature 2, Signature_zero]"]
  by (simp add: sample_signature_def signature_sized_def shown_signatures_def Signature_zero_def PUB_KEY_LENGTH_def nth_Cons')

definition sample_transfer :: Transaction where
  "sample_transfer = Transaction_zero\<lparr>
     body := local_transfer
       \<lparr>lt_amount = GradidoValue 5 250000,
        lt_sender = \<lparr>new_balance = GradidoValue 3 0, prev_transfer_rec_num = 4, user = replicate PUB_KEY_LENGTH 17\<rparr>,
        lt_receiver = \<lparr>new_balance = GradidoValue 8 0, prev_transfer_rec_num = 2, user = replicate PUB_KEY_LENGTH 34\<rparr>\<rparr>,
     memo := bytes_of ''thanks'' @ replicate 10 0\<rparr>"

lemma sample_memo: "memo_text (memo sample_transfer) = bytes_of ''thanks''"
  by (simp add: sample_transfer_def memo_text_def text_of_def bytes_of_def)

lemma sample_printable: "record_printable (GRADIDO_TRANSACTION sample_transfer)"
proof -
  have "plain (bytes_of ''thanks'')"
    by (simp add: plain_def bytes_of_def text_char_def)
  then show ?thesis
    using sample_memo
    by (simp add: sample_transfer_def transaction_printable_def transaction_sized_def signature_sized_def hedera_sized_def
        Transaction_zero_def HederaTransaction_zero_def result_names_def bytes_of_def MEMO_MAIN_SIZE_def)
qed

theorem printed_record_parses_witness:
  "\<exists>out. dump_gradido_record (GRADIDO_TRANSACTION sample_transfer) = Inr out \<and>
     parse_json out = Some (record_json (GRADIDO_TRANSACTION sample_transfer)) \<and>
     memo_text (memo sample_transfer) = bytes_of ''thanks''"
  using printed_record_parses [of "GRADIDO_TRANSACTION sample_transfer"] sample_printable sample_memo by simp

text \<open>
  Texts are not escaped. A memo with quotes is read as the end of its string and further members of the object:
  a memo part made of \<open>a","k":"b\<close> is printed as a memo \<open>a\<close> and a member \<open>k\<close> with the value \<open>b\<close>.
\<close>

lemma memo_adds_member:
  assumes "0 \<in> set m" "text_of m = a @ [34, 44, 34] @ k @ [34, 58, 34] @ b" "plain a" "plain k" "plain b"
  shows "\<exists>out. dump_gradido_record (MEMO m) = Inr out \<and> parse_json out = Some (JObject
    [(bytes_of ''record_type'', JString (bytes_of ''MEMO'')), (bytes_of ''memo'', JString a), (k, JString b)])"
proof -
  have "c_str m = Inr (a @ 34 # 44 # 34 # k @ 34 # 58 # 34 # b)"
    using assms(1,2) by (simp add: c_str_def text_of_def)
  then show ?thesis
    using record_str [of "MEMO m"] record_name_plain [of "MEMO m"] assms(3,4,5) scan_quote [OF assms(3)] scan_quote [OF assms(4)] scan_quote [OF assms(5)]
    by (simp add: dump_gradido_record_def parse_json_iff line_parts quoted_def [of "a @ _"])
qed


section \<open>Records of the register and of a subcluster\<close>

definition register_json :: "GroupRecord \<Rightarrow> json" where
  "register_json u = obj
     [(''record_type'', JString (bytes_of ''GROUP_RECORD'')), (''alias'', JString (text_of (gr_alias u))),
      (''topic_id'', obj [(''shardNum'', JNumber (sint (shardNum (topic_id u)))), (''realmNum'', JNumber (sint (realmNum (topic_id u)))),
         (''topicNum'', JNumber (sint (topicNum (topic_id u))))]),
      (''success'', JNumber (if success u then 1 else 0)), (''hedera_transaction'', hedera_json (gr_hedera_transaction u)),
      (''signature'', signature_json (gr_signature u))]"

lemma register_keys_plain [simp]:
  "plain (bytes_of ''GROUP_RECORD'')" "plain (bytes_of ''alias'')" "plain (bytes_of ''topic_id'')" "plain (bytes_of ''shardNum'')"
  "plain (bytes_of ''realmNum'')" "plain (bytes_of ''topicNum'')" "plain (bytes_of ''success'')"
  by (simp_all add: plain_def bytes_of_def text_char_def)

lemma printed_register_record:
  assumes "name_printable (gr_alias u)" "hedera_sized (gr_hedera_transaction u)" "signature_sized (gr_signature u)"
  shows "prints_res (dump_register_record (GROUP_RECORD u)) (json_tokens (register_json u))"
proof -
  obtain sig where sig: "dump_signature 4 (gr_signature u) = Inr sig" "prints sig (signature_tokens (gr_signature u))"
    using dump_signature_prints [of "gr_signature u" 4] assms(3) by (auto simp: prints_res_def signature_sized_def short_sized)
  obtain hd where hd: "dump_hedera 4 (gr_hedera_transaction u) = Inr hd"
      "prints hd (member ''hedera_transaction'' (hedera_json (gr_hedera_transaction u)))"
    using dump_hedera_prints [of "gr_hedera_transaction u" 4] assms(2) by (auto simp: prints_res_def hedera_sized_def short_sized)
  have "register_record_str 1 = Inr (bytes_of ''GROUP_RECORD'')"
    by (simp add: register_record_str_def switch_str_def)
  then show ?thesis
    using assms(1) sig(2) [THEN printsD] hd(2) [THEN printsD]
    by (simp add: dump_register_record_def c_str_printable sig(1) hd(1) prints_def register_json_def obj_def line_parts member_def
        name_printable_def)
qed

fun sb_body_json :: "SbBody \<Rightarrow> string \<times> json" where
  "sb_body_json (SB_ADD_ADMIN a) = (''admin'', obj
     [(''pub_key'', hex (admin_pub_key a)), (''name'', JString (text_of (admin_name a))), (''email'', JString (text_of (admin_email a)))])"
| "sb_body_json (SB_ADD_NODE n) = (''add_node'', obj
     [(''node_type'', JString (bytes_of ([''ORDERING'', ''GRADIDO'', ''LOGIN'', ''BACKUP'', ''LOGGER'', ''PINGER''] ! (unat (node_type n) - 1)))),
      (''pub_key'', hex (node_pub_key n))])"
| "sb_body_json (ENABLE_ADMIN k) = (''enable_admin'', hex k)"
| "sb_body_json (DISABLE_ADMIN k) = (''disable_admin'', hex k)"
| "sb_body_json (ENABLE_NODE k) = (''enable_node'', hex k)"
| "sb_body_json (DISABLE_NODE k) = (''disable_node'', hex k)"
| "sb_body_json (ADD_BLOCKCHAIN k) = (''add_blockchain'', hex k)"
| "sb_body_json (ADD_NODE_TO_BLOCKCHAIN b) = (''add_node_to_blockchain'', obj
     [(''node_pub_key'', hex (nb_node_pub_key b)), (''blockchain_pub_key'', hex (nb_blockchain_pub_key b)),
      (''alias'', JString (text_of (nb_alias b)))])"
| "sb_body_json (REMOVE_NODE_FROM_BLOCKCHAIN b) = (''remove_node_from_blockchain'', obj
     [(''node_pub_key'', hex (nb_node_pub_key b)), (''blockchain_pub_key'', hex (nb_blockchain_pub_key b)),
      (''alias'', JString (text_of (nb_alias b)))])"
| "sb_body_json (SB_SIGNATURES ss) = (''signatures'', JArray (map signature_json (shown_signatures ss)))"
| "sb_body_json _ = ([], JString [])"

fun sb_body_printable :: "SbBody \<Rightarrow> bool" where
  "sb_body_printable (SB_ADD_ADMIN a) \<longleftrightarrow> short (admin_pub_key a) \<and> name_printable (admin_name a) \<and> name_printable (admin_email a)"
| "sb_body_printable (SB_ADD_NODE n) \<longleftrightarrow> short (node_pub_key n) \<and> node_type n \<in> {1, 2, 3, 4, 5, 6}"
| "sb_body_printable (ENABLE_ADMIN k) \<longleftrightarrow> short k"
| "sb_body_printable (DISABLE_ADMIN k) \<longleftrightarrow> short k"
| "sb_body_printable (ENABLE_NODE k) \<longleftrightarrow> short k"
| "sb_body_printable (DISABLE_NODE k) \<longleftrightarrow> short k"
| "sb_body_printable (ADD_BLOCKCHAIN k) \<longleftrightarrow> short k"
| "sb_body_printable (ADD_NODE_TO_BLOCKCHAIN b) \<longleftrightarrow>
     short (nb_node_pub_key b) \<and> short (nb_blockchain_pub_key b) \<and> name_printable (nb_alias b)"
| "sb_body_printable (REMOVE_NODE_FROM_BLOCKCHAIN b) \<longleftrightarrow>
     short (nb_node_pub_key b) \<and> short (nb_blockchain_pub_key b) \<and> name_printable (nb_alias b)"
| "sb_body_printable (SB_SIGNATURES ss) \<longleftrightarrow> list_all signature_sized ss \<and> length (shown_signatures ss) = 1"
| "sb_body_printable _ \<longleftrightarrow> False"

fun sb_record_name :: "SbBody \<Rightarrow> string" where
  "sb_record_name (SB_HEADER _) = ''SB_HEADER''"
| "sb_record_name (SB_ADD_ADMIN _) = ''SB_ADD_ADMIN''"
| "sb_record_name (SB_ADD_NODE _) = ''SB_ADD_NODE''"
| "sb_record_name (ENABLE_ADMIN _) = ''ENABLE_ADMIN''"
| "sb_record_name (DISABLE_ADMIN _) = ''DISABLE_ADMIN''"
| "sb_record_name (ENABLE_NODE _) = ''ENABLE_NODE''"
| "sb_record_name (DISABLE_NODE _) = ''DISABLE_NODE''"
| "sb_record_name (ADD_BLOCKCHAIN _) = ''ADD_BLOCKCHAIN''"
| "sb_record_name (ADD_NODE_TO_BLOCKCHAIN _) = ''ADD_NODE_TO_BLOCKCHAIN''"
| "sb_record_name (REMOVE_NODE_FROM_BLOCKCHAIN _) = ''REMOVE_NODE_FROM_BLOCKCHAIN''"
| "sb_record_name (SB_SIGNATURES _) = ''SIGNATURES''"
| "sb_record_name (sb_other_record _) = []"

definition sb_result_names :: "string list" where
  "sb_result_names =
     [''SUCCESS'', ''DUPLICATE_PUB_KEY'', ''BAD_ADMIN_SIGNATURE'', ''NON_MAJORITY'', ''DUPLICATE_ALIAS'',
      ''NODE_ALREADY_ADDED_TO_BLOCKCHAIN'']"

definition sb_json :: "SbRecord \<Rightarrow> json" where
  "sb_json t = obj
     [(''version_number'', JNumber (sint (sb_version_number t))), (''hedera_transaction'', hedera_json (sb_hedera_transaction t)),
      (''record_type'', JString (bytes_of (sb_record_name (sb_body t)))), (''memo'', JString (text_of (sb_memo t))),
      (''signature_count'', num (sb_signature_count t)), (''result'', JString (bytes_of (sb_result_names ! unat (sb_result t)))),
      sb_body_json (sb_body t)]"

definition sb_frame_printable :: "SbRecord \<Rightarrow> bool" where
  "sb_frame_printable t \<longleftrightarrow> hedera_sized (sb_hedera_transaction t) \<and> name_printable (sb_memo t) \<and>
     unat (sb_result t) < length sb_result_names"

lemma sb_keys_plain [simp]:
  "plain (bytes_of ''admin'')" "plain (bytes_of ''pub_key'')" "plain (bytes_of ''name'')" "plain (bytes_of ''email'')"
  "plain (bytes_of ''add_node'')" "plain (bytes_of ''node_type'')" "plain (bytes_of ''enable_admin'')"
  "plain (bytes_of ''disable_admin'')" "plain (bytes_of ''enable_node'')" "plain (bytes_of ''disable_node'')"
  "plain (bytes_of ''add_blockchain'')" "plain (bytes_of ''add_node_to_blockchain'')" "plain (bytes_of ''remove_node_from_blockchain'')"
  "plain (bytes_of ''node_pub_key'')" "plain (bytes_of ''blockchain_pub_key'')" "plain (bytes_of ''signatures'')"
  "plain (bytes_of ''header'')" "plain (bytes_of ''subcluster_name'')" "plain (bytes_of ''initial_key_type'')"
  "plain (bytes_of ''ca_pub_key_chain_length'')"
  by (simp_all add: plain_def bytes_of_def text_char_def)

lemma node_types_plain:
  assumes "c \<in> {1, 2, 3, 4, 5, 6}"
  shows "\<exists>s. [''ORDERING'', ''GRADIDO'', ''LOGIN'', ''BACKUP'', ''LOGGER'', ''PINGER''] ! (unat c - 1) = s \<and>
    node_type_str c = Inr (bytes_of s) \<and> plain (bytes_of s)"
  using assms by (auto simp: node_type_str_def switch_str_def plain_def bytes_of_def text_char_def)

lemma sb_record_str_name:
  "\<forall>c. b \<noteq> sb_other_record c \<Longrightarrow>
     sb_record_str (sb_record_type b) = Inr (bytes_of (sb_record_name b))"
  "plain (bytes_of (sb_record_name b))"
  by (cases b; simp add: sb_record_str_def switch_str_def; fail)
    (cases b; simp add: plain_def bytes_of_def text_char_def; fail)

lemma sb_result_str_name:
  assumes "unat c < length sb_result_names"
  shows "sb_result_str c = Inr (bytes_of (sb_result_names ! unat c)) \<and> plain (bytes_of (sb_result_names ! unat c))"
proof -
  have "unat c \<in> {0, 1, 2, 3, 4, 5}"
    using assms by (auto simp: sb_result_names_def)
  then have "c \<in> {0, 1, 2, 3, 4, 5}"
    by (auto simp: word_unat_eq_iff)
  then show ?thesis
    by (auto simp: sb_result_str_def switch_str_def sb_result_names_def plain_def bytes_of_def text_char_def)
qed

lemma dump_sb_body_prints:
  assumes "sb_body_printable b"
  shows "prints_res (dump_sb_body b) (member (fst (sb_body_json b)) (snd (sb_body_json b)))"
proof (cases b)
  case (SB_ADD_NODE n)
  then obtain s where "[''ORDERING'', ''GRADIDO'', ''LOGIN'', ''BACKUP'', ''LOGGER'', ''PINGER''] ! (unat (node_type n) - 1) = s"
      "node_type_str (node_type n) = Inr (bytes_of s)" "plain (bytes_of s)"
    using assms node_types_plain [of "node_type n"] by auto
  then show ?thesis
    using SB_ADD_NODE assms by (simp add: dump_in_hex_short json_parts)
next
  case (SB_SIGNATURES ss)
  then obtain s where "shown_signatures ss = [s]"
    using assms by (auto simp: length_Suc_conv)
  then show ?thesis
    using SB_SIGNATURES dump_signatures_prints [of ss "''signatures''"] assms by simp
qed (use assms in \<open>simp_all add: dump_in_hex_short c_str_printable json_parts name_printable_def
      dump_key_entity_def dump_node_blockchain_def\<close>)

lemma dump_sb_frame:
  assumes "sb_frame_printable t" "\<forall>c. sb_body t \<noteq> sb_other_record c" "dump_sb_body (sb_body t) = Inr b"
  shows "\<exists>out. dump_sb_record t = Inr out \<and> (\<forall>r. scan_json (out @ r) = map_option ((@) (TOpen #
    member ''version_number'' (JNumber (sint (sb_version_number t))) @ TComma #
    member ''hedera_transaction'' (hedera_json (sb_hedera_transaction t)) @ TComma #
    member ''record_type'' (JString (bytes_of (sb_record_name (sb_body t)))) @ TComma #
    member ''memo'' (JString (text_of (sb_memo t))) @ TComma #
    member ''signature_count'' (num (sb_signature_count t)) @ TComma #
    member ''result'' (JString (bytes_of (sb_result_names ! unat (sb_result t)))) @ [TComma])) (scan_json (b @ 125 # 10 # r)))"
proof -
  obtain hd where hd: "dump_hedera 2 (sb_hedera_transaction t) = Inr hd"
      "prints hd (member ''hedera_transaction'' (hedera_json (sb_hedera_transaction t)))"
    using dump_hedera_prints [of "sb_hedera_transaction t" 2] assms(1)
    by (auto simp: prints_res_def sb_frame_printable_def hedera_sized_def short_sized)
  show ?thesis
    using assms sb_result_str_name [of "sb_result t"] hd(2) [THEN printsD] sb_record_str_name(1) [OF assms(2)] sb_record_str_name(2) [of "sb_body t"]
    by (simp add: dump_sb_record_def sb_frame_printable_def hd(1) c_str_printable line_parts member_def num_def name_printable_def)
qed

text \<open>
  Records of a subcluster other than the header are printed as JSON under the same condition; the header never
  is when its key chain has length one, which is what \<open>create_sb\<close> writes.
\<close>

lemma printed_sb_record:
  assumes "sb_frame_printable t" "sb_body_printable (sb_body t)"
  shows "prints_res (dump_sb_record t) (json_tokens (sb_json t))"
proof -
  obtain b where b: "dump_sb_body (sb_body t) = Inr b" "prints b (member (fst (sb_body_json (sb_body t))) (snd (sb_body_json (sb_body t))))"
    using dump_sb_body_prints [OF assms(2)] by (auto simp: prints_res_def)
  have "\<forall>c. sb_body t \<noteq> sb_other_record c"
    using assms(2) by auto
  from dump_sb_frame [OF assms(1) this b(1)] show ?thesis
    using b(2) [THEN printsD] by (auto simp: prints_res_def prints_def sb_json_def obj_def member_def case_prod_beta)
qed

lemma scan_control: "scan_json (1 # r) = None"
  by (simp add: scan_json.simps(2) [of 1] punctuation_def is_digit_def word_le_nat_alt)

lemma header_not_json:
  assumes "sb_frame_printable t" "sb_body t = SB_HEADER h" "ca_pub_key_chain_length h = 1" "short (header_pub_key h)"
    and "name_printable (subcluster_name h)" "initial_key_type h \<in> {1, 2}"
  shows "\<exists>out. dump_sb_record t = Inr out \<and> parse_json out = None"
proof -
  obtain kt where kt: "key_type_str (initial_key_type h) = Inr kt" "plain kt"
    using assms(6) by (auto simp: key_type_str_def switch_str_def plain_def bytes_of_def text_char_def)
  obtain b where b: "dump_sb_body (sb_body t) = Inr b" "scan_json (b @ [125, 10]) = None"
    using assms(2-5) kt
    by (simp add: dump_in_hex_short c_str_printable name_printable_def line_parts scan_control)
  have "\<forall>c. sb_body t \<noteq> sb_other_record c"
    using assms(2) by simp
  from dump_sb_frame [OF assms(1) this b(1)] show ?thesis
    using b(2) by (auto simp: parse_json_def dest: spec [where x = "[]"])
qed

section \<open>Lists of records\<close>

fun raw_json :: "('p \<Rightarrow> json) \<Rightarrow> 'p Record \<Rightarrow> json" where
  "raw_json payload_json (PAYLOAD p) = payload_json p"
| "raw_json payload_json (CHECKSUM c) = hex c"
| "raw_json payload_json _ = JString []"

fun raw_printable :: "('p \<Rightarrow> bool) \<Rightarrow> 'p Record \<Rightarrow> bool" where
  "raw_printable printable (PAYLOAD p) \<longleftrightarrow> printable p"
| "raw_printable printable (CHECKSUM c) \<longleftrightarrow> short c"
| "raw_printable printable _ \<longleftrightarrow> False"

text \<open>
  What the programs that print a blockchain rely on, whatever its records are: a printable payload has a text, with
  the tokens of its value.
\<close>

locale record_printer =
  fixes dump_payload :: "'p \<Rightarrow> bytes res"
    and payload_json :: "'p \<Rightarrow> json"
    and printable :: "'p \<Rightarrow> bool"
  assumes payload_prints: "printable p \<Longrightarrow> prints_res (dump_payload p) (json_tokens (payload_json p))"
begin

lemma record_prints: "raw_printable printable r \<Longrightarrow> prints_res (dump_record dump_payload r) (json_tokens (raw_json payload_json r))"
  by (cases r) (simp_all add: dump_record_def payload_prints dump_in_hex_short prints_def hex_def endl_def)

lemma list_prints:
  "list_all (raw_printable printable) rs \<Longrightarrow>
     prints_res (dump_list dump_payload is_first rs)
       ((if is_first \<or> rs = [] then [] else [TComma]) @ element_tokens (map (raw_json payload_json) rs))"
proof (induction rs arbitrary: is_first)
  case (Cons r rs)
  obtain t where "dump_record dump_payload r = Inr t" "prints t (json_tokens (raw_json payload_json r))"
    using record_prints Cons.prems by (auto simp: prints_res_def)
  moreover obtain u where "dump_list dump_payload False rs = Inr u"
      "prints u ((if rs = [] then [] else [TComma]) @ element_tokens (map (raw_json payload_json) rs))"
    using Cons.IH [of False] Cons.prems by (auto simp: prints_res_def)
  ultimately show ?case
    by (auto simp: prints_def comma_def)
qed (simp add: prints_def)

end

interpretation group_printer: record_printer dump_gradido_record record_json record_printable
  by unfold_locales (rule printed_record)

interpretation register_printer: record_printer dump_register_record
  "\<lambda>t. case t of GROUP_RECORD u \<Rightarrow> register_json u | _ \<Rightarrow> JString []"
  "\<lambda>t. case t of GROUP_RECORD u \<Rightarrow> name_printable (gr_alias u) \<and> hedera_sized (gr_hedera_transaction u) \<and> signature_sized (gr_signature u)
     | _ \<Rightarrow> False"
  by unfold_locales (auto simp: printed_register_record split: GroupRegisterRecord.splits)

interpretation sb_printer: record_printer dump_sb_record sb_json "\<lambda>t. sb_frame_printable t \<and> sb_body_printable (sb_body t)"
  by unfold_locales (simp add: printed_sb_record)

end
