(* ===== verification/Json_Rpc.thy ===== *)
theory Json_Rpc
  imports Facade Json_Properties
begin

text \<open>
  \<open>src/json_rpc/JsonRPCHandler.cpp\<close> and \<open>GetTransactionsTask\<close> of \<open>src/gradido_events.h\<close>: listing the
  records of a group for a client. The records are written as text, and the text is read again by the JSON library
  (\<open>read\<close>, a parameter, as is the type \<open>'j\<close> of its values). HTTP is not modelled.
\<close>

section \<open>The task\<close>

record GetTransactionsTask =
  gt_first :: u64
  gt_result :: "GradidoRecord Record list"
  gt_batch_size :: int
  gt_finished :: bool

definition GetTransactionsTask_new :: "u64 \<Rightarrow> int \<Rightarrow> GetTransactionsTask" where
  "GetTransactionsTask_new k n = \<lparr>gt_first = k, gt_result = [], gt_batch_size = n, gt_finished = False\<rparr>"

definition gt_position :: "GetTransactionsTask \<Rightarrow> nat" where
  "gt_position t = unat (gt_first t + of_nat (length (gt_result t)))"

text \<open>
  The loop of a batch; the argument is the number of rounds left. An exception is caught around the loop and
  ends the task, which keeps what it has.
\<close>

fun gt_batch ::
  "nat \<Rightarrow> nat \<Rightarrow> GetTransactionsTask \<Rightarrow> group_chain \<Rightarrow> (GetTransactionsTask \<times> group_chain) res" where
  "gt_batch now 0 t b = Inr (t, b)"
| "gt_batch now (Suc i) t b =
     (case get_transaction2 now (gt_position t) b of
        Inl (Throw _) \<Rightarrow> Inr (t\<lparr>gt_finished := True\<rparr>, b)
      | Inl e \<Rightarrow> Inl e
      | Inr (None, b1) \<Rightarrow> Inr (t\<lparr>gt_finished := True\<rparr>, b1)
      | Inr (Some d, b1) \<Rightarrow> gt_batch now i (t\<lparr>gt_result := gt_result t @ [d]\<rparr>) b1)"

definition GetTransactionsTask_run ::
  "nat \<Rightarrow> GetTransactionsTask \<Rightarrow> group_chain \<Rightarrow> (GetTransactionsTask \<times> group_chain) res" where
  "GetTransactionsTask_run now t b =
     (if \<not> gt_finished t \<and> gt_position t < get_transaction_count b
      then gt_batch now (nat (gt_batch_size t)) t b
      else Inr (t\<lparr>gt_finished := True\<rparr>, b))"


section \<open>The handler\<close>

partial_function (option) run_until_finished ::
  "nat \<Rightarrow> GetTransactionsTask \<Rightarrow> group_chain \<Rightarrow> (GetTransactionsTask \<times> group_chain) res option" where
  "run_until_finished now t b =
     (if gt_finished t then Some (Inr (t, b))
      else case GetTransactionsTask_run now t b of
             Inl e \<Rightarrow> Some (Inl e)
           | Inr (t1, b1) \<Rightarrow> run_until_finished now t1 b1)"

datatype 'j json_response =
    json_error string
  | json_success 'j nat

definition records_text :: "GradidoRecord Record list \<Rightarrow> bytes res" where
  "records_text rs = bind_res (dump_list dump_gradido_record True rs) (\<lambda>t. Inr ([91, 10] @ t @ [93]))"

text \<open>The answer; an exception is reported to the client.\<close>

definition answer :: "(bytes \<Rightarrow> string + 'j) \<Rightarrow> GradidoRecord Record list \<Rightarrow> 'j json_response res" where
  "answer read rs =
     bind_res (records_text rs) (\<lambda>ss.
       Inr (case read ss of
              Inl msg \<Rightarrow> json_error (''get_transactions(): '' @ msg)
            | Inr v \<Rightarrow> json_success v (length rs)))"

definition getTransactions ::
  "(bytes \<Rightarrow> string + 'j) \<Rightarrow> (bytes \<Rightarrow> int option) \<Rightarrow> nat \<Rightarrow> bytes \<Rightarrow> u64 \<Rightarrow> GradidoNode
     \<Rightarrow> ('j json_response \<times> GradidoNode) res option" where
  "getTransactions read parse now groupAlias lastKnownSequenceNumber n =
     (case node_group_blockchain groupAlias n of
        None \<Rightarrow> Some (Inr (json_error ''group blockchain not found'', n))
      | Some b \<Rightarrow>
          (case get_int parse (fc (conf n)) ''general_batch_size'' of
             Inl (Throw msg) \<Rightarrow> Some (Inr (json_error (''get_transactions(): '' @ msg), n))
           | Inl e \<Rightarrow> Some (Inl e)
           | Inr bs \<Rightarrow>
               (case run_until_finished now (GetTransactionsTask_new lastKnownSequenceNumber bs) b of
                  None \<Rightarrow> None
                | Some (Inl (Throw msg)) \<Rightarrow> Some (Inr (json_error (''get_transactions(): '' @ msg), n))
                | Some (Inl e) \<Rightarrow> Some (Inl e)
                | Some (Inr (t, b1)) \<Rightarrow>
                    Some (bind_res (answer read (gt_result t)) (\<lambda>r.
                      Inr (r, n\<lparr>group_blockchains := fmupd groupAlias b1 (group_blockchains n)\<rparr>))))))"

text \<open>A request: its method and the two parameters, if it has them.\<close>

definition json_handle ::
  "(bytes \<Rightarrow> string + 'j) \<Rightarrow> (bytes \<Rightarrow> int option) \<Rightarrow> nat \<Rightarrow> string \<Rightarrow> bytes option \<Rightarrow> u64 option \<Rightarrow> GradidoNode
     \<Rightarrow> ('j json_response \<times> GradidoNode) res option" where
  "json_handle read parse now mname group_alias sequence_number n =
     (if mname = ''getTransactions''
      then case (group_alias, sequence_number) of
             (Some g, Some k) \<Rightarrow> getTransactions read parse now g k n
           | _ \<Rightarrow> Some (Inr (json_error ''missing parameter'', n))
      else Some (Inr (json_error ''method not known'', n)))"


section \<open>Reading the records\<close>

text \<open>The record at a position of the storage, counted with the checksums.\<close>

definition raw_record :: "group_chain \<Rightarrow> nat \<Rightarrow> GradidoRecord Record" where
  "raw_record b i = file_contents (BlockFile (i div GRADIDO_BLOCK_SIZE)) (ft (storage b)) ! (i mod GRADIDO_BLOCK_SIZE)"

text \<open>A blockchain that is read: what it stores and what it answers stay the same.\<close>

definition reads_as :: "GradidoRecord list \<Rightarrow> group_chain \<Rightarrow> group_chain \<Rightarrow> bool" where
  "reads_as ps b b' \<longleftrightarrow> stores GRADIDO_BLOCK_SIZE (storage b') ps \<and> chain_state b' = chain_state b \<and>
     files (ft (storage b')) = files (ft (storage b))"

lemma raw_record_same: "reads_as ps b b' \<Longrightarrow> raw_record b' = raw_record b"
  by (simp add: raw_record_def reads_as_def file_contents_def fun_eq_iff)

lemma position_in_block:
  assumes "i < n + block_total GRADIDO_BLOCK_SIZE n"
  shows "i div GRADIDO_BLOCK_SIZE < block_total GRADIDO_BLOCK_SIZE n"
proof -
  have "n \<le> block_total GRADIDO_BLOCK_SIZE n * 999"
    unfolding block_total_def GRADIDO_BLOCK_SIZE_def by simp
  then have "i < block_total GRADIDO_BLOCK_SIZE n * 1000"
    using assms by linarith
  then show ?thesis
    by (simp add: GRADIDO_BLOCK_SIZE_def less_mult_imp_div_less)
qed

lemma get_transaction2_ok:
  assumes st: "stores GRADIDO_BLOCK_SIZE (storage b) ps" and i: "i < length ps + block_total GRADIDO_BLOCK_SIZE (length ps)"
  obtains b' where "get_transaction2 now i b = Inr (Some (raw_record b i), b')" "reads_as ps b b'"
proof -
  have q: "i div GRADIDO_BLOCK_SIZE < block_total GRADIDO_BLOCK_SIZE (length ps)"
    using i by (rule position_in_block)
  obtain s' where s': "get_block GRADIDO_BLOCK_SIZE now (i div GRADIDO_BLOCK_SIZE) (storage b)
        = Inr ((Some (file_contents (BlockFile (i div GRADIDO_BLOCK_SIZE)) (ft (storage b))), OK), s')"
      "stores GRADIDO_BLOCK_SIZE s' ps" "store_step GRADIDO_BLOCK_SIZE (storage b) s'"
    by (rule get_block_ok [OF st q, of now]) (rule that)
  have "length (file_contents (BlockFile (i div GRADIDO_BLOCK_SIZE)) (ft (storage b))) = GRADIDO_BLOCK_SIZE"
    using storesD(6) [OF st q] by (auto simp: is_block_def)
  moreover have "rec_count (storage b) = length ps + block_total GRADIDO_BLOCK_SIZE (length ps)"
    by (rule storesD(4) [OF st])
  ultimately show thesis
    using s' i
    by (intro that [of "b\<lparr>storage := s'\<rparr>"])
      (simp_all add: get_transaction2_def get_record_def get_rec_count_def raw_record_def reads_as_def store_step_def
        cache_step_def GRADIDO_BLOCK_SIZE_def)
qed


section \<open>What is listed\<close>

abbreviation record_total :: "GradidoRecord list \<Rightarrow> nat" where
  "record_total ps \<equiv> length ps + block_total GRADIDO_BLOCK_SIZE (length ps)"

lemma reads_as_trans: "reads_as ps b b1 \<Longrightarrow> reads_as ps b1 b2 \<Longrightarrow> reads_as ps b b2"
  by (simp add: reads_as_def)

lemma gt_position_small:
  "unat (gt_first t) + length (gt_result t) < 2 ^ 64 \<Longrightarrow> gt_position t = unat (gt_first t) + length (gt_result t)"
  by (simp add: gt_position_def unat_word_ariths unat_of_nat)

lemma gt_batch_ok:
  assumes "stores GRADIDO_BLOCK_SIZE (storage b) ps" "record_total ps < 2 ^ 64"
    and "p = unat (gt_first t) + length (gt_result t)" "p \<le> record_total ps"
  shows "\<exists>t' b'. gt_batch now i t b = Inr (t', b') \<and> reads_as ps b b' \<and>
    t' = t\<lparr>gt_result := gt_result t @ map (raw_record b) [p..<min (record_total ps) (p + i)],
           gt_finished := (gt_finished t \<or> record_total ps < p + i)\<rparr>"
  using assms
proof (induction i arbitrary: t b p)
  case 0
  then show ?case
    by (simp add: reads_as_def)
next
  case (Suc i)
  note pos = gt_position_small [of t]
  show ?case
  proof (cases "p < record_total ps")
    case True
    obtain b1 where b1: "get_transaction2 now p b = Inr (Some (raw_record b p), b1)" "reads_as ps b b1"
      by (rule get_transaction2_ok [OF Suc.prems(1) True, of now]) (rule that)
    define t1 where "t1 = t\<lparr>gt_result := gt_result t @ [raw_record b p]\<rparr>"
    obtain t' b' where "gt_batch now i t1 b1 = Inr (t', b')" "reads_as ps b1 b'"
        "t' = t1\<lparr>gt_result := gt_result t1 @ map (raw_record b1) [p + 1..<min (record_total ps) (p + 1 + i)],
           gt_finished := (gt_finished t1 \<or> record_total ps < p + 1 + i)\<rparr>"
      using Suc.IH [of b1 "p + 1" t1] Suc.prems True b1(2) by (auto simp: t1_def reads_as_def)
    moreover have "[p..<min (record_total ps) (p + Suc i)] = p # [p + 1..<min (record_total ps) (p + 1 + i)]"
      using True by (subst upt_conv_Cons) auto
    ultimately show ?thesis
      using b1 pos Suc.prems True raw_record_same [OF b1(2)]
      by (auto simp: t1_def intro: reads_as_trans)
  next
    case False
    then have "p = record_total ps" "get_transaction2 now p b = Inr (None, b)"
      using Suc.prems storesD(4) [OF Suc.prems(1)] by (simp_all add: get_transaction2_def get_rec_count_def)
    then show ?thesis
      using pos Suc.prems by (simp add: reads_as_def)
  qed
qed

text \<open>Where the listing stops: a batch is begun as long as its first position is below the number of transactions.\<close>

definition last_position :: "nat \<Rightarrow> nat \<Rightarrow> nat \<Rightarrow> nat \<Rightarrow> nat" where
  "last_position c n k p = (if c \<le> p then p else min n (p + k * ((c - p + k - 1) div k)))"

lemma last_position_step:
  assumes "0 < k" "p < c" "c \<le> n" "p + k \<le> n"
  shows "last_position c n k (p + k) = last_position c n k p"
proof (cases "c \<le> p + k")
  case True
  then have "(c - p + k - 1) div k = 1"
    using assms by (intro div_nat_eqI) auto
  then show ?thesis
    using True assms by (simp add: last_position_def)
next
  case False
  then have "c - p + k - 1 = (c - (p + k) + k - 1) + k"
    using assms by simp
  then have "(c - p + k - 1) div k = ((c - (p + k) + k - 1) + k) div k"
    by (simp only:)
  also have "\<dots> = Suc ((c - (p + k) + k - 1) div k)"
    using assms(1) by (subst div_add_self2) auto
  finally have "(c - p + k - 1) div k = Suc ((c - (p + k) + k - 1) div k)" .
  then show ?thesis
    using False assms by (simp add: last_position_def add.assoc)
qed

lemma last_position_end:
  assumes "0 < k" "p < c" "c \<le> n" "n < p + k"
  shows "last_position c n k p = n"
proof -
  have "(c - p + k - 1) div k = 1"
    using assms by (intro div_nat_eqI) auto
  then show ?thesis
    using assms by (simp add: last_position_def)
qed

lemma count_ready:
  "stores GRADIDO_BLOCK_SIZE (storage b) ps \<Longrightarrow> chain_state b = READY \<Longrightarrow> get_transaction_count b = length ps"
  using storesD(3,4) [of GRADIDO_BLOCK_SIZE "storage b" ps]
  by (simp add: get_transaction_count_def get_rec_count_def get_block_count_def get_tile_count_def)

lemma run_until_finished_ok:
  assumes "stores GRADIDO_BLOCK_SIZE (storage b) ps" "record_total ps < 2 ^ 64" "chain_state b = READY"
    and "p = unat (gt_first t) + length (gt_result t)" "p < 2 ^ 64" "0 < gt_batch_size t" "\<not> gt_finished t"
  shows "\<exists>t' b'. run_until_finished now t b = Some (Inr (t', b')) \<and> reads_as ps b b' \<and>
    gt_result t' = gt_result t @
      map (raw_record b) [p..<last_position (length ps) (record_total ps) (nat (gt_batch_size t)) p]"
  using assms
proof (induction "length ps - p" arbitrary: t b p rule: less_induct)
  case less
  define k where "k = nat (gt_batch_size t)"
  have k: "0 < k"
    using less.prems by (simp add: k_def)
  have pos: "gt_position t = p"
    using gt_position_small [of t] less.prems by simp
  have count: "get_transaction_count b = length ps"
    using less.prems by (intro count_ready)
  show ?case
  proof (cases "p < length ps")
    case False
    then have "GetTransactionsTask_run now t b = Inr (t\<lparr>gt_finished := True\<rparr>, b)"
      by (simp add: GetTransactionsTask_run_def pos count)
    then have "run_until_finished now t b = Some (Inr (t\<lparr>gt_finished := True\<rparr>, b))"
      using less.prems(7) by (subst run_until_finished.simps) (simp add: run_until_finished.simps)
    then show ?thesis
      using False less.prems(1) by (simp add: last_position_def reads_as_def)
  next
    case True
    define t1 where "t1 = t\<lparr>gt_result := gt_result t @ map (raw_record b) [p..<min (record_total ps) (p + k)],
      gt_finished := (record_total ps < p + k)\<rparr>"
    obtain b1 where b1: "GetTransactionsTask_run now t b = Inr (t1, b1)" "reads_as ps b b1"
      using gt_batch_ok [OF less.prems(1,2,4), of now k] True less.prems(7)
      by (auto simp: GetTransactionsTask_run_def pos count t1_def k_def)
    have unfold: "run_until_finished now t b = run_until_finished now t1 b1"
      using less.prems(7) b1(1) by (subst run_until_finished.simps) simp
    show ?thesis
    proof (cases "record_total ps < p + k")
      case full: True
      then have "run_until_finished now t1 b1 = Some (Inr (t1, b1))"
        by (subst run_until_finished.simps) (simp add: t1_def)
      then show ?thesis
        using unfold b1(2) full last_position_end [OF k True, of "record_total ps"]
        by (simp add: t1_def k_def [symmetric])
    next
      case more: False
      have smaller: "length ps - (p + k) < length ps - p"
        using True k by simp
      obtain t' b' where "run_until_finished now t1 b1 = Some (Inr (t', b'))" "reads_as ps b1 b'"
          "gt_result t' = gt_result t1 @
             map (raw_record b1) [p + k..<last_position (length ps) (record_total ps) (nat (gt_batch_size t1)) (p + k)]"
        using less.hyps [OF smaller, of b1 t1] less.prems b1(2) more by (auto simp: t1_def reads_as_def)
      moreover have "last_position (length ps) (record_total ps) k (p + k) = last_position (length ps) (record_total ps) k p"
        using last_position_step [OF k True, of "record_total ps"] more by simp
      moreover have "p + k \<le> last_position (length ps) (record_total ps) k (p + k)"
        using k more by (simp add: last_position_def)
      moreover from calculation(5) have "[p..<last_position (length ps) (record_total ps) k (p + k)]
          = [p..<p + k] @ [p + k..<last_position (length ps) (record_total ps) k (p + k)]"
        using upt_add_eq_append [of p "p + k" "last_position (length ps) (record_total ps) k (p + k) - (p + k)"] by simp
      ultimately show ?thesis
        using unfold b1(2) more raw_record_same [OF b1(2)] by (auto simp: t1_def k_def [symmetric] intro: reads_as_trans)
    qed
  qed
qed

lemma raw_payload:
  assumes st: "stores GRADIDO_BLOCK_SIZE (storage b) ps" and j: "j < length ps"
  shows "raw_record b (payload_index GRADIDO_BLOCK_SIZE j) = PAYLOAD (ps ! j)"
proof -
  have r: "2 \<le> GRADIDO_BLOCK_SIZE"
    by (rule storesD(1) [OF st])
  note P = payload_block [OF r j] and D = payload_index_div_mod [OF r, of j]
  show ?thesis
    using is_block_nth(1) [OF storesD(6) [OF st P(1)] P(2)] P(3) D by (simp add: raw_record_def)
qed

text \<open>
  What is relied on of the JSON library: it reads a JSON text, with the value that it has (\<open>value\<close> gives the
  library's representation).
\<close>

definition reads_json :: "(bytes \<Rightarrow> string + 'j) \<Rightarrow> (json \<Rightarrow> 'j) \<Rightarrow> bool" where
  "reads_json read value \<longleftrightarrow> (\<forall>t v. parse_json t = Some v \<longrightarrow> read t = Inr (value v))"

lemma answer_printable:
  assumes "list_all (raw_printable record_printable) rs" "reads_json read value"
  shows "answer read rs = Inr (json_success (value (JArray (map (raw_json record_json) rs))) (length rs))"
proof -
  obtain t where "dump_list dump_gradido_record True rs = Inr t" "prints t (element_tokens (map (raw_json record_json) rs))"
    using group_printer.list_prints [OF assms(1), of True] by (auto simp: prints_res_def)
  moreover from this have "parse_json ([91, 10] @ t @ [93]) = Some (JArray (map (raw_json record_json) rs))"
    by (simp add: parse_json_iff printsD)
  ultimately show ?thesis
    using assms(2) by (simp add: answer_def records_text_def reads_json_def)
qed

text \<open>
  C25. Listing transactions: for a group whose blockchain is ready and has printable records, and any positive batch
  size, the call returns, and the answer is the JSON array of the stored records from the requested position on,
  checksums included, up to the end of the first batch that reaches the number of transactions, with each
  transaction in this range at its place.
\<close>

theorem transactions_listed:
  assumes "node_group_blockchain g n = Some b" "stores GRADIDO_BLOCK_SIZE (storage b) ps" "chain_state b = READY"
    and "record_total ps < 2 ^ 64" "get_int parse (fc (conf n)) ''general_batch_size'' = Inr bs" "0 < bs"
    and "\<forall>i < record_total ps. raw_printable record_printable (raw_record b i)" "reads_json read value"
  shows "\<exists>n' rs. getTransactions read parse now g k n
      = Some (Inr (json_success (value (JArray (map (raw_json record_json) rs))) (length rs), n')) \<and>
    rs = map (raw_record b) [unat k..<last_position (length ps) (record_total ps) (nat bs) (unat k)] \<and>
    (\<forall>j < length ps. unat k \<le> payload_index GRADIDO_BLOCK_SIZE j \<longrightarrow>
       payload_index GRADIDO_BLOCK_SIZE j < unat k + length rs \<longrightarrow>
       rs ! (payload_index GRADIDO_BLOCK_SIZE j - unat k) = PAYLOAD (ps ! j))"
proof -
  define rs where "rs = map (raw_record b) [unat k..<last_position (length ps) (record_total ps) (nat bs) (unat k)]"
  obtain t' b' where "run_until_finished now (GetTransactionsTask_new k bs) b = Some (Inr (t', b'))" "gt_result t' = rs"
    using run_until_finished_ok [OF assms(2,4,3), of "unat k" "GetTransactionsTask_new k bs" now] assms(6) unsigned_less [of k]
    by (auto simp: GetTransactionsTask_new_def rs_def)
  moreover have "list_all (raw_printable record_printable) rs"
    using assms(7) by (auto simp: rs_def list_all_iff last_position_def split: if_splits)
  ultimately have "getTransactions read parse now g k n
      = Some (Inr (json_success (value (JArray (map (raw_json record_json) rs))) (length rs),
          n\<lparr>group_blockchains := fmupd g b' (group_blockchains n)\<rparr>))"
    using assms(1,5) answer_printable [OF _ assms(8), of rs] by (simp add: getTransactions_def)
  moreover have "rs ! (payload_index GRADIDO_BLOCK_SIZE j - unat k) = PAYLOAD (ps ! j)"
    if "j < length ps" "unat k \<le> payload_index GRADIDO_BLOCK_SIZE j"
      "payload_index GRADIDO_BLOCK_SIZE j < unat k + length rs" for j
    using that raw_payload [OF assms(2) that(1)] by (simp add: rs_def)
  ultimately show ?thesis
    unfolding rs_def by blast
qed

text \<open>
  The condition compares a position that counts checksums with a number that does not: with a batch size of
  1 the listing stops short, and from the second block on transactions at the end are missing.
\<close>

lemma last_transactions_missing:
  assumes "stores GRADIDO_BLOCK_SIZE (storage b) ps" "chain_state b = READY"
    and "record_total ps < 2 ^ 64" "GRADIDO_BLOCK_SIZE \<le> length ps"
  shows "\<exists>t' b'. run_until_finished now (GetTransactionsTask_new 0 1) b = Some (Inr (t', b')) \<and>
    length (gt_result t') \<le> payload_index GRADIDO_BLOCK_SIZE (length ps - 1)"
proof -
  obtain t' b' where "run_until_finished now (GetTransactionsTask_new 0 1) b = Some (Inr (t', b'))"
      "gt_result t' = map (raw_record b) [0..<last_position (length ps) (record_total ps) 1 0]"
    using run_until_finished_ok [OF assms(1,3,2), of 0 "GetTransactionsTask_new 0 1" now]
    by (auto simp: GetTransactionsTask_new_def)
  moreover have "last_position (length ps) (record_total ps) 1 0 = length ps"
    by (simp add: last_position_def)
  moreover have "length ps \<le> payload_index GRADIDO_BLOCK_SIZE (length ps - 1)"
    using assms(4) by (simp add: payload_index_def GRADIDO_BLOCK_SIZE_def)
  ultimately show ?thesis
    by simp
qed

text \<open>A batch size that is not positive makes the call wait for ever.\<close>

lemma no_batch_no_answer:
  assumes "run_until_finished now t b = Some y"
  shows "\<not> (gt_batch_size t \<le> 0 \<and> \<not> gt_finished t \<and> gt_position t < get_transaction_count b)"
proof (rule run_until_finished.raw_induct
    [where P = "\<lambda>_ t b y. \<not> (gt_batch_size t \<le> 0 \<and> \<not> gt_finished t \<and> gt_position t < get_transaction_count b)",
      OF _ assms], goal_cases)
  case (1 rec now t b y)
  show ?case
  proof
    assume "gt_batch_size t \<le> 0 \<and> \<not> gt_finished t \<and> gt_position t < get_transaction_count b"
    moreover from this have "rec now t b = Some y"
      using 1(2) by (simp add: GetTransactionsTask_run_def)
    ultimately show False
      using 1(1) by blast
  qed
qed

definition listing_node :: "GradidoRecord Blockchain \<Rightarrow> GradidoNode" where
  "listing_node s = (GradidoNode_new blank_config)\<lparr>group_blockchains := fmupd [103] (ready_group s) fmempty\<rparr>"

text \<open>A reader: that of the reference syntax.\<close>

definition read_json :: "bytes \<Rightarrow> string + json" where
  "read_json t = (case parse_json t of None \<Rightarrow> Inl ''parse error'' | Some v \<Rightarrow> Inr v)"

theorem transactions_listed_witness:
  "\<exists>s n' c. stores GRADIDO_BLOCK_SIZE s [GRADIDO_TRANSACTION sample_transfer] \<and>
    getTransactions read_json (\<lambda>_. Some 10) 0 [103] 0 (listing_node s)
      = Some (Inr (json_success (JArray [record_json (GRADIDO_TRANSACTION sample_transfer), c]) 2, n'))"
proof -
  let ?p = "GRADIDO_TRANSACTION sample_transfer"
  obtain s where s: "stores GRADIDO_BLOCK_SIZE s [?p]"
      "file_contents (BlockFile 0) (ft s) = PAYLOAD ?p # CHECKSUM [1] # replicate (GRADIDO_BLOCK_SIZE - 2) EMPTY"
    by (rule one_record_store [of GRADIDO_BLOCK_SIZE ?p "\<lambda>_. [1]" "\<lambda>_. []"]) (simp_all add: GRADIDO_BLOCK_SIZE_def calc_checksum_def)
  have one: "block_total GRADIDO_BLOCK_SIZE (Suc 0) = 1" "last_position 1 2 10 0 = 2"
    by (simp_all add: block_total_def GRADIDO_BLOCK_SIZE_def last_position_def)
  have rec: "raw_record (ready_group s) 0 = PAYLOAD ?p" "raw_record (ready_group s) 1 = CHECKSUM [1]"
    using s(2) by (simp_all add: raw_record_def GRADIDO_BLOCK_SIZE_def)
  have "\<forall>i < record_total [?p]. raw_printable record_printable (raw_record (ready_group s) i)"
    using rec sample_printable by (auto simp: one less_Suc_eq short_def)
  moreover have "reads_json read_json (\<lambda>v. v)"
    by (simp add: reads_json_def read_json_def)
  ultimately show ?thesis
    using transactions_listed [of "[103]" "listing_node s" "ready_group s" "[?p]" "\<lambda>_. Some 10" 10 read_json "\<lambda>v. v" 0 0]
      s one rec
    by (auto simp: listing_node_def node_group_blockchain_def GradidoNode_new_def blank_config_def get_int_def get_string_def
        numeral_2_eq_2 [symmetric] upt_conv_Cons)
qed

section \<open>The request handler\<close>

text \<open>
  The body of an HTTP request is read as JSON and then as a request of JSON-RPC, both by libraries: what the second one
  gives is a request with its method and parameters, or something else, or an exception.
\<close>

datatype rpc_exception = InvalidRequestException | RpcException

datatype rpc_entity =
    rpc_request string "bytes option" "u64 option"
  | rpc_other

definition state_text :: "bytes \<Rightarrow> bytes \<Rightarrow> bytes" where
  "state_text colon msg = [123] @ quoted (bytes_of ''state'') @ [58] @ quoted (bytes_of ''error'') @ [44, 32]
     @ quoted (bytes_of ''msg'') @ colon @ quoted msg @ [125]"

definition exception_text :: bytes where
  "exception_text = [123] @ quoted (bytes_of ''state'') @ [58] @ quoted (bytes_of ''exception'') @ [125]"

definition no_result_text :: bytes where
  "no_result_text = state_text [58] (bytes_of ''no result'')"

text \<open>After an exception the text of the last line of the function follows the one of its handler.\<close>

definition handleRequest ::
  "(bytes \<Rightarrow> string + 'j) \<Rightarrow> ('j \<Rightarrow> rpc_exception + rpc_entity) \<Rightarrow> ('j json_response \<Rightarrow> bytes) \<Rightarrow> (bytes \<Rightarrow> int option) \<Rightarrow> nat
     \<Rightarrow> string \<Rightarrow> bytes \<Rightarrow> GradidoNode \<Rightarrow> (bytes \<times> GradidoNode) res option" where
  "handleRequest read do_parse_json to_json parse now rmethod stream n =
     (if rmethod = ''POST'' \<or> rmethod = ''PUT''
      then case read stream of
             Inl msg \<Rightarrow> Some (Inl (Throw msg))
           | Inr request_json \<Rightarrow>
               (case do_parse_json request_json of
                  Inl InvalidRequestException \<Rightarrow>
                    Some (Inr (state_text [58, 32] (bytes_of ''invalid request'') @ no_result_text, n))
                | Inl RpcException \<Rightarrow> Some (Inr (exception_text @ no_result_text, n))
                | Inr rpc_other \<Rightarrow> Some (Inr (no_result_text, n))
                | Inr (rpc_request mname g k) \<Rightarrow>
                    (case json_handle read parse now mname g k n of
                       None \<Rightarrow> None
                     | Some (Inl f) \<Rightarrow> Some (Inl f)
                     | Some (Inr (r, n1)) \<Rightarrow> Some (Inr (to_json r, n1))))
      else Some (Inr (state_text [58] (bytes_of ''no post or put request''), n)))"

text \<open>A refusal is JSON, but after an exception two texts are sent, which are not.\<close>

lemma plain_refusals:
  "parse_json no_result_text \<noteq> None" "parse_json (state_text [58] (bytes_of ''no post or put request'')) \<noteq> None"
  by code_simp+

lemma invalid_request_not_json:
  assumes "read stream = Inr j" "do_parse_json j = Inl x"
  shows "\<exists>t. handleRequest read do_parse_json to_json parse now ''POST'' stream n = Some (Inr (t, n)) \<and> parse_json t = None"
proof -
  have "parse_json (state_text [58, 32] (bytes_of ''invalid request'') @ no_result_text) = None"
    by code_simp
  moreover have "parse_json (exception_text @ no_result_text) = None"
    by code_simp
  ultimately show ?thesis
    using assms by (cases x) (simp_all add: handleRequest_def)
qed

end
