(* ===== verification/Versioned.thy ===== *)
theory Versioned
  imports Gradido_Def Core_Utils
begin

text \<open>
  \<open>src/versioned.cpp\<close>: what depends on the version of the protocol. The first part has the messages of the
  handshake and the methods of \<open>Versioned_1\<close> that write and read them; serialisation is protobuf's and is
  the argument \<open>pb\<close>. The second part has the factories for transactions.
\<close>

section \<open>Messages\<close>

text \<open>\<open>proto::Timestamp\<close> has the fields of \<open>HederaTimestamp\<close>.\<close>

type_synonym proto_Timestamp = HederaTimestamp

record grpr_Transaction =
  grpr_version :: u64
  body_bytes :: bytes
  grpr_success :: bool
  sigMap :: "(bytes \<times> bytes) list"

record Handshake0 =
  h0_transaction_id :: proto_Timestamp
  starter_endpoint :: bytes

record Handshake1 =
  h1_transaction_id :: proto_Timestamp
  h1_pub_key :: bytes

record Handshake2 =
  h2_transaction_id :: proto_Timestamp
  h2_pub_key :: bytes
  h2_type :: bytes

record Handshake3 =
  h3_transaction_id :: proto_Timestamp
  sb_transaction :: bytes

text \<open>New messages have the default values of their fields.\<close>

definition grpr_Transaction_new :: grpr_Transaction where
  "grpr_Transaction_new = \<lparr>grpr_version = 0, body_bytes = [], grpr_success = False, sigMap = []\<rparr>"

definition Handshake1_new :: Handshake1 where
  "Handshake1_new = \<lparr>h1_transaction_id = ts_zero, h1_pub_key = []\<rparr>"

definition Handshake2_new :: Handshake2 where
  "Handshake2_new = \<lparr>h2_transaction_id = ts_zero, h2_pub_key = [], h2_type = []\<rparr>"

definition Handshake3_new :: Handshake3 where
  "Handshake3_new = \<lparr>h3_transaction_id = ts_zero, sb_transaction = []\<rparr>"

text \<open>
  \<open>SerializeToString\<close> of the five messages, and the message \<open>ParseFromString\<close> leaves behind (its result
  is ignored). Parsing what was serialised gives the message back.
\<close>

record codec =
  ser_h0 :: "Handshake0 \<Rightarrow> bytes"
  ser_h1 :: "Handshake1 \<Rightarrow> bytes"
  ser_h2 :: "Handshake2 \<Rightarrow> bytes"
  ser_h3 :: "Handshake3 \<Rightarrow> bytes"
  ser_transaction :: "grpr_Transaction \<Rightarrow> bytes"
  parse_h0 :: "bytes \<Rightarrow> Handshake0"

definition parses_back :: "codec \<Rightarrow> bool" where
  "parses_back pb \<longleftrightarrow> (\<forall>z. parse_h0 pb (ser_h0 pb z) = z)"


section \<open>Version 1 of the protocol\<close>

datatype rpc_method =
    create_node_handshake0 | create_node_handshake2 | create_ordering_node_handshake2 | submit_message
  | subscribe_to_blockchain | submit_log_message | ping

definition RequestSigValidator_1 :: "rpc_method \<Rightarrow> grpr_Transaction \<Rightarrow> bool" where
  "RequestSigValidator_1 m t = True"

definition ResponseSigValidator_1 :: "rpc_method \<Rightarrow> grpr_Transaction \<Rightarrow> bool" where
  "ResponseSigValidator_1 m t = True"

definition sign :: "grpr_Transaction \<Rightarrow> grpr_Transaction" where
  "sign t = t"

definition translate_log_message :: "grpr_Transaction \<Rightarrow> (bool \<times> bytes) res" where
  "translate_log_message t = Inl (Undefined ''missing return'')"

text \<open>The message to be filled is a new one; most translations leave it so.\<close>

definition translate_h0 :: "codec \<Rightarrow> grpr_Transaction \<Rightarrow> bool \<times> Handshake0" where
  "translate_h0 pb t = (True, parse_h0 pb (body_bytes t))"

definition translate_h1 :: "grpr_Transaction \<Rightarrow> bool \<times> Handshake1" where
  "translate_h1 t = (True, Handshake1_new)"

definition translate_h2 :: "grpr_Transaction \<Rightarrow> bool \<times> Handshake2" where
  "translate_h2 t = (True, Handshake2_new)"

definition translate_h3 :: "grpr_Transaction \<Rightarrow> bool \<times> Handshake3" where
  "translate_h3 t = (True, Handshake3_new)"

definition translate_sb_batch :: "grpr_Transaction \<Rightarrow> 'b \<Rightarrow> bool \<times> 'b" where
  "translate_sb_batch t out = (True, out)"

definition translate_ordering_request :: "grpr_Transaction \<Rightarrow> 'r \<Rightarrow> bool \<times> 'r" where
  "translate_ordering_request t ore = (True, ore)"

definition translate_sb_transaction :: "bytes \<Rightarrow> bool \<times> grpr_Transaction" where
  "translate_sb_transaction bs = (True, grpr_Transaction_new)"

definition vnum :: u64 where "vnum = 1"

definition prepare_h0 :: "codec \<Rightarrow> proto_Timestamp \<Rightarrow> grpr_Transaction \<Rightarrow> bytes \<Rightarrow> bool \<times> grpr_Transaction" where
  "prepare_h0 pb ts out endpoint =
     (True, out\<lparr>grpr_version := vnum,
                body_bytes := ser_h0 pb \<lparr>h0_transaction_id = ts, starter_endpoint = endpoint\<rparr>,
                grpr_success := True\<rparr>)"

definition prepare_h1 :: "codec \<Rightarrow> proto_Timestamp \<Rightarrow> grpr_Transaction \<Rightarrow> bytes \<Rightarrow> bool \<times> grpr_Transaction" where
  "prepare_h1 pb ts out kp_pub_key =
     (True, out\<lparr>grpr_version := vnum,
                body_bytes := ser_h1 pb \<lparr>h1_transaction_id = ts, h1_pub_key = kp_pub_key\<rparr>,
                grpr_success := True\<rparr>)"

definition prepare_h2 ::
  "codec \<Rightarrow> proto_Timestamp \<Rightarrow> bytes \<Rightarrow> grpr_Transaction \<Rightarrow> bytes \<Rightarrow> bool \<times> grpr_Transaction" where
  "prepare_h2 pb ts type out kp_pub_key =
     (True, out\<lparr>grpr_version := vnum,
                body_bytes := ser_h2 pb \<lparr>h2_transaction_id = ts, h2_pub_key = kp_pub_key, h2_type = type\<rparr>,
                grpr_success := True\<rparr>)"

definition prepare_h3 ::
  "codec \<Rightarrow> proto_Timestamp \<Rightarrow> grpr_Transaction \<Rightarrow> grpr_Transaction \<Rightarrow> bool \<times> grpr_Transaction" where
  "prepare_h3 pb ts sb out =
     (True, out\<lparr>grpr_version := vnum,
                body_bytes := ser_h3 pb \<lparr>h3_transaction_id = ts, sb_transaction = ser_transaction pb sb\<rparr>,
                grpr_success := True\<rparr>)"

definition prepare_add_node :: "proto_Timestamp \<Rightarrow> bytes \<Rightarrow> grpr_Transaction \<Rightarrow> bool \<times> grpr_Transaction" where
  "prepare_add_node ts type out = (True, out)"


section \<open>Factories of transactions\<close>

datatype FactoryExitCode = FACTORY_OK | ID_BAD_LENGTH | ID_NOT_A_HEX | MEMO_TOO_LONG | MEMO_CONTAINS_ZERO_CHAR

definition MAX_TOTAL_MEMO_LENGTH :: nat where
  "MAX_TOTAL_MEMO_LENGTH = MEMO_FULL_SIZE * 5 + MEMO_MAIN_SIZE"

text \<open>There is no return statement for an identifier that passes both tests.\<close>

definition check_id :: "bytes \<Rightarrow> FactoryExitCode res" where
  "check_id uid =
     (if length uid \<noteq> PUB_KEY_LENGTH * 2 then Inr ID_BAD_LENGTH
      else if \<not> is_hex uid then Inr ID_NOT_A_HEX
      else Inl (Undefined ''missing return''))"

text \<open>
  The loop that copies the rest of the memo into the records that follow. Each record takes up to
  \<open>MEMO_FULL_SIZE\<close> characters, its field has \<open>MEMO_MAIN_SIZE\<close>.
\<close>

fun copy_memo_parts :: "nat \<Rightarrow> bytes \<Rightarrow> Transaction list res" where
  "copy_memo_parts 0 rest = Inr []"
| "copy_memo_parts (Suc n) rest =
     bind_res (copy_field MEMO_MAIN_SIZE (take MEMO_FULL_SIZE rest)) (\<lambda>m.
     bind_res (copy_memo_parts n (drop MEMO_FULL_SIZE rest)) (\<lambda>rs.
       Inr (Transaction_zero\<lparr>memo := m\<rparr> # rs)))"

definition memo_part_count :: "bytes \<Rightarrow> nat" where
  "memo_part_count m =
     (if length m < MEMO_MAIN_SIZE then 0 else (length m - MEMO_MAIN_SIZE) div MEMO_FULL_SIZE + 1)"

definition prepare_memo_recs :: "HederaTimestamp \<Rightarrow> bytes \<Rightarrow> (FactoryExitCode \<times> Transaction list) res" where
  "prepare_memo_recs now m =
     (if length m > MAX_TOTAL_MEMO_LENGTH then Inr (MEMO_TOO_LONG, [])
      else if contains_null m then Inr (MEMO_CONTAINS_ZERO_CHAR, [])
      else
        bind_res (copy_field MEMO_MAIN_SIZE (take MEMO_MAIN_SIZE m)) (\<lambda>m0.
        bind_res (copy_memo_parts (memo_part_count m) (drop MEMO_MAIN_SIZE m)) (\<lambda>rs.
          Inr (FACTORY_OK, Transaction_zero\<lparr>version_number := 1, transaction_id := now, memo := m0\<rparr> # rs))))"

text \<open>
  What the nine factories have in common: the identifiers are checked one after the other, the records
  for the memo are made, identifiers are copied into fields of \<open>PUB_KEY_LENGTH\<close> bytes of the first one,
  and the amount is set. The type of the transaction is not set; so the fields written to the union are
  listed beside the records.
\<close>

record new_transaction =
  nt_records :: "Transaction list"
  nt_fields :: "bytes list"
  nt_amount :: "u64 option"

fun check_ids :: "bytes list \<Rightarrow> FactoryExitCode res" where
  "check_ids [] = Inr FACTORY_OK"
| "check_ids (u # us) = bind_res (check_id u) (\<lambda>ec. if ec \<noteq> FACTORY_OK then Inr ec else check_ids us)"

fun copy_ids :: "bytes list \<Rightarrow> bytes list res" where
  "copy_ids [] = Inr []"
| "copy_ids (u # us) =
     bind_res (copy_field PUB_KEY_LENGTH (take (PUB_KEY_LENGTH * 2) u)) (\<lambda>f.
     bind_res (copy_ids us) (\<lambda>fs. Inr (f # fs)))"

definition factory ::
  "bytes list \<Rightarrow> bytes list \<Rightarrow> u64 option \<Rightarrow> HederaTimestamp \<Rightarrow> bytes \<Rightarrow> (FactoryExitCode \<times> new_transaction option) res" where
  "factory ids flds amt now m =
     bind_res (check_ids ids) (\<lambda>ec.
       if ec \<noteq> FACTORY_OK then Inr (ec, None)
       else bind_res (prepare_memo_recs now m) (\<lambda>(ec1, rs).
         if ec1 \<noteq> FACTORY_OK then Inr (ec1, None)
         else bind_res (copy_ids flds) (\<lambda>fs.
           Inr (FACTORY_OK, Some \<lparr>nt_records = rs, nt_fields = fs, nt_amount = amt\<rparr>))))"

definition create_gradido_creation where
  "create_gradido_creation now uid amt m = factory [uid] [uid] (Some amt) now m"

definition create_local_transfer where
  "create_local_transfer now user0 user1 amt m = factory [user0, user1] [user0, user1] (Some amt) now m"

definition create_inbound_transfer where
  "create_inbound_transfer now user0 user1 gid amt m =
     factory [user0, user1, gid] [user0, user1, gid] (Some amt) now m"

definition create_outbound_transfer where
  "create_outbound_transfer now user0 user1 gid amt m =
     factory [user0, user1, gid] [user0, user1, gid] (Some amt) now m"

definition create_add_group_friend where
  "create_add_group_friend now uid m = factory [uid] [uid] None now m"

definition create_remove_group_friend where
  "create_remove_group_friend now uid m = factory [uid] [uid] None now m"

definition create_add_user where
  "create_add_user now uid m = factory [uid] [uid] None now m"

text \<open>The field for the other group is filled with the identifier of the user.\<close>

definition create_move_user_inbound where
  "create_move_user_inbound now uid gid m = factory [uid, gid] [uid, uid] None now m"

definition create_move_user_outbound where
  "create_move_user_outbound now uid gid m = factory [uid, gid] [uid, uid] None now m"


section \<open>Memos of new transactions\<close>

lemma copy_field_fits: "length s \<le> n \<Longrightarrow> copy_field n s = Inr (s @ replicate (n - length s) 0)"
  by (simp add: copy_field_def)

lemma contains_null_iff: "contains_null s \<longleftrightarrow> 0 \<in> set s"
  by (induction s) (auto simp: contains_null_def)

text \<open>
  C34. The records made for a memo hold it: a memo of up to 32 characters without null characters gives one
  record, or two from 16 characters on, and the memo fields joined are the memo. Every longer memo that is
  accepted overruns a field.
\<close>

theorem memo_records_hold_memo:
  assumes "\<not> contains_null m" "length m \<le> MAX_TOTAL_MEMO_LENGTH"
  shows "(length m \<le> 2 * MEMO_MAIN_SIZE \<longrightarrow>
      (\<exists>rs. prepare_memo_recs now m = Inr (FACTORY_OK, rs) \<and>
        length rs = (if length m < MEMO_MAIN_SIZE then 1 else 2) \<and>
        concat (map (\<lambda>t. takeWhile (\<lambda>c. c \<noteq> 0) (memo t)) rs) = m \<and>
        (\<forall>t \<in> set rs. length (memo t) = MEMO_MAIN_SIZE) \<and> transaction_id (hd rs) = now)) \<and>
    (2 * MEMO_MAIN_SIZE < length m \<longrightarrow> undefined_behaviour (prepare_memo_recs now m))"
proof (intro conjI impI)
  have null: "0 \<notin> set m" "0 \<notin> set (take MEMO_MAIN_SIZE m)" "0 \<notin> set (drop MEMO_MAIN_SIZE m)"
    using assms(1) by (auto simp: contains_null_iff dest: in_set_takeD in_set_dropD)
  have whole: "takeWhile (\<lambda>c. c \<noteq> 0) (take MEMO_MAIN_SIZE m) = take MEMO_MAIN_SIZE m"
    using null(2) by (auto simp: takeWhile_eq_all_conv)
  have first: "copy_field MEMO_MAIN_SIZE (take MEMO_MAIN_SIZE m)
      = Inr (take MEMO_MAIN_SIZE m @ replicate (MEMO_MAIN_SIZE - length m) 0)"
    by (simp add: copy_field_fits)
  {
    assume short: "length m \<le> 2 * MEMO_MAIN_SIZE"
    show "\<exists>rs. prepare_memo_recs now m = Inr (FACTORY_OK, rs) \<and>
        length rs = (if length m < MEMO_MAIN_SIZE then 1 else 2) \<and>
        concat (map (\<lambda>t. takeWhile (\<lambda>c. c \<noteq> 0) (memo t)) rs) = m \<and>
        (\<forall>t \<in> set rs. length (memo t) = MEMO_MAIN_SIZE) \<and> transaction_id (hd rs) = now"
    proof (cases "length m < MEMO_MAIN_SIZE")
      case True
      then show ?thesis
        using assms first null(1)
        by (simp add: prepare_memo_recs_def memo_part_count_def takeWhile_padded)
    next
      case False
      then have "memo_part_count m = 1" "take MEMO_FULL_SIZE (drop MEMO_MAIN_SIZE m) = drop MEMO_MAIN_SIZE m"
        using short by (simp_all add: memo_part_count_def MEMO_MAIN_SIZE_def MEMO_FULL_SIZE_def)
      then show ?thesis
        using assms first null short False
        by (simp add: whole prepare_memo_recs_def copy_field_fits takeWhile_padded)
    qed
  next
    assume long: "2 * MEMO_MAIN_SIZE < length m"
    then obtain n where n: "memo_part_count m = Suc n"
      by (simp add: memo_part_count_def)
    have "\<not> length (take MEMO_FULL_SIZE (drop MEMO_MAIN_SIZE m)) \<le> MEMO_MAIN_SIZE"
      using long by (simp add: MEMO_MAIN_SIZE_def MEMO_FULL_SIZE_def min_def) linarith
    then show "undefined_behaviour (prepare_memo_recs now m)"
      using assms first n by (simp add: prepare_memo_recs_def copy_field_def)
  }
qed

theorem memo_records_hold_memo_witness:
  "\<exists>rs. prepare_memo_recs ts_zero (replicate 20 97) = Inr (FACTORY_OK, rs) \<and> length rs = 2 \<and>
    concat (map (\<lambda>t. takeWhile (\<lambda>c. c \<noteq> 0) (memo t)) rs) = replicate 20 97"
  using memo_records_hold_memo [of "replicate 20 97" ts_zero]
  by (auto simp: contains_null_iff MAX_TOTAL_MEMO_LENGTH_def MEMO_MAIN_SIZE_def MEMO_FULL_SIZE_def)

text \<open>
  No factory ever makes a transaction: an identifier of the right form has no defined check, any other one
  is an error.
\<close>

lemma check_id_never_passes: "check_id u \<noteq> Inr FACTORY_OK"
  by (simp add: check_id_def)

lemma factory_never_makes:
  assumes "ids \<noteq> []"
  shows "factory ids flds amt now m = Inr (ec, nt) \<Longrightarrow> ec \<in> {ID_BAD_LENGTH, ID_NOT_A_HEX} \<and> nt = None"
proof -
  obtain u us where ids: "ids = u # us"
    using assms by (cases ids) auto
  show "factory ids flds amt now m = Inr (ec, nt) \<Longrightarrow> ec \<in> {ID_BAD_LENGTH, ID_NOT_A_HEX} \<and> nt = None"
    by (auto simp: factory_def ids check_id_def bind_res_Inr_iff split: if_splits)
qed

lemmas factories =
  create_gradido_creation_def create_local_transfer_def create_inbound_transfer_def create_outbound_transfer_def
  create_add_group_friend_def create_remove_group_friend_def create_add_user_def create_move_user_inbound_def
  create_move_user_outbound_def

lemma valid_id_undefined:
  assumes "length u = PUB_KEY_LENGTH * 2" "is_hex u"
  shows "undefined_behaviour (create_add_user now u m)"
    and "undefined_behaviour (create_gradido_creation now u a m)"
    and "undefined_behaviour (create_local_transfer now u v a m)"
  using assms by (simp_all add: factories factory_def check_id_def)

end
