(* ===== verification/Handshake.thy ===== *)
theory Handshake
  imports Versioned Config Subcluster Remote_Calls
begin

text \<open>
  How a node of a subcluster starts: \<open>NodeFacade\<close> and \<open>NodeLauncher\<close> of \<open>src/facades_impl.cpp\<close>, the
  handlers of \<open>src/handshake_handler.cpp\<close>, and the receivers of remote calls of \<open>src/gradido_events.h\<close>. A new
  node waits for the launcher, with which it exchanges the messages h0 to h3, and then starts the
  subcluster blockchain. \<open>exit\<close> raises \<open>SIGTERM\<close>, for which no handler is installed; like an exception
  that reaches a worker thread it ends the process, and both are \<open>Throw\<close>.
\<close>

section \<open>State of a node\<close>

datatype node_kind = LoggerNode | OrderingNode | PingerNode

text \<open>
  What the node takes from outside: protobuf, the clock, its class, a new pair of keys (\<open>None\<close> when the
  library reports an error), how the property file reads a number, and the blocks stored in a folder under a name.
\<close>

record handshake_env =
  pb :: codec
  hs_clock :: proto_Timestamp
  kind :: node_kind
  keypair :: "(bytes \<times> bytes) option"
  parse_int :: "bytes \<Rightarrow> int option"
  stored_sb :: "bytes \<Rightarrow> bytes \<Rightarrow> SbRecord Blockchain"

datatype hs_task = SendH0 bytes | SendH2 bytes grpr_Transaction | FinalizeLauncherAfterHandshake

record sb_object =
  sb_name :: bytes
  sb_ordering_endpoint :: bytes
  sb_ordering_pub_key :: bytes
  sb_chain :: "(SbRecord, SubclusterBlockchain) chain"

text \<open>
  \<open>NodeFacade\<close> with its \<open>HandshakeHandler\<close>, the configuration, the key files, and the tasks pushed with a
  delay of one second.
\<close>

record NodeFacade =
  nf_conf :: AbstractNodeConfig
  nf_files :: file_table
  nf_sb :: "sb_object option"
  h3_ts :: proto_Timestamp
  h2_complete :: bool
  h3_signed :: grpr_Transaction
  handshake_ongoing :: bool
  versioneds :: "i32 list"
  nf_tasks :: "hs_task list"

definition NodeFacade_new :: "AbstractNodeConfig \<Rightarrow> file_table \<Rightarrow> NodeFacade" where
  "NodeFacade_new conf fs =
     \<lparr>nf_conf = conf, nf_files = fs, nf_sb = None, h3_ts = ts_zero, h2_complete = False,
      h3_signed = grpr_Transaction_new, handshake_ongoing = False, versioneds = [], nf_tasks = []\<rparr>"

fun node_type_name :: "SbNodeType \<Rightarrow> bytes" where
  "node_type_name ORDERING = bytes_of ''ORDERING''"
| "node_type_name GRADIDO = bytes_of ''GRADIDO''"
| "node_type_name LOGIN = bytes_of ''LOGIN''"
| "node_type_name BACKUP = bytes_of ''BACKUP''"
| "node_type_name LOGGER = bytes_of ''LOGGER''"
| "node_type_name PINGER = bytes_of ''PINGER''"

text \<open>\<open>PingerNode\<close> does not override the method.\<close>

fun get_node_type_str :: "node_kind \<Rightarrow> bytes res" where
  "get_node_type_str LoggerNode = Inr (node_type_name LOGGER)"
| "get_node_type_str OrderingNode = Inr (node_type_name ORDERING)"
| "get_node_type_str PingerNode = Inl (Throw ''not supported'')"


section \<open>Starting a node\<close>

definition create_kp_identity :: "handshake_env \<Rightarrow> (bytes \<times> bytes) option res" where
  "create_kp_identity e =
     (case keypair e of
        None \<Rightarrow> Inr None
      | Some (sk, pk) \<Rightarrow>
          bind_res (dump_in_hex sk) (\<lambda>priv. bind_res (dump_in_hex pk) (\<lambda>pub. Inr (Some (priv, pub)))))"

text \<open>
  \<open>SubclusterBlockchain::init\<close> fills the table of node types and calls \<open>receive_grpr_transactions\<close>, which
  has no body.
\<close>

definition new_sb :: "handshake_env \<Rightarrow> AbstractNodeConfig \<Rightarrow> sb_object res" where
  "new_sb e conf =
     bind_res (get_data_root_folder (node_fc conf)) (\<lambda>root_folder.
     bind_res (is_sb_host (parse_int e) (node_fc conf)) (\<lambda>host.
     bind_res (get_sb_pub_key (node_fc conf)) (\<lambda>key.
     bind_res (if host then get_grpc_endpoint (node_fc conf) else get_sb_ordering_node_endpoint (node_fc conf)) (\<lambda>ep.
     bind_res (if host then Inr (pub_key (kp conf)) else get_sb_ordering_node_pub_key (node_fc conf)) (\<lambda>opk.
       Inr \<lparr>sb_name = key, sb_ordering_endpoint = ep, sb_ordering_pub_key = opk,
            sb_chain = chain_new (stored_sb e root_folder key) (sb_init SubclusterBlockchain_new)\<rparr>)))))"

definition start_sb :: "handshake_env \<Rightarrow> NodeFacade \<Rightarrow> NodeFacade res" where
  "start_sb e n =
     (if nf_sb n \<noteq> None then Inr n
      else bind_res (new_sb e (nf_conf n)) (\<lambda>ob. Inr (n\<lparr>nf_sb := Some ob\<rparr>)))"

definition NodeFacade_init :: "handshake_env \<Rightarrow> NodeFacade \<Rightarrow> NodeFacade res" where
  "NodeFacade_init e n0 =
     (let n = n0\<lparr>versioneds := versioneds n0 @ [1]\<rparr>
      in if launch_token_is_present (nf_conf n)
         then if kp_present (kp (nf_conf n)) then Inl (Throw ''key pair identity already exists'')
              else bind_res (create_kp_identity e) (\<lambda>ks.
                case ks of
                  None \<Rightarrow> Inl (Throw ''cannot create kp identity'')
                | Some (priv, pub) \<Rightarrow>
                    bind_res (kp_store priv pub (nf_files n) (kp (nf_conf n))) (\<lambda>(fs, k).
                      Inr (n\<lparr>nf_conf := (nf_conf n)\<lparr>kp := k\<rparr>, nf_files := fs, handshake_ongoing := True\<rparr>)))
         else if \<not> kp_present (kp (nf_conf n)) then Inl (Throw ''no identity; provide launch token'')
         else start_sb e n)"

text \<open>The start of a process: the configuration is read, then the facade is initialised.\<close>

definition NodeBase_init ::
  "handshake_env \<Rightarrow> (bytes \<Rightarrow> properties option) \<Rightarrow> properties \<Rightarrow> file_table \<Rightarrow> NodeFacade res" where
  "NodeBase_init e parse_file gradido_conf fs =
     bind_res (AbstractNodeConfig_init parse_file gradido_conf fs) (\<lambda>(conf, fs1).
       NodeFacade_init e (NodeFacade_new conf fs1))"

definition nf_sb_ordering_node_endpoint :: "handshake_env \<Rightarrow> NodeFacade \<Rightarrow> bytes res" where
  "nf_sb_ordering_node_endpoint e n =
     bind_res (is_sb_host (parse_int e) (node_fc (nf_conf n))) (\<lambda>host.
       if host then get_grpc_endpoint (node_fc (nf_conf n))
       else get_sb_ordering_node_endpoint (node_fc (nf_conf n)))"

definition continue_init_after_handshake_done :: "handshake_env \<Rightarrow> NodeFacade \<Rightarrow> NodeFacade res" where
  "continue_init_after_handshake_done e n = start_sb e (n\<lparr>handshake_ongoing := False\<rparr>)"

text \<open>The version is a 64 bit number in the message and an \<open>int\<close> in the table.\<close>

definition get_versioned :: "u64 \<Rightarrow> NodeFacade \<Rightarrow> bool res" where
  "get_versioned v n = Inr (ucast v \<in> set (versioneds n))"

definition get_handshake_handler :: "bool \<Rightarrow> NodeFacade \<Rightarrow> bool" where
  "get_handshake_handler force n \<longleftrightarrow> handshake_ongoing n \<or> force"


section \<open>Handlers of the node\<close>

definition exit_unless :: "bool \<Rightarrow> string \<Rightarrow> 'a \<Rightarrow> 'a res" where
  "exit_unless b msg x = (if b then Inr x else Inl (Throw msg))"

text \<open>\<open>submit_to_blockchain\<close> has neither a body nor a return.\<close>

definition submit_to_blockchain :: "bytes \<Rightarrow> grpr_Transaction \<Rightarrow> bool res" where
  "submit_to_blockchain ep req = Inl (Undefined ''missing return'')"

definition sb_record_added :: "handshake_env \<Rightarrow> grpr_Transaction \<Rightarrow> NodeFacade \<Rightarrow> NodeFacade res" where
  "sb_record_added e t n =
     (if \<not> grpr_success t then Inl (Throw ''success == false in a request'')
      else bind_res (get_versioned (grpr_version t) n) (\<lambda>found.
        if \<not> found then Inl (Throw ''unsupported version_number'')
        else if \<not> ResponseSigValidator_1 create_node_handshake0 t then Inl (Throw ''cannot validate signature'')
        else continue_init_after_handshake_done e n))"

definition handshake_on_transaction :: "handshake_env \<Rightarrow> grpr_Transaction \<Rightarrow> NodeFacade \<Rightarrow> NodeFacade res" where
  "handshake_on_transaction e t n =
     (if h2_complete n
      then if grpr_success t then Inl (Throw ''handshake expected to have single h3 response'') else Inr n
      else if \<not> grpr_success t then Inl (Throw ''success == false in a request'')
      else bind_res (get_versioned (grpr_version t) n) (\<lambda>found.
        if \<not> found then Inl (Throw ''unsupported version_number'')
        else if \<not> ResponseSigValidator_1 create_node_handshake2 t then Inl (Throw ''cannot validate signature'')
        else let (got, h3) = translate_h3 t
             in if \<not> got then Inl (Throw ''cannot acquire Handshake3'')
                else let (got2, t2) = translate_sb_transaction (sb_transaction h3)
                     in if \<not> got2 then Inl (Throw ''h3 bytes is not transaction'')
                        else let n1 = n\<lparr>h2_complete := True\<rparr>
                             in bind_res (is_sb_host (parse_int e) (node_fc (nf_conf n))) (\<lambda>host.
                                  if host
                                  then continue_init_after_handshake_done e (n1\<lparr>h3_signed := sign t2\<rparr>)
                                  else bind_res (nf_sb_ordering_node_endpoint e n1) (\<lambda>ep.
                                    bind_res (submit_to_blockchain ep (sign t2)) (\<lambda>_. Inr n1)))))"

definition get_response_h0 ::
  "handshake_env \<Rightarrow> grpr_Transaction \<Rightarrow> NodeFacade \<Rightarrow> (NodeFacade \<times> grpr_Transaction) res" where
  "get_response_h0 e req n =
     (let (got, h0) = translate_h0 (pb e) req;
          key = pub_key (kp (nf_conf n));
          (got1, res) = prepare_h1 (pb e) (h0_transaction_id h0) grpr_Transaction_new key
      in bind_res (exit_unless got ''cannot translate h0'' ()) (\<lambda>_.
         bind_res (exit_unless got1 ''cannot prepare h1'' (sign (res\<lparr>grpr_success := True\<rparr>))) (\<lambda>h1.
         bind_res (get_node_type_str (kind e)) (\<lambda>type.
           let (got2, t2) = prepare_h2 (pb e) (hs_clock e) type grpr_Transaction_new key
           in bind_res (exit_unless got2 ''cannot prepare h2'' (sign t2)) (\<lambda>h2.
                Inr (n\<lparr>h3_ts := hs_clock e, nf_tasks := nf_tasks n @ [SendH2 (starter_endpoint h0) h2]\<rparr>, h1))))))"


section \<open>The launcher\<close>

record NodeLauncher =
  own_endpoint :: bytes
  launch_node_endpoint :: bytes
  h0_complete :: bool
  l_tasks :: "hs_task list"

definition NodeLauncher_init :: "file_table \<Rightarrow> bytes list \<Rightarrow> NodeLauncher res" where
  "NodeLauncher_init fs params =
     bind_res (NodeLauncherConfig_init fs params) (\<lambda>(k, own, target).
       Inr \<lparr>own_endpoint = own, launch_node_endpoint = target, h0_complete = False, l_tasks = [SendH0 target]\<rparr>)"

definition DEFAULT_VERSION_NUMBER :: i32 where "DEFAULT_VERSION_NUMBER = 1"

definition launcher_get_versioned :: "u64 \<Rightarrow> NodeLauncher \<Rightarrow> bool res" where
  "launcher_get_versioned v l = exit_unless (ucast v = DEFAULT_VERSION_NUMBER) ''wrong version number'' True"

text \<open>The request the task \<open>SendH0\<close> sends; it reads the clock of the launcher.\<close>

definition run_SendH0 :: "codec \<Rightarrow> proto_Timestamp \<Rightarrow> NodeLauncher \<Rightarrow> grpr_Transaction" where
  "run_SendH0 p ts l = sign (snd (prepare_h0 p ts grpr_Transaction_new (own_endpoint l)))"

definition starter_on_transaction :: "grpr_Transaction \<Rightarrow> NodeLauncher \<Rightarrow> NodeLauncher res" where
  "starter_on_transaction t l =
     (if h0_complete l
      then if grpr_success t then Inl (Throw ''handshake expected to have single h1 response'') else Inr l
      else if \<not> grpr_success t then Inl (Throw ''success == false in a request'')
      else bind_res (launcher_get_versioned (grpr_version t) l) (\<lambda>found.
        if \<not> found then Inl (Throw ''unsupported version_number'')
        else if \<not> ResponseSigValidator_1 create_node_handshake0 t then Inl (Throw ''cannot validate signature'')
        else let (got, h1) = translate_h1 t
             in if \<not> got then Inl (Throw ''cannot acquire Handshake1'') else Inr (l\<lparr>h0_complete := True\<rparr>)))"

definition get_response_h2 ::
  "codec \<Rightarrow> grpr_Transaction \<Rightarrow> NodeLauncher \<Rightarrow> (NodeLauncher \<times> grpr_Transaction) res" where
  "get_response_h2 p req l =
     bind_res (exit_unless (h0_complete l) ''h0 not yet completed'' ()) (\<lambda>_.
       let (got, h2) = translate_h2 req;
           (got1, sb_tr) = prepare_add_node (h2_transaction_id h2) (h2_type h2) grpr_Transaction_new;
           (got2, t2) = prepare_h3 p (h2_transaction_id h2) (sign sb_tr) grpr_Transaction_new
       in bind_res (exit_unless got ''cannot translate h2'' ()) (\<lambda>_.
          bind_res (exit_unless got1 ''cannot prepare sb_transaction'' ()) (\<lambda>_.
          bind_res (exit_unless got2 ''cannot prepare h3'' (sign t2)) (\<lambda>h3. Inr (l, h3)))))"


section \<open>Receivers of remote calls\<close>

text \<open>
  \<open>TransactionReceiver::do_run\<close> for a facade with the methods \<open>hh\<close> (is a handshake handler returned) and
  \<open>versioned\<close>; \<open>validate\<close> and \<open>process\<close> are the methods of the concrete receiver. Log messages are left
  out.
\<close>

definition do_run ::
  "bool \<Rightarrow> ('s \<Rightarrow> bool) \<Rightarrow> (u64 \<Rightarrow> 's \<Rightarrow> bool res) \<Rightarrow> rpc_method \<Rightarrow>
   (nat \<Rightarrow> grpr_Transaction \<Rightarrow> 's \<Rightarrow> ('s \<times> grpr_Transaction) res) \<Rightarrow>
   grpr_Transaction \<Rightarrow> nat \<Rightarrow> 's \<Rightarrow> ('s \<times> grpr_Transaction) res" where
  "do_run handshake_expected hh versioned m process req writes s =
     (let rep = grpr_Transaction_new\<lparr>grpr_success := False\<rparr>
      in if \<not> grpr_success req \<and> writes = 0 then Inr (s, rep)
         else if handshake_expected \<noteq> hh s then Inr (s, rep)
         else bind_res (versioned (grpr_version req) s) (\<lambda>found.
           if \<not> found then Inr (s, rep)
           else if writes = 0 \<and> \<not> RequestSigValidator_1 m req then Inr (s, sign rep)
           else bind_res (process writes rep s) (\<lambda>(s1, r). Inr (s1, sign r))))"

text \<open>A receiver as a handler: its constructor does nothing but keep its arguments.\<close>

definition receiver ::
  "(nat \<Rightarrow> 's \<Rightarrow> ('s \<times> grpr_Transaction) res) \<Rightarrow> ('s, unit, grpr_Transaction) handler" where
  "receiver run =
     \<lparr>handler_new = (\<lambda>s c. Inr (s, c)),
      handler_run = (\<lambda>s c writes r. bind_res (run writes s) (\<lambda>(s1, r1). Inr (s1, c, r1))),
      reply_ok = grpr_success\<rparr>"

definition Handshake0Receiver :: "handshake_env \<Rightarrow> grpr_Transaction \<Rightarrow> (NodeFacade, unit, grpr_Transaction) handler" where
  "Handshake0Receiver e req =
     receiver (do_run True (get_handshake_handler False) get_versioned create_node_handshake0
       (\<lambda>writes rep n. if writes = 0 then get_response_h0 e req n else Inr (n, rep)) req)"

definition Handshake2Receiver :: "codec \<Rightarrow> grpr_Transaction \<Rightarrow> (NodeLauncher, unit, grpr_Transaction) handler" where
  "Handshake2Receiver p req =
     receiver (do_run True (\<lambda>_. True) launcher_get_versioned create_node_handshake2
       (\<lambda>writes rep l.
          if writes = 0
          then bind_res (get_response_h2 p req l) (\<lambda>(l1, r).
            Inr (l1\<lparr>l_tasks := l_tasks l1 @ [FinalizeLauncherAfterHandshake]\<rparr>, r))
          else Inr (l, rep)) req)"

definition LogMessageReceiver :: "grpr_Transaction \<Rightarrow> (NodeFacade, unit, grpr_Transaction) handler" where
  "LogMessageReceiver req =
     receiver (do_run False (get_handshake_handler False) get_versioned submit_log_message
       (\<lambda>writes rep n.
          if writes = 0
          then bind_res (translate_log_message req) (\<lambda>_. Inr (n, rep\<lparr>grpr_success := True\<rparr>))
          else Inr (n, rep)) req)"

text \<open>The body is commented out.\<close>

definition SubscribeToBlockchainReceiver :: "grpr_Transaction \<Rightarrow> (NodeFacade, unit, grpr_Transaction) handler" where
  "SubscribeToBlockchainReceiver req =
     receiver (do_run False (get_handshake_handler False) get_versioned submit_message (\<lambda>writes rep n. Inr (n, rep)) req)"

text \<open>The answer is built in a local variable and dropped.\<close>

definition OrderingMessageReceiver :: "grpr_Transaction \<Rightarrow> (NodeFacade, unit, grpr_Transaction) handler" where
  "OrderingMessageReceiver req =
     receiver (do_run False (get_handshake_handler False) get_versioned submit_message
       (\<lambda>writes rep n.
          let (got, _) = translate_ordering_request req ();
              t = sign (grpr_Transaction_new\<lparr>grpr_version := grpr_version req\<rparr>)
          in Inr (n, rep)) req)"

definition PingReceiver :: "(NodeFacade, unit, grpr_Transaction) handler" where
  "PingReceiver =
     \<lparr>handler_new = (\<lambda>s c. Inr (s, c)),
      handler_run = (\<lambda>s c writes r. Inr (s, c, r\<lparr>grpr_success := (writes = 0)\<rparr>)),
      reply_ok = grpr_success\<rparr>"

text \<open>The handler factories: a method that is not listed has the null handler of \<open>EmptyHandlerFactoryImpl\<close>.\<close>

fun handler_factory ::
  "handshake_env \<Rightarrow> rpc_method \<Rightarrow> grpr_Transaction \<Rightarrow> (NodeFacade, unit, grpr_Transaction) handler option" where
  "handler_factory e create_node_handshake0 req = Some (Handshake0Receiver e req)"
| "handler_factory e ping req = Some PingReceiver"
| "handler_factory e submit_log_message req =
     (if kind e = LoggerNode then Some (LogMessageReceiver req) else None)"
| "handler_factory e subscribe_to_blockchain req =
     (if kind e = OrderingNode then Some (SubscribeToBlockchainReceiver req) else None)"
| "handler_factory e submit_message req =
     (if kind e = OrderingNode then Some (OrderingMessageReceiver req) else None)"
| "handler_factory e m req = None"

fun launcher_handler_factory ::
  "codec \<Rightarrow> rpc_method \<Rightarrow> grpr_Transaction \<Rightarrow> (NodeLauncher, unit, grpr_Transaction) handler option" where
  "launcher_handler_factory p create_node_handshake2 req = Some (Handshake2Receiver p req)"
| "launcher_handler_factory p m req = None"


section \<open>Every call is answered at most once\<close>

lemma do_run_later: "0 < writes \<Longrightarrow> (\<And>rep s. process writes rep s = Inr (s, rep)) \<Longrightarrow>
    do_run expected hh versioned m process req writes s = Inr (s', r) \<Longrightarrow> \<not> grpr_success r"
  by (auto simp: do_run_def sign_def grpr_Transaction_new_def bind_res_Inr_iff Let_def split: if_splits)

lemma receiver_bounded:
  assumes "\<And>k s s' r. 0 < k \<Longrightarrow> run k s = Inr (s', r) \<Longrightarrow> \<not> grpr_success r"
  shows "bounded_stream (receiver run) (\<lambda>_ k. 0 < k) (\<lambda>_ _. 0)"
  using assms by unfold_locales (auto simp: receiver_def handler_step_def bind_res_Inr_iff)

interpretation h0_call: bounded_stream "Handshake0Receiver e req" "\<lambda>_ k. 0 < k" "\<lambda>_ _. 0" for e req
  unfolding Handshake0Receiver_def by (rule receiver_bounded, erule do_run_later [rotated 2]) simp_all

interpretation h2_call: bounded_stream "Handshake2Receiver p req" "\<lambda>_ k. 0 < k" "\<lambda>_ _. 0" for p req
  unfolding Handshake2Receiver_def by (rule receiver_bounded, erule do_run_later [rotated 2]) simp_all

interpretation log_call: bounded_stream "LogMessageReceiver req" "\<lambda>_ k. 0 < k" "\<lambda>_ _. 0" for req
  unfolding LogMessageReceiver_def by (rule receiver_bounded, erule do_run_later [rotated 2]) simp_all

interpretation subscribe_call: bounded_stream "SubscribeToBlockchainReceiver req" "\<lambda>_ k. 0 < k" "\<lambda>_ _. 0" for req
  unfolding SubscribeToBlockchainReceiver_def by (rule receiver_bounded, erule do_run_later [rotated 2]) simp_all

interpretation ordering_call: bounded_stream "OrderingMessageReceiver req" "\<lambda>_ k. 0 < k" "\<lambda>_ _. 0" for req
  unfolding OrderingMessageReceiver_def by (rule receiver_bounded, erule do_run_later [rotated 2]) simp_all

interpretation ping_call: bounded_stream PingReceiver "\<lambda>_ k. 0 < k" "\<lambda>_ _. 0"
  by unfold_locales (auto simp: PingReceiver_def handler_step_def)

text \<open>A call of a method without a handler ends at once, with neither an answer nor the end of the stream.\<close>

lemma unserved_call:
  "\<exists>cd. serve (None :: ('s, 'ctx, 'rep) handler option) s (CallData_new r) = Some (Inr (s, cd)) \<and> written cd = [] \<and> \<not> stream_closed cd \<and> \<not> deleted cd"
proof -
  have "serve (None :: ('s, 'ctx, 'rep) handler option) s (CallData_new r) = Some (Inr (s, (CallData_new r)\<lparr>outstanding := False, first_call := False,
      clones := 1, call_status := FINISH\<rparr>))"
    by (subst serve.simps)
      (simp add: CallData_new_def finish_create_def AbstractCallData_new_def proceed_def do_process_def Let_def
        serve_over)
  then show ?thesis
    by (simp add: CallData_new_def finish_create_def AbstractCallData_new_def)
qed

text \<open>
  Whatever the node, the method and the message, serving a call ends, and so it does in the launcher.
\<close>

theorem transaction_calls_end:
  "(\<exists>y. serve (handler_factory e m req) n (CallData_new r) = Some y) \<and>
   (\<exists>y. serve (launcher_handler_factory p m req) l (CallData_new r) = Some y)"
proof
  show "\<exists>y. serve (handler_factory e m req) n (CallData_new r) = Some y"
    using unserved_call [of n r] h0_call.call_ends log_call.call_ends subscribe_call.call_ends ordering_call.call_ends
      ping_call.call_ends
    by (cases m) auto
  show "\<exists>y. serve (launcher_handler_factory p m req) l (CallData_new r) = Some y"
    using unserved_call [of l r] h2_call.call_ends by (cases m) auto
qed

end
