(* ===== verification/Handshake_Runs.thy ===== *)
theory Handshake_Runs
  imports Handshake
begin

text \<open>
  The handshake of a new node with the launcher, all interleavings of the two processes. A run is a
  sequence of steps of the relation \<open>hs_step\<close>; every world a run can reach is one of the explicit worlds
  \<open>world_at\<close>, numbered by how far the two remote calls have got.
\<close>

section \<open>The two processes\<close>

text \<open>
  One event of a call: it comes out of the completion queue, and the handler, if one was pushed, runs.
  The loop \<open>serve\<close> does nothing else.
\<close>

definition call_step ::
  "('s, 'ctx, 'rep) handler option \<Rightarrow> 's \<Rightarrow> ('ctx, 'rep) CallData \<Rightarrow> ('s \<times> ('ctx, 'rep) CallData) res" where
  "call_step hf s cd =
     bind_res (proceed hf s (cd\<lparr>outstanding := False\<rparr>)) (\<lambda>(pushed, s1, cd1).
       if pushed then run_handler (the hf) s1 cd1 else Inr (s1, cd1))"

lemma serve_call_step:
  "serve hf s cd =
     (if \<not> outstanding cd then Some (Inr (s, cd))
      else case call_step hf s cd of Inl f \<Rightarrow> Some (Inl f) | Inr (s1, cd1) \<Rightarrow> serve hf s1 cd1)"
  by (subst serve.simps) (auto simp: call_step_def bind_res_def split: sum.splits)

text \<open>A remote call: the request, the state of the server, and how many of its messages have been read.\<close>

record exchange =
  ex_req :: grpr_Transaction
  ex_cd :: "(unit, grpr_Transaction) CallData"
  ex_read :: nat

record world =
  w_node :: NodeFacade
  w_launcher :: NodeLauncher
  w_h0 :: "exchange option"
  w_h2 :: "exchange option"
  node_end :: "fault option"
  launcher_end :: "fault option"

definition handshake_start :: "NodeFacade \<Rightarrow> NodeLauncher \<Rightarrow> world" where
  "handshake_start n l = \<lparr>w_node = n, w_launcher = l, w_h0 = None, w_h2 = None, node_end = None, launcher_end = None\<rparr>"

definition new_exchange :: "grpr_Transaction \<Rightarrow> exchange" where
  "new_exchange req = \<lparr>ex_req = req, ex_cd = CallData_new grpr_Transaction_new, ex_read = 0\<rparr>"

definition call_over :: "exchange option \<Rightarrow> bool" where
  "call_over x \<longleftrightarrow> (case x of None \<Rightarrow> False | Some c \<Rightarrow> \<not> outstanding (ex_cd c) \<and> ex_read c = length (written (ex_cd c)))"

text \<open>
  The steps. A process that has ended takes no further part; messages it has not yet delivered are
  lost. With \<open>timed\<close> the delay of one second of the two delayed tasks is enough for the call before to be
  over, which is what the code relies on; without it the delay may be anything.
\<close>

inductive hs_step :: "handshake_env \<Rightarrow> bool \<Rightarrow> world \<Rightarrow> world \<Rightarrow> bool" for e timed where
  send_h0: "launcher_end w = None \<Longrightarrow> l_tasks (w_launcher w) = SendH0 ep # ts \<Longrightarrow> w_h0 w = None \<Longrightarrow>
    hs_step e timed w (w\<lparr>w_launcher := (w_launcher w)\<lparr>l_tasks := ts\<rparr>,
                         w_h0 := Some (new_exchange (run_SendH0 (pb e) tm (w_launcher w)))\<rparr>)"
| serve_h0: "node_end w = None \<Longrightarrow> w_h0 w = Some x \<Longrightarrow> outstanding (ex_cd x) \<Longrightarrow>
    call_step (handler_factory e create_node_handshake0 (ex_req x)) (w_node w) (ex_cd x) = Inr (n, cd) \<Longrightarrow>
    hs_step e timed w (w\<lparr>w_node := n, w_h0 := Some (x\<lparr>ex_cd := cd\<rparr>)\<rparr>)"
| serve_h0_fails: "node_end w = None \<Longrightarrow> w_h0 w = Some x \<Longrightarrow> outstanding (ex_cd x) \<Longrightarrow>
    call_step (handler_factory e create_node_handshake0 (ex_req x)) (w_node w) (ex_cd x) = Inl f \<Longrightarrow>
    hs_step e timed w (w\<lparr>node_end := Some f\<rparr>)"
| read_h1: "node_end w = None \<Longrightarrow> launcher_end w = None \<Longrightarrow> w_h0 w = Some x \<Longrightarrow> ex_read x < length (written (ex_cd x)) \<Longrightarrow>
    starter_on_transaction (written (ex_cd x) ! ex_read x) (w_launcher w) = Inr l \<Longrightarrow>
    hs_step e timed w (w\<lparr>w_launcher := l, w_h0 := Some (x\<lparr>ex_read := ex_read x + 1\<rparr>)\<rparr>)"
| read_h1_fails: "node_end w = None \<Longrightarrow> launcher_end w = None \<Longrightarrow> w_h0 w = Some x \<Longrightarrow> ex_read x < length (written (ex_cd x)) \<Longrightarrow>
    starter_on_transaction (written (ex_cd x) ! ex_read x) (w_launcher w) = Inl f \<Longrightarrow>
    hs_step e timed w (w\<lparr>launcher_end := Some f\<rparr>)"
| send_h2: "node_end w = None \<Longrightarrow> nf_tasks (w_node w) = SendH2 ep t # ts \<Longrightarrow> ep = own_endpoint (w_launcher w) \<Longrightarrow>
    w_h2 w = None \<Longrightarrow> (timed \<longrightarrow> call_over (w_h0 w)) \<Longrightarrow>
    hs_step e timed w (w\<lparr>w_node := (w_node w)\<lparr>nf_tasks := ts\<rparr>, w_h2 := Some (new_exchange t)\<rparr>)"
| serve_h2: "launcher_end w = None \<Longrightarrow> w_h2 w = Some x \<Longrightarrow> outstanding (ex_cd x) \<Longrightarrow>
    call_step (launcher_handler_factory (pb e) create_node_handshake2 (ex_req x)) (w_launcher w) (ex_cd x) = Inr (l, cd) \<Longrightarrow>
    hs_step e timed w (w\<lparr>w_launcher := l, w_h2 := Some (x\<lparr>ex_cd := cd\<rparr>)\<rparr>)"
| serve_h2_fails: "launcher_end w = None \<Longrightarrow> w_h2 w = Some x \<Longrightarrow> outstanding (ex_cd x) \<Longrightarrow>
    call_step (launcher_handler_factory (pb e) create_node_handshake2 (ex_req x)) (w_launcher w) (ex_cd x) = Inl f \<Longrightarrow>
    hs_step e timed w (w\<lparr>launcher_end := Some f\<rparr>)"
| read_h3: "node_end w = None \<Longrightarrow> launcher_end w = None \<Longrightarrow> w_h2 w = Some x \<Longrightarrow> ex_read x < length (written (ex_cd x)) \<Longrightarrow>
    handshake_on_transaction e (written (ex_cd x) ! ex_read x) (w_node w) = Inr n \<Longrightarrow>
    hs_step e timed w (w\<lparr>w_node := n, w_h2 := Some (x\<lparr>ex_read := ex_read x + 1\<rparr>)\<rparr>)"
| read_h3_fails: "node_end w = None \<Longrightarrow> launcher_end w = None \<Longrightarrow> w_h2 w = Some x \<Longrightarrow> ex_read x < length (written (ex_cd x)) \<Longrightarrow>
    handshake_on_transaction e (written (ex_cd x) ! ex_read x) (w_node w) = Inl f \<Longrightarrow>
    hs_step e timed w (w\<lparr>node_end := Some f\<rparr>)"
| finalize: "launcher_end w = None \<Longrightarrow> l_tasks (w_launcher w) = FinalizeLauncherAfterHandshake # ts \<Longrightarrow>
    (timed \<longrightarrow> call_over (w_h2 w)) \<Longrightarrow>
    hs_step e timed w (w\<lparr>launcher_end := Some (Throw ''launcher finished successfully''),
                         w_launcher := (w_launcher w)\<lparr>l_tasks := ts\<rparr>\<rparr>)"

inductive hs_steps :: "handshake_env \<Rightarrow> bool \<Rightarrow> nat \<Rightarrow> world \<Rightarrow> world \<Rightarrow> bool" for e timed where
  hs_none: "hs_steps e timed 0 w w"
| hs_more: "hs_steps e timed n w w1 \<Longrightarrow> hs_step e timed w1 w2 \<Longrightarrow> hs_steps e timed (Suc n) w w2"

inductive_cases hs_stepE: "hs_step e timed w w'"


section \<open>A call with one answer\<close>

text \<open>The state of a call after \<open>r\<close> events when its handler answers \<open>g\<close> first and then ends the stream.\<close>

definition cd_after :: "grpr_Transaction \<Rightarrow> nat \<Rightarrow> (unit, grpr_Transaction) CallData" where
  "cd_after g r =
     \<lparr>call_status = (if r < 3 then PROCESS else FINISH), first_call = (r = 0), call_done = (2 \<le> r),
      handler_ctx = None, writes_done = min r 2,
      reply = (if r = 1 then g else grpr_Transaction_new), outstanding = (r < 3),
      clones = (if r = 0 then 0 else 1), written = take r [g, grpr_Transaction_new],
      stream_closed = (2 \<le> r), deleted = False\<rparr>"

lemma cd_after_simps [simp]:
  "outstanding (cd_after g r) \<longleftrightarrow> r < 3" "written (cd_after g r) = take r [g, grpr_Transaction_new]"
  by (simp_all add: cd_after_def)

lemma CallData_new_after: "CallData_new grpr_Transaction_new = cd_after g 0"
  by (simp add: cd_after_def CallData_new_def finish_create_def AbstractCallData_new_def)

lemma grpr_success_new [simp]: "\<not> grpr_success grpr_Transaction_new"
    "grpr_Transaction_new\<lparr>grpr_success := False\<rparr> = grpr_Transaction_new"
  by (simp_all add: grpr_Transaction_new_def)

lemma receiver_step [simp]:
  "call_step (Some (receiver run)) s (cd_after g 0) =
     bind_res (run 0 s) (\<lambda>(s1, r). Inr (s1, write_ready grpr_success
       ((cd_after g 0)\<lparr>outstanding := False, first_call := False, clones := 1, reply := r\<rparr>)))"
  "call_step (Some (receiver run)) s (cd_after g (Suc 0)) =
     bind_res (run 1 s) (\<lambda>(s1, r). Inr (s1, write_ready grpr_success ((cd_after g 1)\<lparr>outstanding := False, reply := r\<rparr>)))"
  "call_step (Some (receiver run)) s (cd_after g 2) = Inr (s, cd_after g 3)"
  by (simp_all add: call_step_def proceed_def do_process_def run_handler_def receiver_def cd_after_def
      bind_res_def Let_def split: sum.splits)

lemma write_ready_after [simp]:
  "grpr_success g \<Longrightarrow> write_ready grpr_success
     ((cd_after g 0)\<lparr>outstanding := False, first_call := False, clones := Suc 0, reply := g\<rparr>) = cd_after g 1"
  "write_ready grpr_success ((cd_after g (Suc 0))\<lparr>outstanding := False, reply := grpr_Transaction_new\<rparr>) = cd_after g 2"
  by (simp_all add: write_ready_def cd_after_def Let_def)

section \<open>The worlds of a handshake\<close>

definition h1_msg :: "handshake_env \<Rightarrow> proto_Timestamp \<Rightarrow> NodeFacade \<Rightarrow> grpr_Transaction" where
  "h1_msg e tm n = snd (prepare_h1 (pb e) tm grpr_Transaction_new (pub_key (kp (nf_conf n))))"

definition h2_msg :: "handshake_env \<Rightarrow> NodeFacade \<Rightarrow> grpr_Transaction" where
  "h2_msg e n = snd (prepare_h2 (pb e) (hs_clock e) (case get_node_type_str (kind e) of Inl _ \<Rightarrow> [] | Inr t \<Rightarrow> t)
     grpr_Transaction_new (pub_key (kp (nf_conf n))))"

definition h3_msg :: "handshake_env \<Rightarrow> grpr_Transaction" where
  "h3_msg e = snd (prepare_h3 (pb e) ts_zero grpr_Transaction_new grpr_Transaction_new)"

lemmas h_msgs = h1_msg_def h2_msg_def h3_msg_def prepare_h0_def prepare_h1_def prepare_h2_def prepare_h3_def run_SendH0_def

lemma h_msgs_good [simp]:
  "grpr_success (h1_msg e tm n)" "grpr_success (h2_msg e n)" "grpr_success (h3_msg e)" "grpr_success (run_SendH0 p tm l)"
  "grpr_version (h1_msg e tm n) = 1" "grpr_version (h2_msg e n) = 1" "grpr_version (h3_msg e) = 1"
  "grpr_version (run_SendH0 p tm l) = 1"
  by (simp_all add: h_msgs vnum_def sign_def)

text \<open>
  The node and the launcher when \<open>a\<close> events of the first call have happened (its start included), \<open>k\<close> of
  its messages have been read, and likewise \<open>b\<close> and \<open>k2\<close> for the second call.
\<close>

definition node_at :: "handshake_env \<Rightarrow> NodeFacade \<Rightarrow> NodeLauncher \<Rightarrow> sb_object \<Rightarrow> nat \<Rightarrow> nat \<Rightarrow> nat \<Rightarrow> NodeFacade" where
  "node_at e n l ob a b k2 =
     n\<lparr>h3_ts := (if 2 \<le> a then hs_clock e else h3_ts n), h2_complete := (1 \<le> k2), handshake_ongoing := (k2 = 0),
       nf_sb := (if 1 \<le> k2 then Some ob else None),
       nf_tasks := (if 2 \<le> a \<and> b = 0 then [SendH2 (own_endpoint l) (h2_msg e n)] else [])\<rparr>"

definition launcher_at :: "NodeLauncher \<Rightarrow> nat \<Rightarrow> nat \<Rightarrow> nat \<Rightarrow> fault option \<Rightarrow> NodeLauncher" where
  "launcher_at l a k b fin =
     l\<lparr>h0_complete := (1 \<le> k),
       l_tasks := (if a = 0 then [SendH0 (launch_node_endpoint l)]
                   else if 2 \<le> b \<and> fin = None then [FinalizeLauncherAfterHandshake] else [])\<rparr>"

definition world_at ::
  "handshake_env \<Rightarrow> proto_Timestamp \<Rightarrow> NodeFacade \<Rightarrow> NodeLauncher \<Rightarrow> sb_object \<Rightarrow> nat \<Rightarrow> nat \<Rightarrow> nat \<Rightarrow> nat \<Rightarrow> fault option \<Rightarrow> world"
where
  "world_at e tm n l ob a k b k2 fin =
     \<lparr>w_node = node_at e n l ob a b k2, w_launcher = launcher_at l a k b fin,
      w_h0 = (if a = 0 then None
              else Some \<lparr>ex_req = run_SendH0 (pb e) tm l, ex_cd = cd_after (h1_msg e tm n) (a - 1), ex_read = k\<rparr>),
      w_h2 = (if b = 0 then None
              else Some \<lparr>ex_req = h2_msg e n, ex_cd = cd_after (h3_msg e) (b - 1), ex_read = k2\<rparr>),
      node_end = None, launcher_end = fin\<rparr>"

definition h0_missing :: fault where "h0_missing = Throw ''h0 not yet completed''"
definition finished :: fault where "finished = Throw ''launcher finished successfully''"

definition phase :: "bool \<Rightarrow> nat \<Rightarrow> nat \<Rightarrow> nat \<Rightarrow> nat \<Rightarrow> fault option \<Rightarrow> bool" where
  "phase timed a k b k2 fin \<longleftrightarrow>
     a \<le> 4 \<and> k \<le> a - 1 \<and> k \<le> 2 \<and> b \<le> 4 \<and> k2 \<le> b - 1 \<and> k2 \<le> 2 \<and> (0 < b \<longrightarrow> 2 \<le> a) \<and> (2 \<le> b \<longrightarrow> 1 \<le> k) \<and>
     (fin = None \<or> fin = Some h0_missing \<and> b = 1 \<and> k = 0 \<or> fin = Some finished \<and> 2 \<le> b) \<and>
     (timed \<longrightarrow> (0 < b \<longrightarrow> a = 4 \<and> k = 2) \<and> (fin \<noteq> None \<longrightarrow> b = 4 \<and> k2 = 2))"

text \<open>
  A new node that is the host of its subcluster, waiting for the handshake, and a launcher that has just
  been started: \<open>ob\<close> is the blockchain object the node will create.
\<close>

definition waiting_host :: "handshake_env \<Rightarrow> NodeFacade \<Rightarrow> NodeLauncher \<Rightarrow> sb_object \<Rightarrow> bool" where
  "waiting_host e n l ob \<longleftrightarrow>
     handshake_ongoing n \<and> nf_sb n = None \<and> \<not> h2_complete n \<and> h3_signed n = grpr_Transaction_new \<and>
     versioneds n = [1] \<and> nf_tasks n = [] \<and> kind e \<noteq> PingerNode \<and> parses_back (pb e) \<and>
     is_sb_host (parse_int e) (node_fc (nf_conf n)) = Inr True \<and>
     new_sb e (nf_conf n) = Inr ob \<and>
     \<not> h0_complete l \<and> l_tasks l = [SendH0 (launch_node_endpoint l)]"

lemma waiting_start:
  assumes "waiting_host e n l ob"
  shows "handshake_start n l = world_at e tm n l ob 0 0 0 0 None" "phase timed 0 0 0 0 None"
  using assms by (simp_all add: waiting_host_def handshake_start_def world_at_def node_at_def launcher_at_def phase_def)


section \<open>What each event does\<close>

lemmas waiting_hostD = waiting_host_def [THEN iffD1]

lemma serve_h0_at:
  assumes "waiting_host e n l ob" "1 \<le> a" "a < 4" "a = 1 \<longrightarrow> b = 0 \<and> k2 = 0"
  shows "call_step (handler_factory e create_node_handshake0 (run_SendH0 (pb e) tm l)) (node_at e n l ob a b k2)
      (cd_after (h1_msg e tm n) (a - 1)) = Inr (node_at e n l ob (a + 1) b k2, cd_after (h1_msg e tm n) a)"
proof -
  obtain type where "get_node_type_str (kind e) = Inr type"
    using waiting_hostD [OF assms(1)] by (cases "kind e") auto
  then have h0: "get_response_h0 e (run_SendH0 (pb e) tm l) (node_at e n l ob 1 0 0) = Inr (node_at e n l ob 2 0 0, h1_msg e tm n)"
    using waiting_hostD [OF assms(1)]
    by (cases n)
      (simp add: get_response_h0_def h_msgs translate_h0_def parses_back_def sign_def exit_unless_def node_at_def Let_def)
  have known: "get_versioned 1 (node_at e n l ob a b k2) = Inr True"
    using waiting_hostD [OF assms(1)] by (simp add: get_versioned_def node_at_def)
  consider "a = 1" | "a = 2" | "a = 3"
    using assms(2,3) by linarith
  then show ?thesis
  proof cases
    case 1
    moreover have "get_handshake_handler False (node_at e n l ob 1 0 0)"
      by (simp add: get_handshake_handler_def node_at_def)
    ultimately show ?thesis
      using assms(4) h0 known
      by (simp add: Handshake0Receiver_def do_run_def RequestSigValidator_1_def sign_def numeral_2_eq_2 [symmetric])
  next
    case 2
    moreover have "node_at e n l ob 2 b k2 = node_at e n l ob 3 b k2"
      by (simp add: node_at_def)
    ultimately show ?thesis
      using known by (simp add: Handshake0Receiver_def do_run_def RequestSigValidator_1_def sign_def numeral_2_eq_2 [symmetric])
  next
    case 3
    moreover have "node_at e n l ob 3 b k2 = node_at e n l ob 4 b k2"
      by (simp add: node_at_def)
    ultimately show ?thesis
      by (simp add: Handshake0Receiver_def)
  qed
qed

lemma less_2_cases: "(k :: nat) < 2 \<Longrightarrow> k = 0 \<or> k = 1"
  by linarith

lemma read_h1_at:
  assumes "k < length (take (a - 1) [h1_msg e tm n, grpr_Transaction_new])"
  shows "starter_on_transaction (take (a - 1) [h1_msg e tm n, grpr_Transaction_new] ! k) (launcher_at l a k b fin)
    = Inr (launcher_at l a (k + 1) b fin)"
  using assms less_2_cases [of k]
  by (auto simp: starter_on_transaction_def launcher_at_def launcher_get_versioned_def exit_unless_def
      DEFAULT_VERSION_NUMBER_def ResponseSigValidator_1_def translate_h1_def)

lemma serve_h2_at:
  assumes "1 \<le> b" "b < 4" "1 \<le> k" "1 \<le> a"
  shows "call_step (launcher_handler_factory (pb e) create_node_handshake2 (h2_msg e n)) (launcher_at l a k b None)
      (cd_after (h3_msg e) (b - 1)) = Inr (launcher_at l a k (b + 1) None, cd_after (h3_msg e) b)"
proof -
  have h2: "get_response_h2 (pb e) (h2_msg e n) (launcher_at l a k b None) = Inr (launcher_at l a k b None, h3_msg e)"
    using assms(3)
    by (simp add: get_response_h2_def exit_unless_def launcher_at_def translate_h2_def prepare_add_node_def sign_def
        h3_msg_def prepare_h3_def Handshake2_new_def)
  have known: "launcher_get_versioned 1 m = Inr True" for m
    by (simp add: launcher_get_versioned_def exit_unless_def DEFAULT_VERSION_NUMBER_def)
  consider "b = 1" | "b = 2" | "b = 3"
    using assms(1,2) by linarith
  then show ?thesis
  proof cases
    case 1
    moreover have "(launcher_at l a k 1 None)\<lparr>l_tasks := l_tasks (launcher_at l a k 1 None) @ [FinalizeLauncherAfterHandshake]\<rparr>
        = launcher_at l a k 2 None"
      using assms(4) by (simp add: launcher_at_def)
    ultimately show ?thesis
      using h2 known
      by (simp add: Handshake2Receiver_def do_run_def RequestSigValidator_1_def sign_def numeral_2_eq_2 [symmetric])
  next
    case 2
    moreover have "launcher_at l a k 2 None = launcher_at l a k 3 None"
      by (simp add: launcher_at_def)
    ultimately show ?thesis
      using known by (simp add: Handshake2Receiver_def do_run_def RequestSigValidator_1_def sign_def numeral_2_eq_2 [symmetric])
  next
    case 3
    moreover have "launcher_at l a k 3 None = launcher_at l a k 4 None"
      by (simp add: launcher_at_def)
    ultimately show ?thesis
      by (simp add: Handshake2Receiver_def)
  qed
qed

lemma serve_h2_early:
  "call_step (launcher_handler_factory (pb e) create_node_handshake2 (h2_msg e n)) (launcher_at l a 0 1 None)
      (cd_after (h3_msg e) 0) = Inl h0_missing"
  by (simp add: Handshake2Receiver_def do_run_def RequestSigValidator_1_def launcher_get_versioned_def exit_unless_def
      DEFAULT_VERSION_NUMBER_def get_response_h2_def launcher_at_def h0_missing_def)

lemma read_h3_at:
  assumes "waiting_host e n l ob" "k2 < length (take (b - 1) [h3_msg e, grpr_Transaction_new])"
  shows "handshake_on_transaction e (take (b - 1) [h3_msg e, grpr_Transaction_new] ! k2) (node_at e n l ob a b k2)
    = Inr (node_at e n l ob a b (k2 + 1))"
  using waiting_hostD [OF assms(1)] assms(2) less_2_cases [of k2]
  by (auto simp: handshake_on_transaction_def node_at_def get_versioned_def ResponseSigValidator_1_def translate_h3_def
      translate_sb_transaction_def sign_def continue_init_after_handshake_done_def start_sb_def)


section \<open>Every run stays in these worlds\<close>

definition events :: "nat \<Rightarrow> nat \<Rightarrow> nat \<Rightarrow> nat \<Rightarrow> fault option \<Rightarrow> nat" where
  "events a k b k2 fin = a + k + b + k2 + (case fin of None \<Rightarrow> 0 | Some _ \<Rightarrow> 1)"

definition one_of_these :: "handshake_env \<Rightarrow> bool \<Rightarrow> NodeFacade \<Rightarrow> NodeLauncher \<Rightarrow> sb_object \<Rightarrow> nat \<Rightarrow> world \<Rightarrow> bool" where
  "one_of_these e timed n l ob i w \<longleftrightarrow>
     (\<exists>tm a k b k2 fin. w = world_at e tm n l ob a k b k2 fin \<and> phase timed a k b k2 fin \<and> events a k b k2 fin = i)"

lemma one_of_theseI:
  "w = world_at e tm n l ob a k b k2 fin \<Longrightarrow> phase timed a k b k2 fin \<Longrightarrow> events a k b k2 fin = i \<Longrightarrow>
    one_of_these e timed n l ob i w"
  unfolding one_of_these_def by blast

lemma world_at_simps [simp]:
  "w_node (world_at e tm n l ob a k b k2 fin) = node_at e n l ob a b k2"
  "w_launcher (world_at e tm n l ob a k b k2 fin) = launcher_at l a k b fin"
  "node_end (world_at e tm n l ob a k b k2 fin) = None" "launcher_end (world_at e tm n l ob a k b k2 fin) = fin"
  by (simp_all add: world_at_def)

lemma w_h0_at: "w_h0 (world_at e tm n l ob a k b k2 fin) = Some x \<longleftrightarrow>
    1 \<le> a \<and> x = \<lparr>ex_req = run_SendH0 (pb e) tm l, ex_cd = cd_after (h1_msg e tm n) (a - 1), ex_read = k\<rparr>"
  by (auto simp: world_at_def)

lemma w_h2_at: "w_h2 (world_at e tm n l ob a k b k2 fin) = Some x \<longleftrightarrow>
    1 \<le> b \<and> x = \<lparr>ex_req = h2_msg e n, ex_cd = cd_after (h3_msg e) (b - 1), ex_read = k2\<rparr>"
  by (auto simp: world_at_def)

lemma no_call_at: "w_h0 (world_at e tm n l ob a k b k2 fin) = None \<longleftrightarrow> a = 0"
    "w_h2 (world_at e tm n l ob a k b k2 fin) = None \<longleftrightarrow> b = 0"
  by (simp_all add: world_at_def)

lemma call_over_at:
  "k \<le> 2 \<Longrightarrow> call_over (w_h0 (world_at e tm n l ob a k b k2 fin)) \<longleftrightarrow> 4 \<le> a \<and> k = 2"
  "k2 \<le> 2 \<Longrightarrow> call_over (w_h2 (world_at e tm n l ob a k b k2 fin)) \<longleftrightarrow> 4 \<le> b \<and> k2 = 2"
  by (auto simp: world_at_def call_over_def min_def)

lemma step_at:
  assumes host: "waiting_host e n l ob" and ph: "phase timed a k b k2 fin"
    and step: "hs_step e timed (world_at e tm n l ob a k b k2 fin) w"
  shows "one_of_these e timed n l ob (Suc (events a k b k2 fin)) w"
  using step
proof (cases rule: hs_step.cases)
  case (send_h0 ep ts tm')
  then have a: "a = 0" "fin = None" "k = 0" "b = 0" "k2 = 0"
    using ph by (auto simp: no_call_at phase_def)
  have "run_SendH0 (pb e) tm' (launcher_at l 0 0 0 None) = run_SendH0 (pb e) tm' l"
    by (simp add: run_SendH0_def launcher_at_def)
  then have "w = world_at e tm' n l ob 1 0 0 0 None"
    using send_h0 a
    by (simp add: world_at_def new_exchange_def CallData_new_after [of "h1_msg e tm' n"] launcher_at_def node_at_def)
  then show ?thesis
    by (rule one_of_theseI) (use a in \<open>simp_all add: phase_def events_def\<close>)
next
  case (serve_h0 x n' cd)
  then have a: "1 \<le> a" "a < 4" "a = 1 \<longrightarrow> b = 0 \<and> k2 = 0"
    using ph by (auto simp: w_h0_at phase_def)
  have "w = world_at e tm n l ob (a + 1) k b k2 fin"
    using serve_h0 serve_h0_at [OF host a, of tm] a(1)
    by (simp add: w_h0_at) (simp add: world_at_def launcher_at_def)
  then show ?thesis
    by (rule one_of_theseI) (use a ph in \<open>auto simp: phase_def events_def\<close>)
next
  case (serve_h0_fails x f)
  then have a: "1 \<le> a" "a < 4" "a = 1 \<longrightarrow> b = 0 \<and> k2 = 0"
    using ph by (auto simp: w_h0_at phase_def)
  show ?thesis
    using serve_h0_fails serve_h0_at [OF host a, of tm] by (simp add: w_h0_at)
next
  case (read_h1 x l')
  then have x: "x = \<lparr>ex_req = run_SendH0 (pb e) tm l, ex_cd = cd_after (h1_msg e tm n) (a - 1), ex_read = k\<rparr>"
      "k < length (take (a - 1) [h1_msg e tm n, grpr_Transaction_new])" "1 \<le> a" "fin = None"
    by (auto simp: w_h0_at)
  have "w = world_at e tm n l ob a (k + 1) b k2 None"
    using read_h1 read_h1_at [OF x(2), of l b None] x by (simp add: world_at_def)
  then show ?thesis
    by (rule one_of_theseI) (use x(2-) ph in \<open>auto simp: phase_def events_def\<close>)
next
  case (read_h1_fails x f)
  then show ?thesis
    using read_h1_at [of k a e tm n l b None] by (auto simp: w_h0_at)
next
  case (send_h2 ep t ts)
  then have b: "b = 0" "2 \<le> a" "ts = []" "t = h2_msg e n" "k2 = 0" "timed \<longrightarrow> a = 4 \<and> k = 2"
    using ph by (auto simp: no_call_at node_at_def phase_def call_over_at split: if_splits)
  have "fin = None"
    using ph b by (simp add: phase_def)
  have "w = world_at e tm n l ob a k 1 k2 fin"
    using send_h2 b
    by (simp add: world_at_def new_exchange_def CallData_new_after [of "h3_msg e"] launcher_at_def node_at_def)
  then show ?thesis
    by (rule one_of_theseI) (use b \<open>fin = None\<close> ph in \<open>auto simp: phase_def events_def\<close>)
next
  case (serve_h2 x l' cd)
  then have b: "1 \<le> b" "b < 4" "fin = None"
    using ph by (auto simp: w_h2_at phase_def)
  show ?thesis
  proof (cases "1 \<le> k")
    case True
    have "w = world_at e tm n l ob a k (b + 1) k2 None"
      using serve_h2 serve_h2_at [OF b(1,2) True, of a e n l] b ph
      by (simp add: w_h2_at phase_def) (simp add: world_at_def node_at_def)
    then show ?thesis
      by (rule one_of_theseI) (use b True ph in \<open>auto simp: phase_def events_def\<close>)
  next
    case False
    then have "k = 0" "b = 1"
      using ph b(1) by (auto simp: phase_def)
    then show ?thesis
      using serve_h2 serve_h2_early [of e n l a] b by (simp add: w_h2_at)
  qed
next
  case (serve_h2_fails x f)
  then have b: "1 \<le> b" "b < 4" "fin = None"
    using ph by (auto simp: w_h2_at phase_def)
  show ?thesis
  proof (cases "1 \<le> k")
    case True
    then show ?thesis
      using serve_h2_fails serve_h2_at [OF b(1,2) True, of a e n l] b ph by (simp add: w_h2_at phase_def)
  next
    case False
    then have k: "k = 0" "b = 1"
      using ph b(1) by (auto simp: phase_def)
    then have "w = world_at e tm n l ob a 0 1 k2 (Some h0_missing)"
      using serve_h2_fails serve_h2_early [of e n l a] b by (simp add: w_h2_at) (simp add: world_at_def launcher_at_def)
    then show ?thesis
      by (rule one_of_theseI) (use b k ph in \<open>auto simp: phase_def events_def\<close>)
  qed
next
  case (read_h3 x n')
  then have x: "x = \<lparr>ex_req = h2_msg e n, ex_cd = cd_after (h3_msg e) (b - 1), ex_read = k2\<rparr>"
      "k2 < length (take (b - 1) [h3_msg e, grpr_Transaction_new])" "1 \<le> b" "fin = None"
    by (auto simp: w_h2_at)
  have "w = world_at e tm n l ob a k b (k2 + 1) None"
    using read_h3 read_h3_at [OF host x(2), of a] x by (simp add: world_at_def)
  then show ?thesis
    by (rule one_of_theseI) (use x(2-) ph in \<open>auto simp: phase_def events_def\<close>)
next
  case (read_h3_fails x f)
  then show ?thesis
    using read_h3_at [OF host, of k2 b a] by (auto simp: w_h2_at)
next
  case (finalize ts)
  then have b: "2 \<le> b" "fin = None" "1 \<le> a" "ts = []" "timed \<longrightarrow> b = 4 \<and> k2 = 2"
    using ph by (auto simp: launcher_at_def phase_def call_over_at split: if_splits)
  have "w = world_at e tm n l ob a k b k2 (Some finished)"
    using finalize b by (simp add: world_at_def launcher_at_def finished_def)
  then show ?thesis
    by (rule one_of_theseI) (use b ph in \<open>auto simp: phase_def events_def\<close>)
qed

lemma steps_at:
  assumes "waiting_host e n l ob" "hs_steps e timed i (handshake_start n l) w"
  shows "one_of_these e timed n l ob i w"
  using assms(2)
proof (induction i "handshake_start n l" w)
  case hs_none
  show ?case
    by (rule one_of_theseI [OF waiting_start [OF assms(1)]]) (simp add: events_def)
next
  case (hs_more i w1 w2)
  then show ?case
    using step_at [OF assms(1)] unfolding one_of_these_def by metis
qed

end
