(* ===== verification/Handshake_Properties.thy ===== *)
theory Handshake_Properties
  imports Handshake_Runs
begin

text \<open>
  What the runs of \<open>Handshake_Runs\<close> show: a handshake ends after at most thirteen events, starts the
  blockchain exactly when the third message is accepted, and completes when the one-second delays are long
  enough. The last section has what the code does outside this course.
\<close>

section \<open>Progress\<close>

lemma phase_cases:
  assumes "phase timed a k b k2 fin" "fin = None \<or> a < 4"
  obtains "a = 0" "fin = None" | "1 \<le> a" "a < 4" "a = 1 \<longrightarrow> b = 0 \<and> k2 = 0" | "fin = None" "a = 4" "k < 2"
    | "fin = None" "a = 4" "k = 2" "b = 0" | "fin = None" "a = 4" "k = 2" "1 \<le> b" "b < 4"
    | "fin = None" "b = 4" "k2 < 2" | "fin = None" "b = 4" "k2 = 2" "a = 4"
proof -
  have p: "a \<le> 4" "k \<le> 2" "b \<le> 4" "k2 \<le> b - 1" "k2 \<le> 2" "0 < b \<longrightarrow> 2 \<le> a" "a = 0 \<longrightarrow> fin = None"
    using assms(1) by (auto simp: phase_def)
  show thesis
  proof (cases "a < 4")
    case True
    show ?thesis
    proof (cases "a = 0")
      case True
      then show ?thesis
        using that(1) p(7) by blast
    next
      case False
      then have "1 \<le> a" "a = 1 \<longrightarrow> b = 0 \<and> k2 = 0"
        using p(4,6) by (cases b; auto)+
      then show ?thesis
        using that(2) \<open>a < 4\<close> by blast
    qed
  next
    case False
    then have a: "a = 4" "fin = None"
      using p(1) assms(2) by auto
    consider "k < 2" | "k = 2" "b = 0" | "k = 2" "1 \<le> b" "b < 4" | "k = 2" "b = 4" "k2 < 2" | "k = 2" "b = 4" "k2 = 2"
      using p(2,3,5) by linarith
    then show ?thesis
      by cases (use a that in blast)+
  qed
qed

lemma progress_at:
  assumes host: "waiting_host e n l ob" and ph: "phase timed a k b k2 fin" and more: "fin = None \<or> a < 4"
  shows "\<exists>w. hs_step e timed (world_at e tm n l ob a k b k2 fin) w"
proof -
  let ?w = "world_at e tm n l ob a k b k2 fin"
  define x where "x = \<lparr>ex_req = run_SendH0 (pb e) tm l, ex_cd = cd_after (h1_msg e tm n) (a - 1), ex_read = k\<rparr>"
  define y where "y = \<lparr>ex_req = h2_msg e n, ex_cd = cd_after (h3_msg e) (b - 1), ex_read = k2\<rparr>"
  have x: "1 \<le> a \<Longrightarrow> w_h0 ?w = Some x" and y: "1 \<le> b \<Longrightarrow> w_h2 ?w = Some y"
    by (simp_all add: x_def y_def w_h0_at w_h2_at)
  from ph more show ?thesis
  proof (cases rule: phase_cases)
    case 1
    show ?thesis
      by (intro exI, rule hs_step.send_h0) (use 1 in \<open>simp_all add: no_call_at launcher_at_def\<close>)
  next
    case 2
    show ?thesis
      by (intro exI, rule hs_step.serve_h0 [OF _ x])
        (use 2 serve_h0_at [OF host 2, of tm] in \<open>simp_all add: x_def y_def\<close>)
  next
    case 3
    then have "k < length (take (a - 1) [h1_msg e tm n, grpr_Transaction_new])"
      by simp
    note read = read_h1_at [OF this, of l b fin] this
    show ?thesis
      by (intro exI, rule hs_step.read_h1 [OF _ _ x]) (use 3 read in \<open>simp_all add: x_def y_def\<close>)
  next
    case 4
    show ?thesis
      by (intro exI, rule hs_step.send_h2)
        (use 4 in \<open>simp_all add: no_call_at call_over_at node_at_def launcher_at_def\<close>)
  next
    case 5
    show ?thesis
      by (intro exI, rule hs_step.serve_h2 [OF _ y])
        (use 5 serve_h2_at [of b k a e n l] in \<open>simp_all add: x_def y_def\<close>)
  next
    case 6
    then have "k2 < length (take (b - 1) [h3_msg e, grpr_Transaction_new])"
      by simp
    note read = read_h3_at [OF host this, of a] this
    show ?thesis
      by (intro exI, rule hs_step.read_h3 [OF _ _ y]) (use 6 read in \<open>simp_all add: x_def y_def\<close>)
  next
    case 7
    show ?thesis
      by (intro exI, rule hs_step.finalize) (use 7 in \<open>simp_all add: launcher_at_def call_over_at\<close>)
  qed
qed


lemma stuck_at:
  "waiting_host e n l ob \<Longrightarrow> phase timed a k b k2 fin \<Longrightarrow>
    \<forall>w. \<not> hs_step e timed (world_at e tm n l ob a k b k2 fin) w \<Longrightarrow> fin \<noteq> None"
  by (metis progress_at)


section \<open>A new node and the launcher\<close>

definition host_config :: "handshake_env \<Rightarrow> properties \<Rightarrow> bool" where
  "host_config e gc \<longleftrightarrow>
     is_sb_host (parse_int e) gc = Inr True \<and> ok (get_data_root_folder gc) \<and> ok (get_sb_pub_key gc) \<and>
     ok (get_grpc_endpoint gc)"

lemma new_node:
  assumes "NodeBase_init e parse_file gc fs = Inr n" "fmlookup fs launch_token_name \<noteq> None"
  shows "handshake_ongoing n \<and> nf_sb n = None \<and> \<not> h2_complete n \<and> h3_signed n = grpr_Transaction_new \<and>
     versioneds n = [1] \<and> nf_tasks n = [] \<and> node_fc (nf_conf n) = gc \<and> kp_present (kp (nf_conf n))"
  using assms
  by (auto simp: NodeBase_init_def AbstractNodeConfig_init_def LaunchToken_init_def NodeFacade_init_def
      NodeFacade_new_def launch_token_is_present_def kp_store_def bind_res_Inr_iff Let_def split: option.splits if_splits)

lemma new_launcher:
  "NodeLauncher_init fs params = Inr l \<Longrightarrow> \<not> h0_complete l \<and> l_tasks l = [SendH0 (launch_node_endpoint l)]"
  by (auto simp: NodeLauncher_init_def bind_res_Inr_iff)

lemma host_object:
  assumes "host_config e (node_fc c)"
  obtains ob where "new_sb e c = Inr ob" "get_sb_pub_key (node_fc c) = Inr (sb_name ob)"
    "get_grpc_endpoint (node_fc c) = Inr (sb_ordering_endpoint ob)" "sb_ordering_pub_key ob = pub_key (kp c)"
proof -
  obtain f key ep where "is_sb_host (parse_int e) (node_fc c) = Inr True" "get_data_root_folder (node_fc c) = Inr f"
      "get_sb_pub_key (node_fc c) = Inr key" "get_grpc_endpoint (node_fc c) = Inr ep"
    using assms by (auto simp: host_config_def ok_iff)
  then show thesis
    using that [of "\<lparr>sb_name = key, sb_ordering_endpoint = ep, sb_ordering_pub_key = pub_key (kp c),
        sb_chain = chain_new (stored_sb e f key) (sb_init SubclusterBlockchain_new)\<rparr>"]
    by (simp add: new_sb_def)
qed

lemma new_host_waits:
  assumes "NodeBase_init e parse_file gc fs = Inr n" "fmlookup fs launch_token_name \<noteq> None" "host_config e gc"
    and "kind e \<noteq> PingerNode" "parses_back (pb e)" "NodeLauncher_init lfs params = Inr l"
  obtains ob where "waiting_host e n l ob" "get_sb_pub_key gc = Inr (sb_name ob)"
    "get_grpc_endpoint gc = Inr (sb_ordering_endpoint ob)" "sb_ordering_pub_key ob = pub_key (kp (nf_conf n))"
proof -
  have n: "node_fc (nf_conf n) = gc"
    using new_node [OF assms(1,2)] by blast
  obtain ob where ob: "new_sb e (nf_conf n) = Inr ob" "get_sb_pub_key gc = Inr (sb_name ob)"
      "get_grpc_endpoint gc = Inr (sb_ordering_endpoint ob)" "sb_ordering_pub_key ob = pub_key (kp (nf_conf n))"
    by (rule host_object [of e "nf_conf n"]) (use assms(3) n in auto)
  then have "waiting_host e n l ob"
    using new_node [OF assms(1,2)] new_launcher [OF assms(6)] assms(3-5) by (simp add: waiting_host_def host_config_def)
  then show thesis
    using that ob by blast
qed

lemma world_at_facts:
  assumes "phase timed a k b k2 fin"
  shows "events a k b k2 fin \<le> 13"
    and "nf_sb (node_at e n l ob a b k2) = (if 1 \<le> k2 then Some ob else None)"
    and "h2_complete (node_at e n l ob a b k2) \<longleftrightarrow> 1 \<le> k2"
    and "handshake_ongoing (node_at e n l ob a b k2) \<longleftrightarrow> k2 = 0"
    and "h0_complete (launcher_at l a k b fin) \<longleftrightarrow> 1 \<le> k"
    and "1 \<le> k2 \<Longrightarrow> 1 \<le> k"
    and "fin = Some f \<Longrightarrow> f = finished \<or> f = h0_missing \<and> k2 = 0"
  using assms by (auto simp: phase_def events_def node_at_def launcher_at_def split: option.splits)


text \<open>
  C12. The handshake of a node that is configured as the host of a subcluster, is not a pinger and starts
  with a launch token is safe in every order of events, whatever the delays: the node never fails; it starts
  the blockchain when it accepts the third message and not before, and then the launcher has had the answer
  to its first message; the launcher ends with success, or because the node's request came before that
  answer, and in this case the blockchain is not started.
\<close>

theorem handshake_safe:
  assumes "NodeBase_init e parse_file gc fs = Inr n" "fmlookup fs launch_token_name \<noteq> None" "host_config e gc"
    and "kind e \<noteq> PingerNode" "parses_back (pb e)" "NodeLauncher_init lfs params = Inr l"
    and run: "hs_steps e timed i (handshake_start n l) w"
  shows "node_end w = None \<and> (nf_sb (w_node w) \<noteq> None \<longleftrightarrow> h2_complete (w_node w)) \<and>
    (handshake_ongoing (w_node w) \<longleftrightarrow> nf_sb (w_node w) = None) \<and>
    (nf_sb (w_node w) \<noteq> None \<longrightarrow> h0_complete (w_launcher w)) \<and>
    (\<forall>f. launcher_end w = Some f \<longrightarrow> f = Throw ''launcher finished successfully'' \<or>
       f = Throw ''h0 not yet completed'' \<and> nf_sb (w_node w) = None)"
proof -
  obtain ob where ob: "waiting_host e n l ob"
    by (rule new_host_waits [OF assms(1-6)])
  obtain tm a k b k2 fin where w: "w = world_at e tm n l ob a k b k2 fin" and ph: "phase timed a k b k2 fin"
    using steps_at [OF ob run] unfolding one_of_these_def by blast
  show ?thesis
    using world_at_facts(2-7) [OF ph] unfolding w by (auto simp: finished_def h0_missing_def)
qed

text \<open>
  C13. The handshake of such a node, configured as the host of a subcluster, not a pinger and with a launch
  token, ends: no run has more than thirteen events, whatever the order and the delays, and when nothing can
  happen any more the launcher has ended.
\<close>

theorem handshake_ends:
  assumes "NodeBase_init e parse_file gc fs = Inr n" "fmlookup fs launch_token_name \<noteq> None" "host_config e gc"
    and "kind e \<noteq> PingerNode" "parses_back (pb e)" "NodeLauncher_init lfs params = Inr l"
    and run: "hs_steps e timed i (handshake_start n l) w"
  shows "i \<le> 13 \<and> ((\<forall>w'. \<not> hs_step e timed w w') \<longrightarrow> launcher_end w \<noteq> None)"
proof -
  obtain ob where ob: "waiting_host e n l ob"
    by (rule new_host_waits [OF assms(1-6)])
  obtain tm a k b k2 fin where w: "w = world_at e tm n l ob a k b k2 fin" and ph: "phase timed a k b k2 fin"
      and i: "events a k b k2 fin = i"
    using steps_at [OF ob run] unfolding one_of_these_def by blast
  show ?thesis
    using world_at_facts(1) [OF ph] i stuck_at [OF ob ph, of tm] by (simp add: w)
qed


section \<open>Starting again\<close>

lemma stored_identity:
  assumes "kp_store pr pu fs k = Inr (fs1, k1)"
  shows "KpIdentity_init fs1 k0 = Inr k1" "fmlookup fs1 launch_token_name = fmlookup fs launch_token_name" "kp_present k1"
proof -
  have "is_key pr" "is_key pu" "fmlookup fs identity_priv_name = None" "fmlookup fs identity_pub_name = None"
    using assms by (auto simp: kp_store_def save_key_to_file_def bind_res_Inr_iff is_key_def split: if_splits)
  then obtain fs2 where "kp_store pr pu fs k = Inr (fs2, \<lparr>kp_present = True, priv_key = pr, pub_key = pu\<rparr>)"
      "KpIdentity_init fs2 k0 = Inr \<lparr>kp_present = True, priv_key = pr, pub_key = pu\<rparr>"
      "fmlookup fs2 launch_token_name = fmlookup fs launch_token_name"
    by (rule kp_store_then_init)
  then show "KpIdentity_init fs1 k0 = Inr k1" "fmlookup fs1 launch_token_name = fmlookup fs launch_token_name" "kp_present k1"
    using assms by auto
qed

lemma token_used:
  assumes "NodeBase_init e parse_file gc fs = Inr n" "fmlookup fs launch_token_name \<noteq> None"
  shows "KpIdentity_init (nf_files n) k0 = Inr (kp (nf_conf n))" "fmlookup (nf_files n) launch_token_name = None"
proof -
  obtain pr pu k fs1 k1 where "kp_store pr pu (fmdrop launch_token_name fs) k = Inr (fs1, k1)"
      "nf_files n = fs1" "kp (nf_conf n) = k1"
    using assms
    by (auto simp: NodeBase_init_def AbstractNodeConfig_init_def LaunchToken_init_def NodeFacade_init_def
        NodeFacade_new_def launch_token_is_present_def bind_res_Inr_iff Let_def split: option.splits if_splits)
  then show "KpIdentity_init (nf_files n) k0 = Inr (kp (nf_conf n))" "fmlookup (nf_files n) launch_token_name = None"
    using stored_identity [of pr pu "fmdrop launch_token_name fs" k fs1 k1] by auto
qed

text \<open>
  C37. A node that is stopped before its handshake does not wait for it when it is started again: the launch
  token is gone and the keys are stored, so it starts the blockchain at once, with the keys of the first
  start, and without having been admitted by a launcher.
\<close>

theorem restart_skips_handshake:
  assumes "NodeBase_init e parse_file gc fs = Inr n" "fmlookup fs launch_token_name \<noteq> None" "host_config e gc"
  shows "\<exists>n2 ob. nf_sb n = None \<and> handshake_ongoing n \<and> NodeBase_init e parse_file gc (nf_files n) = Inr n2 \<and>
    nf_sb n2 = Some ob \<and> \<not> handshake_ongoing n2 \<and> \<not> h2_complete n2 \<and> kp (nf_conf n2) = kp (nf_conf n) \<and>
    sb_ordering_pub_key ob = pub_key (kp (nf_conf n))"
proof -
  define c where "c = \<lparr>launch_token = None, kp = kp (nf_conf n), node_fc = gc\<rparr>"
  obtain ob where ob: "new_sb e c = Inr ob" "sb_ordering_pub_key ob = pub_key (kp c)"
    by (rule host_object [of e c]) (use assms(3) in \<open>auto simp: c_def\<close>)
  have "AbstractNodeConfig_init parse_file gc (nf_files n) = Inr (c, nf_files n)"
    using token_used [OF assms(1,2)] by (simp add: AbstractNodeConfig_init_def LaunchToken_init_def c_def)
  then have "NodeBase_init e parse_file gc (nf_files n)
      = Inr ((NodeFacade_new c (nf_files n))\<lparr>versioneds := [1], nf_sb := Some ob\<rparr>)"
    using new_node [OF assms(1,2)] ob(1)
    by (simp add: NodeBase_init_def NodeFacade_init_def NodeFacade_new_def launch_token_is_present_def start_sb_def c_def)
  then show ?thesis
    using new_node [OF assms(1,2)] ob(2) by (simp add: NodeFacade_new_def c_def)
qed


section \<open>A concrete handshake\<close>

text \<open>A serialisation that can be read back: two unary numbers and the endpoint.\<close>

definition plain_codec :: codec where
  "plain_codec =
     \<lparr>ser_h0 = (\<lambda>z. replicate (unat (seconds (h0_transaction_id z))) 0 @ 1 #
                    replicate (unat (nanos (h0_transaction_id z))) 0 @ 1 # starter_endpoint z),
      ser_h1 = (\<lambda>z. h1_pub_key z), ser_h2 = (\<lambda>z. h2_pub_key z), ser_h3 = (\<lambda>z. sb_transaction z),
      ser_transaction = (\<lambda>t. body_bytes t),
      parse_h0 = (\<lambda>bs. let s = takeWhile (\<lambda>c. c = 0) bs; r = drop (length s + 1) bs;
                           m = takeWhile (\<lambda>c. c = 0) r
                       in \<lparr>h0_transaction_id = HederaTimestamp (of_nat (length s)) (of_nat (length m)),
                           starter_endpoint = drop (length m + 1) r\<rparr>)\<rparr>"

lemma takeWhile_zeros [simp]: "takeWhile (\<lambda>c. c = (0 :: u8)) (replicate k 0 @ 1 # r) = replicate k 0"
  by (induction k) auto

lemma plain_codec_parses_back: "parses_back plain_codec"
  by (simp add: parses_back_def plain_codec_def Let_def)

definition host_env :: "SbRecord Blockchain \<Rightarrow> handshake_env" where
  "host_env s =
     \<lparr>pb = plain_codec, hs_clock = ts_zero, kind = OrderingNode, keypair = Some (replicate 32 1, replicate 32 2),
      parse_int = (\<lambda>_. Some 1), stored_sb = (\<lambda>_ _. s)\<rparr>"

definition host_properties :: properties where
  "host_properties = (\<lambda>_. Some [49])"

definition token_files :: file_table where
  "token_files = fmupd launch_token_name [] fmempty"

definition key_files :: file_table where
  "key_files = fmupd identity_priv_name (replicate 64 97) (fmupd identity_pub_name (replicate 64 97) fmempty)"

lemma host_env_simps [simp]:
  "host_config (host_env s) host_properties" "kind (host_env s) \<noteq> PingerNode" "parses_back (pb (host_env s))"
  "fmlookup token_files launch_token_name \<noteq> None"
  by (simp_all add: host_config_def host_env_def host_properties_def is_sb_host_def get_int_def get_string_def
      get_data_root_folder_def get_sb_pub_key_def get_grpc_endpoint_def plain_codec_parses_back token_files_def)

lemma host_starts:
  obtains n where "NodeBase_init (host_env s) (\<lambda>_. Some (\<lambda>_. None)) host_properties token_files = Inr n"
proof -
  define pr pu where "pr = concat (map bin2hex_byte (replicate 32 1))" and "pu = concat (map bin2hex_byte (replicate 32 2))"
  have "is_key pr" "is_key pu"
    using hex_of_bytes [of "replicate 32 1"] hex_of_bytes [of "replicate 32 2"]
    by (simp_all add: pr_def pu_def is_key_def KEY_LENGTH_HEX_def PUB_KEY_LENGTH_def)
  moreover have "create_kp_identity (host_env s) = Inr (Some (pr, pu))"
    by (simp add: create_kp_identity_def host_env_def dump_in_hex_eq pr_def pu_def)
  ultimately show thesis
    using that
    by (simp add: NodeBase_init_def AbstractNodeConfig_init_def LaunchToken_init_def token_files_def NodeFacade_init_def
        NodeFacade_new_def launch_token_is_present_def KpIdentity_init_def KpIdentity_new_def kp_store_def
        save_key_to_file_def is_key_def)
qed

lemma launcher_starts:
  obtains l where "NodeLauncher_init key_files [[], [1], [2]] = Inr l"
proof -
  have "is_key (replicate 64 97)"
    by (simp add: is_key_def KEY_LENGTH_HEX_def PUB_KEY_LENGTH_def is_hex_def list_all_iff)
  then show thesis
    using that
    by (simp add: NodeLauncher_init_def NodeLauncherConfig_init_def key_files_def KpIdentity_init_def rethrow_def)
qed

text \<open>There is a run that goes as far as it can.\<close>

lemma longest_run:
  assumes "waiting_host e n l ob"
  obtains i w where "hs_steps e timed i (handshake_start n l) w" "\<forall>w'. \<not> hs_step e timed w w'"
proof -
  have "\<exists>i w. hs_steps e timed i (handshake_start n l) w \<and> ((\<forall>w'. \<not> hs_step e timed w w') \<or> i = m)" for m
  proof (induction m)
    case 0
    show ?case
      using hs_steps.hs_none by blast
  next
    case (Suc m)
    then show ?case
      using hs_steps.hs_more by metis
  qed
  from this [of 14] obtain i w where run: "hs_steps e timed i (handshake_start n l) w"
      "(\<forall>w'. \<not> hs_step e timed w w') \<or> i = 14"
    by blast
  moreover have "i \<le> 13"
    using steps_at [OF assms run(1)] world_at_facts(1) unfolding one_of_these_def by metis
  ultimately show thesis
    using that by fastforce
qed

lemma host_run:
  obtains n l i w where
    "NodeBase_init (host_env s) (\<lambda>_. Some (\<lambda>_. None)) host_properties token_files = Inr n"
    "NodeLauncher_init key_files [[], [1], [2]] = Inr l"
    "hs_steps (host_env s) timed i (handshake_start n l) w" "\<forall>w'. \<not> hs_step (host_env s) timed w w'"
proof -
  obtain n where n: "NodeBase_init (host_env s) (\<lambda>_. Some (\<lambda>_. None)) host_properties token_files = Inr n"
    by (rule host_starts)
  obtain l where l: "NodeLauncher_init key_files [[], [1], [2]] = Inr l"
    by (rule launcher_starts)
  obtain ob where "waiting_host (host_env s) n l ob"
    by (rule new_host_waits [OF n _ _ _ _ l]) simp_all
  then show thesis
    by (rule longest_run) (rule that [OF n l])
qed


theorem handshake_safe_witness:
  "\<exists>s n l i w. NodeBase_init (host_env s) (\<lambda>_. Some (\<lambda>_. None)) host_properties token_files = Inr n \<and>
    NodeLauncher_init key_files [[], [1], [2]] = Inr l \<and> hs_steps (host_env s) False i (handshake_start n l) w \<and>
    (\<forall>w'. \<not> hs_step (host_env s) False w w') \<and> node_end w = None"
proof -
  fix s
  obtain n l i w where n: "NodeBase_init (host_env s) (\<lambda>_. Some (\<lambda>_. None)) host_properties token_files = Inr n"
      and l: "NodeLauncher_init key_files [[], [1], [2]] = Inr l"
      and run: "hs_steps (host_env s) False i (handshake_start n l) w" "\<forall>w'. \<not> hs_step (host_env s) False w w'"
    by (rule host_run)
  have "node_end w = None"
    using handshake_safe [OF n _ _ _ _ l run(1)] by auto
  then show ?thesis
    using n l run by blast
qed

theorem handshake_ends_witness:
  "\<exists>s n l i w. NodeBase_init (host_env s) (\<lambda>_. Some (\<lambda>_. None)) host_properties token_files = Inr n \<and>
    NodeLauncher_init key_files [[], [1], [2]] = Inr l \<and> hs_steps (host_env s) False i (handshake_start n l) w \<and>
    i \<le> 13 \<and> launcher_end w \<noteq> None"
proof -
  fix s
  obtain n l i w where n: "NodeBase_init (host_env s) (\<lambda>_. Some (\<lambda>_. None)) host_properties token_files = Inr n"
      and l: "NodeLauncher_init key_files [[], [1], [2]] = Inr l"
      and run: "hs_steps (host_env s) False i (handshake_start n l) w" "\<forall>w'. \<not> hs_step (host_env s) False w w'"
    by (rule host_run)
  have "i \<le> 13 \<and> launcher_end w \<noteq> None"
    using handshake_ends [OF n _ _ _ _ l run(1)] run(2) by auto
  then show ?thesis
    using n l run by blast
qed

theorem restart_skips_handshake_witness:
  "\<exists>s n n2. NodeBase_init (host_env s) (\<lambda>_. Some (\<lambda>_. None)) host_properties token_files = Inr n \<and> nf_sb n = None \<and>
    NodeBase_init (host_env s) (\<lambda>_. Some (\<lambda>_. None)) host_properties (nf_files n) = Inr n2 \<and> nf_sb n2 \<noteq> None"
proof -
  fix s
  obtain n where n: "NodeBase_init (host_env s) (\<lambda>_. Some (\<lambda>_. None)) host_properties token_files = Inr n"
    by (rule host_starts)
  have "\<exists>n2. nf_sb n = None \<and> NodeBase_init (host_env s) (\<lambda>_. Some (\<lambda>_. None)) host_properties (nf_files n) = Inr n2 \<and>
      nf_sb n2 \<noteq> None"
    using restart_skips_handshake [OF n] by auto
  then show ?thesis
    using n by blast
qed


section \<open>Outside this course\<close>

text \<open>
  The third message is not looked at. Whatever its contents and whoever sent it, a node that waits for
  the handshake accepts it if it says so itself and has a version that reads as 1 in 32 bits; what the node
  keeps as the signed transaction of the launcher is an empty one.
\<close>

theorem h3_not_checked:
  assumes "NodeBase_init e parse_file gc fs = Inr n" "fmlookup fs launch_token_name \<noteq> None" "host_config e gc"
    and "grpr_success t" "ucast (grpr_version t) = (1 :: i32)"
  shows "\<exists>n'. handshake_on_transaction e t n = Inr n' \<and> nf_sb n' \<noteq> None \<and> h2_complete n' \<and>
    h3_signed n' = grpr_Transaction_new"
proof -
  have n: "\<not> h2_complete n" "versioneds n = [1]" "node_fc (nf_conf n) = gc" "nf_sb n = None"
    using new_node [OF assms(1,2)] by simp_all
  obtain ob where "new_sb e (nf_conf n) = Inr ob"
    by (rule host_object [of e "nf_conf n"]) (use assms(3) n in auto)
  then show ?thesis
    using assms(3-5) n
    by (simp add: handshake_on_transaction_def get_versioned_def ResponseSigValidator_1_def translate_h3_def
        translate_sb_transaction_def sign_def continue_init_after_handshake_done_def start_sb_def host_config_def)
qed

theorem h3_not_checked_witness:
  "\<exists>s n n'. NodeBase_init (host_env s) (\<lambda>_. Some (\<lambda>_. None)) host_properties token_files = Inr n \<and>
    handshake_on_transaction (host_env s)
      \<lparr>grpr_version = 2 ^ 32 + 1, body_bytes = [], grpr_success = True, sigMap = []\<rparr> n = Inr n' \<and> nf_sb n' \<noteq> None"
proof -
  fix s
  obtain n where n: "NodeBase_init (host_env s) (\<lambda>_. Some (\<lambda>_. None)) host_properties token_files = Inr n"
    by (rule host_starts)
  have "ucast (2 ^ 32 + 1 :: u64) = (1 :: i32)"
    by simp
  then have "\<exists>n'. handshake_on_transaction (host_env s)
      \<lparr>grpr_version = 2 ^ 32 + 1, body_bytes = [], grpr_success = True, sigMap = []\<rparr> n = Inr n' \<and> nf_sb n' \<noteq> None"
    using h3_not_checked [OF n, of "\<lparr>grpr_version = 2 ^ 32 + 1, body_bytes = [], grpr_success = True, sigMap = []\<rparr>"]
    by auto
  then show ?thesis
    using n by blast
qed

text \<open>A node that is not the host of its subcluster hands its entry to a method without a return statement.\<close>

lemma non_host_undefined:
  assumes "is_sb_host (parse_int e) (node_fc (nf_conf n)) = Inr False"
    and "get_sb_ordering_node_endpoint (node_fc (nf_conf n)) = Inr ep" "\<not> h2_complete n" "1 \<in> set (versioneds n)"
  shows "undefined_behaviour (handshake_on_transaction e (h3_msg e) n)"
  using assms
  by (simp add: handshake_on_transaction_def get_versioned_def ResponseSigValidator_1_def translate_h3_def
      translate_sb_transaction_def sign_def nf_sb_ordering_node_endpoint_def submit_to_blockchain_def)

text \<open>A pinger node ends when it is asked for a handshake.\<close>

lemma pinger_ends:
  "kind e = PingerNode \<Longrightarrow> \<exists>msg. get_response_h0 e req n = Inl (Throw msg)"
  by (simp add: get_response_h0_def translate_h0_def prepare_h1_def exit_unless_def Let_def)

text \<open>The log message a logger node is sent has no defined translation.\<close>

lemma log_message_undefined:
  assumes "grpr_success req" "grpr_version req = 1" "\<not> handshake_ongoing n" "1 \<in> set (versioneds n)"
  shows "undefined_behaviour (handler_step (LogMessageReceiver req) n None 0 r)"
  using assms
  by (simp add: LogMessageReceiver_def receiver_def handler_step_def do_run_def get_handshake_handler_def
      get_versioned_def RequestSigValidator_1_def translate_log_message_def)

text \<open>The blockchain is created and left alone: nothing is requested and no validation is scheduled.\<close>

lemma started_chain_idle:
  assumes "start_sb e n = Inr n'" "nf_sb n = None"
  shows "\<exists>ob. nf_sb n' = Some ob \<and> chain_state (sb_chain ob) = INITIAL \<and> outgoing (sb_chain ob) = [] \<and>
    nf_tasks n' = nf_tasks n"
  using assms by (auto simp: start_sb_def new_sb_def bind_res_Inr_iff chain_new_def)

end
