(* ===== verification/Node_Services.thy ===== *)
theory Node_Services
  imports Handshake
begin

text \<open>
  Two small parts of a node: the thread of \<open>src/gradido_signals.cpp\<close> that turns signals into tasks, and the
  numbering of events by the ordering node (\<open>OrderingNode\<close> of \<open>src/facades_impl.cpp\<close>).
\<close>

section \<open>Signals\<close>

text \<open>\<open>reload_tasks\<close> counts the tasks of type \<open>ReloadConfigTask\<close> that were pushed.\<close>

record GradidoSignals =
  sig_shutdown :: bool
  last_signal :: int
  reload_tasks :: nat

definition GradidoSignals_new :: GradidoSignals where
  "GradidoSignals_new = \<lparr>sig_shutdown = False, last_signal = -1, reload_tasks = 0\<rparr>"

definition notify :: "int \<Rightarrow> GradidoSignals \<Rightarrow> GradidoSignals" where
  "notify signum g = g\<lparr>last_signal := signum\<rparr>"

definition do_shutdown :: "GradidoSignals \<Rightarrow> GradidoSignals" where
  "do_shutdown g = g\<lparr>sig_shutdown := True\<rparr>"

text \<open>One round of the loop of \<open>run_entry\<close>: the thread waits, leaves the loop, or goes on.\<close>

datatype signals_round = Waits | Leaves | Goes_on GradidoSignals

definition run_entry_round :: "GradidoSignals \<Rightarrow> signals_round" where
  "run_entry_round g =
     (if last_signal g = -1 \<and> \<not> sig_shutdown g then Waits
      else if sig_shutdown g then Leaves
      else if last_signal g \<noteq> -1 then Goes_on (g\<lparr>last_signal := 0, reload_tasks := reload_tasks g + 1\<rparr>)
      else Goes_on g)"

text \<open>The rounds the thread makes without waiting, up to a bound.\<close>

fun busy_rounds :: "nat \<Rightarrow> GradidoSignals \<Rightarrow> GradidoSignals" where
  "busy_rounds 0 g = g"
| "busy_rounds (Suc k) g = (case run_entry_round g of Goes_on g1 \<Rightarrow> busy_rounds k g1 | _ \<Rightarrow> g)"

lemma busy_rounds_flood:
  "\<not> sig_shutdown g \<Longrightarrow> last_signal g \<noteq> -1 \<Longrightarrow> reload_tasks (busy_rounds k g) = reload_tasks g + k"
  by (induction k arbitrary: g) (simp_all add: run_entry_round_def)

text \<open>
  One signal is answered without end: once the node has been sent \<open>SIGUSR1\<close>, its thread never waits
  again; each round of its loop pushes one more task, until the node shuts down. Before the first signal it
  pushes none.
\<close>

theorem signal_answered_without_end:
  assumes "0 \<le> signum"
  shows "reload_tasks (busy_rounds k (notify signum GradidoSignals_new)) = k \<and>
    reload_tasks (busy_rounds k GradidoSignals_new) = 0 \<and>
    run_entry_round (do_shutdown (busy_rounds k (notify signum GradidoSignals_new))) = Leaves"
proof (intro conjI)
  show "reload_tasks (busy_rounds k (notify signum GradidoSignals_new)) = k"
    using busy_rounds_flood [of "notify signum GradidoSignals_new" k] assms
    by (simp add: notify_def GradidoSignals_new_def)
  show "reload_tasks (busy_rounds k GradidoSignals_new) = 0"
    by (cases k) (simp_all add: GradidoSignals_new_def run_entry_round_def)
qed (simp add: run_entry_round_def do_shutdown_def)

theorem signal_answered_without_end_witness:
  "reload_tasks (busy_rounds 1000 (notify 10 GradidoSignals_new)) = 1000"
  using signal_answered_without_end [of 10 1000] by simp


section \<open>The ordering node\<close>

record BlockchainContext =
  curr_seq_id :: u64
  current_hash :: bytes

record OrderedBlockchainEvent =
  obe_seq_num :: u64
  obe_running_hash :: bytes
  obe_blockchain_pub_key :: bytes

type_synonym blockchains_served = "(bytes, BlockchainContext) fmap"

text \<open>
  The event is made and dropped; it is part of the result here. The endpoints are asked of the subcluster
  blockchain, which may not have been started.
\<close>

definition ordering_broadcast ::
  "bytes \<Rightarrow> SubclusterBlockchain option \<Rightarrow> blockchains_served
     \<Rightarrow> ((bool \<times> OrderedBlockchainEvent option) \<times> blockchains_served) res" where
  "ordering_broadcast b_id sb served =
     (case fmlookup served b_id of
        None \<Rightarrow> Inr ((False, None), served)
      | Some bc \<Rightarrow>
          (let bc1 = bc\<lparr>curr_seq_id := curr_seq_id bc + 1\<rparr>;
               obe = \<lparr>obe_seq_num = curr_seq_id bc1, obe_running_hash = current_hash bc1, obe_blockchain_pub_key = b_id\<rparr>
           in case sb of
                None \<Rightarrow> Inl (Undefined ''null pointer'')
              | Some c \<Rightarrow> bind_res (get_all_endpoints c) (\<lambda>endpoints. Inr ((True, Some obe), fmupd b_id bc1 served))))"

fun broadcasts ::
  "bytes list \<Rightarrow> SubclusterBlockchain \<Rightarrow> blockchains_served \<Rightarrow> (OrderedBlockchainEvent list \<times> blockchains_served) res" where
  "broadcasts [] c served = Inr ([], served)"
| "broadcasts (b # bs) c served =
     bind_res (ordering_broadcast b (Some c) served) (\<lambda>((_, obe), served1).
     bind_res (broadcasts bs c served1) (\<lambda>(es, served2). Inr ((case obe of None \<Rightarrow> es | Some e \<Rightarrow> e # es), served2)))"

text \<open>
  The events of one blockchain are numbered one after the other from the number it has reached, whatever
  comes for other blockchains in between; requests for a blockchain that is not served make no event.
\<close>

lemma broadcasts_numbered:
  assumes "get_all_endpoints c = Inr eps" "fmlookup served b = Some bc"
  shows "\<exists>es served'. broadcasts bs c served = Inr (es, served') \<and>
    map obe_seq_num (filter (\<lambda>e. obe_blockchain_pub_key e = b) es)
      = map (\<lambda>i. curr_seq_id bc + of_nat i) [1..<count_list bs b + 1]"
  using assms(2)
proof (induction bs arbitrary: served bc)
  case (Cons x xs)
  show ?case
  proof (cases "fmlookup served x")
    case None
    then show ?thesis
      using Cons.IH [OF Cons.prems] Cons.prems by (auto simp: ordering_broadcast_def)
  next
    case (Some cx)
    define served1 where "served1 = fmupd x (cx\<lparr>curr_seq_id := curr_seq_id cx + 1\<rparr>) served"
    define bc1 where "bc1 = (if x = b then bc\<lparr>curr_seq_id := curr_seq_id bc + 1\<rparr> else bc)"
    have "fmlookup served1 b = Some bc1"
      using Cons.prems Some by (auto simp: served1_def bc1_def)
    then obtain es served' where es: "broadcasts xs c served1 = Inr (es, served')"
        "map obe_seq_num (filter (\<lambda>e. obe_blockchain_pub_key e = b) es)
          = map (\<lambda>i. curr_seq_id bc1 + of_nat i) [1..<count_list xs b + 1]"
      using Cons.IH by blast
    have shift: "map (\<lambda>i. curr_seq_id bc + of_nat i) [1..<Suc m + 1]
        = (curr_seq_id bc + 1) # map (\<lambda>i. curr_seq_id bc + 1 + of_nat i) [1..<m + 1]" for m
      by (subst upt_conv_Cons) (simp_all add: map_Suc_upt [symmetric] add.assoc o_def del: upt_Suc)
    show ?thesis
      using Some assms(1) es Cons.prems shift [of "count_list xs b"]
      by (auto simp: ordering_broadcast_def served1_def bc1_def)
  qed
qed simp

end
