(* ===== verification/Timer_Pool.thy ===== *)
theory Timer_Pool
  imports Core_Utils
begin

text \<open>
  \<open>src/timer_pool.cpp\<close>: timers that a main loop fires when their time has come, on executor threads
  that are shared between timers. Pointers to timers and executors are numbers. What a thread does
  while it holds a mutex is one operation here; where the code releases a mutex between two
  operations the step relation lets the other threads act in between.
\<close>

section \<open>Times\<close>

text \<open>\<open>TimespecComparator\<close>: the order of the map of running timers.\<close>

definition TimespecComparator :: "timespec \<Rightarrow> timespec \<Rightarrow> bool" where
  "TimespecComparator t c \<longleftrightarrow> tv_sec t < tv_sec c \<or> tv_sec c = tv_sec t \<and> tv_nsec t < tv_nsec c"

instantiation timespec :: linorder
begin

definition less_timespec :: "timespec \<Rightarrow> timespec \<Rightarrow> bool" where
  "less_timespec = TimespecComparator"

definition less_eq_timespec :: "timespec \<Rightarrow> timespec \<Rightarrow> bool" where
  "less_eq_timespec a b \<longleftrightarrow> a = b \<or> TimespecComparator a b"

instance
  by standard
    (auto simp: less_timespec_def less_eq_timespec_def TimespecComparator_def timespec.expand not_less
      intro: timespec.expand)

end

definition isTimeReached :: "timespec \<Rightarrow> timespec \<Rightarrow> bool" where
  "isTimeReached c t \<longleftrightarrow> tv_sec t < tv_sec c \<or> tv_sec c = tv_sec t \<and> tv_nsec t < tv_nsec c"


section \<open>Executors\<close>

text \<open>
  An executor with the timer it services and the number of events to deliver; \<open>executing\<close> holds while
  its thread is inside \<open>m_timer->execute()\<close>.
\<close>

record Executor =
  m_timer :: "nat option"
  m_doCount :: int
  executing :: bool

text \<open>\<open>executors\<close> is the heap of executor objects; \<open>next_executor\<close> is the next free address.\<close>

record ExecutorContainer =
  ec_shutdown :: bool
  m_idle :: "nat list"
  m_running :: "(nat, nat) fmap"
  executors :: "(nat, Executor) fmap"
  next_executor :: nat

definition Executor_new :: Executor where
  "Executor_new = \<lparr>m_timer = None, m_doCount = 0, executing = False\<rparr>"

text \<open>A \<open>std::set\<close> of pointers is a sorted list.\<close>

definition pushIdle :: "nat \<Rightarrow> ExecutorContainer \<Rightarrow> ExecutorContainer" where
  "pushIdle e c = c\<lparr>m_idle := (if e \<in> set (m_idle c) then m_idle c else insort e (m_idle c))\<rparr>"

definition topIdle :: "ExecutorContainer \<Rightarrow> nat option" where
  "topIdle c = (case m_idle c of [] \<Rightarrow> None | e # _ \<Rightarrow> Some e)"

definition popIdle :: "ExecutorContainer \<Rightarrow> nat option \<times> ExecutorContainer" where
  "popIdle c = (case m_idle c of [] \<Rightarrow> (None, c) | e # es \<Rightarrow> (Some e, c\<lparr>m_idle := es\<rparr>))"

definition new_executor :: "ExecutorContainer \<Rightarrow> nat \<times> ExecutorContainer" where
  "new_executor c =
     (next_executor c, c\<lparr>executors := fmupd (next_executor c) Executor_new (executors c),
                         next_executor := next_executor c + 1\<rparr>)"

definition push_new_executor :: "ExecutorContainer \<Rightarrow> ExecutorContainer" where
  "push_new_executor c = (let (e, c1) = new_executor c in pushIdle e c1)"

definition ExecutorContainer_new :: "int \<Rightarrow> ExecutorContainer" where
  "ExecutorContainer_new initialExecutorCount =
     (push_new_executor ^^ (if 0 < initialExecutorCount then nat initialExecutorCount else 1))
       \<lparr>ec_shutdown = False, m_idle = [], m_running = fmempty, executors = fmempty, next_executor = 0\<rparr>"

definition getExecutor :: "nat \<Rightarrow> bool \<Rightarrow> ExecutorContainer \<Rightarrow> nat option \<times> ExecutorContainer" where
  "getExecutor pt strict c =
     (case fmlookup (m_running c) pt of
        Some e \<Rightarrow> (Some e, c)
      | None \<Rightarrow>
          if strict then (None, c)
          else let c1 = (if m_idle c = [] then push_new_executor c else c)
               in (topIdle c1, c1))"

definition setIdle :: "nat \<Rightarrow> nat \<Rightarrow> ExecutorContainer \<Rightarrow> ExecutorContainer" where
  "setIdle e pt c =
     (if ec_shutdown c then c else pushIdle e (c\<lparr>m_running := fmdrop pt (m_running c)\<rparr>))"

definition setRunning :: "nat \<Rightarrow> nat \<Rightarrow> ExecutorContainer \<Rightarrow> ExecutorContainer" where
  "setRunning e pt c =
     (case fmlookup (m_running c) pt of
        Some _ \<Rightarrow> c
      | None \<Rightarrow> c\<lparr>m_idle := filter (\<lambda>x. x \<noteq> e) (m_idle c), m_running := std_insert pt e (m_running c)\<rparr>)"

definition put_executor :: "nat \<Rightarrow> Executor \<Rightarrow> ExecutorContainer \<Rightarrow> ExecutorContainer" where
  "put_executor e x c = c\<lparr>executors := fmupd e x (executors c)\<rparr>"

text \<open>Reading an executor that has been deleted has no defined meaning.\<close>

definition the_executor :: "nat \<Rightarrow> ExecutorContainer \<Rightarrow> Executor res" where
  "the_executor e c =
     (case fmlookup (executors c) e of None \<Rightarrow> Inl (Undefined ''deleted executor'') | Some x \<Rightarrow> Inr x)"

definition tryExecute :: "nat \<Rightarrow> nat \<Rightarrow> ExecutorContainer \<Rightarrow> (bool \<times> ExecutorContainer) res" where
  "tryExecute e timer c =
     bind_res (the_executor e c) (\<lambda>x.
       let x1 = (if m_timer x = None then x\<lparr>m_timer := Some timer\<rparr> else x)
       in if m_timer x1 = Some timer then
            let c1 = (if m_doCount x1 = 0 then setRunning e timer c else c)
            in Inr (True, put_executor e (x1\<lparr>m_doCount := m_doCount x1 + 1\<rparr>) c1)
          else Inr (False, put_executor e x1 c))"

definition reduceCount :: "nat \<Rightarrow> ExecutorContainer \<Rightarrow> ExecutorContainer res" where
  "reduceCount e c =
     bind_res (the_executor e c) (\<lambda>x.
       case m_timer x of
         None \<Rightarrow> Inr c
       | Some t \<Rightarrow>
           let n = m_doCount x - 1
           in if n \<le> 0 then Inr (put_executor e (x\<lparr>m_doCount := 0, m_timer := None\<rparr>) (setIdle e t c))
              else Inr (put_executor e (x\<lparr>m_doCount := n\<rparr>) c))"

text \<open>
  \<open>waitUntilServiced\<close>: in the executor's own thread it lets go of the timer at once; in another thread it
  discards the count and waits, which is one round of its loop here.
\<close>

definition waitUntilServiced_self :: "nat \<Rightarrow> nat \<Rightarrow> ExecutorContainer \<Rightarrow> ExecutorContainer res" where
  "waitUntilServiced_self e t c =
     bind_res (the_executor e c) (\<lambda>x.
       if m_timer x = Some t
       then Inr (put_executor e (x\<lparr>m_doCount := 0, m_timer := None\<rparr>) (setIdle e t c)) else Inr c)"

definition waitUntilServiced_round :: "bool \<Rightarrow> nat \<Rightarrow> nat \<Rightarrow> ExecutorContainer \<Rightarrow> ExecutorContainer res" where
  "waitUntilServiced_round discardCount e t c =
     bind_res (the_executor e c) (\<lambda>x.
       if m_timer x = Some t \<and> discardCount then Inr (put_executor e (x\<lparr>m_doCount := 0\<rparr>) c) else Inr c)"

text \<open>\<open>shutdown\<close>: idle executors are deleted, and then the ones that were running.\<close>

definition container_shutdown :: "ExecutorContainer \<Rightarrow> ExecutorContainer" where
  "container_shutdown c =
     c\<lparr>ec_shutdown := True, m_idle := [],
       executors := fmfilter (\<lambda>e. e \<notin> set (m_idle c) \<and> e \<notin> fmran' (m_running c)) (executors c)\<rparr>"


section \<open>Timers and the main loop\<close>

record PooledTimer =
  m_listener :: "nat option"
  m_time :: u32

record TimerPool =
  m_runningTimers :: "(timespec, nat) fmap"
  m_idleTimers :: "nat fset"
  pool_shutdown :: bool
  container :: ExecutorContainer
  timers :: "(nat, PooledTimer) fmap"
  in_doExecute :: "(nat \<times> nat) option"
  events :: "(nat \<times> nat) list"

text \<open>
  \<open>in_doExecute\<close> is the timer and the executor the main loop has picked and not yet handed over;
  \<open>events\<close> are the calls of \<open>timerEvent\<close> so far, as pairs of listener and timer.
\<close>

definition TimerPool_new :: "int \<Rightarrow> TimerPool" where
  "TimerPool_new n =
     \<lparr>m_runningTimers = fmempty, m_idleTimers = {||}, pool_shutdown = False,
      container = ExecutorContainer_new n, timers = fmempty, in_doExecute = None, events = []\<rparr>"

definition PooledTimer_init :: PooledTimer where
  "PooledTimer_init = \<lparr>m_listener = None, m_time = 1\<rparr>"

definition createTimer :: "nat \<Rightarrow> TimerPool \<Rightarrow> TimerPool" where
  "createTimer pt p = p\<lparr>timers := fmupd pt PooledTimer_init (timers p), m_idleTimers := finsert pt (m_idleTimers p)\<rparr>"

definition setListener :: "nat \<Rightarrow> nat option \<Rightarrow> TimerPool \<Rightarrow> TimerPool res" where
  "setListener pt new_listener p =
     (case fmlookup (timers p) pt of
        None \<Rightarrow> Inl (Undefined ''deleted timer'')
      | Some t \<Rightarrow> Inr (p\<lparr>timers := fmupd pt (t\<lparr>m_listener := new_listener\<rparr>) (timers p)\<rparr>))"

definition getFirstOfRunningTimers :: "TimerPool \<Rightarrow> (timespec \<times> nat) option" where
  "getFirstOfRunningTimers p =
     (case std_keys (m_runningTimers p) of
        [] \<Rightarrow> None
      | t # _ \<Rightarrow> map_option (Pair t) (fmlookup (m_runningTimers p) t))"

text \<open>The two overloads of \<open>isRunning\<close>: the target time of a running timer, and whether there is one.\<close>

definition isRunning_at :: "nat \<Rightarrow> TimerPool \<Rightarrow> timespec option" where
  "isRunning_at pt p = find (\<lambda>t. fmlookup (m_runningTimers p) t = Some pt) (std_keys (m_runningTimers p))"

definition isRunning :: "nat \<Rightarrow> TimerPool \<Rightarrow> bool" where
  "isRunning pt p = list_ex (\<lambda>t. fmlookup (m_runningTimers p) t = Some pt) (std_keys (m_runningTimers p))"

definition startTimer :: "nat \<Rightarrow> timespec \<Rightarrow> TimerPool \<Rightarrow> TimerPool" where
  "startTimer pt target p =
     (case isRunning_at pt p of
        Some t \<Rightarrow>
          (if \<not> (tv_sec t = tv_sec target \<and> tv_nsec t = tv_nsec target)
           then p\<lparr>m_runningTimers := std_insert target pt (fmdrop t (m_runningTimers p))\<rparr> else p)
      | None \<Rightarrow> p\<lparr>m_idleTimers := m_idleTimers p |-| {|pt|},
                  m_runningTimers := std_insert target pt (m_runningTimers p)\<rparr>)"

text \<open>\<open>stopTimer\<close> and \<open>removeTimer\<close> answer the executor to wait for, if there is one.\<close>

definition stopTimer :: "nat \<Rightarrow> TimerPool \<Rightarrow> nat option \<times> TimerPool" where
  "stopTimer pt p =
     (case isRunning_at pt p of
        Some t \<Rightarrow>
          (fst (getExecutor pt True (container p)),
           p\<lparr>m_runningTimers := fmdrop t (m_runningTimers p), m_idleTimers := finsert pt (m_idleTimers p)\<rparr>)
      | None \<Rightarrow> (None, p))"

definition removeTimer :: "nat \<Rightarrow> TimerPool \<Rightarrow> nat option \<times> TimerPool" where
  "removeTimer pt p =
     (fst (getExecutor pt True (container p)),
      case isRunning_at pt p of
        Some t \<Rightarrow> p\<lparr>m_runningTimers := fmdrop t (m_runningTimers p)\<rparr>
      | None \<Rightarrow> p\<lparr>m_idleTimers := m_idleTimers p |-| {|pt|}\<rparr>)"

definition getTargetTime :: "timespec \<Rightarrow> PooledTimer \<Rightarrow> timespec" where
  "getTargetTime now t = timespec (tv_sec now + uint (m_time t)) (tv_nsec now)"

definition getTime :: "nat \<Rightarrow> TimerPool \<Rightarrow> u32 res" where
  "getTime pt p =
     (case fmlookup (timers p) pt of None \<Rightarrow> Inl (Undefined ''deleted timer'') | Some t \<Rightarrow> Inr (m_time t))"

definition timer_start :: "timespec \<Rightarrow> nat \<Rightarrow> u32 \<Rightarrow> TimerPool \<Rightarrow> TimerPool res" where
  "timer_start now pt time p =
     (case fmlookup (timers p) pt of
        None \<Rightarrow> Inl (Undefined ''deleted timer'')
      | Some t \<Rightarrow>
          let t1 = t\<lparr>m_time := time\<rparr>
          in Inr (startTimer pt (getTargetTime now t1) (p\<lparr>timers := fmupd pt t1 (timers p)\<rparr>)))"

definition timer_restart :: "timespec \<Rightarrow> nat \<Rightarrow> TimerPool \<Rightarrow> TimerPool res" where
  "timer_restart now pt p =
     (case fmlookup (timers p) pt of
        None \<Rightarrow> Inl (Undefined ''deleted timer'')
      | Some t \<Rightarrow> Inr (startTimer pt (getTargetTime now t) p))"

text \<open>\<open>PooledTimer::execute\<close>: the listener, if there is one, gets the event.\<close>

definition timer_execute :: "nat \<Rightarrow> TimerPool \<Rightarrow> TimerPool res" where
  "timer_execute pt p =
     (case fmlookup (timers p) pt of
        None \<Rightarrow> Inl (Undefined ''deleted timer'')
      | Some t \<Rightarrow>
          Inr (case m_listener t of None \<Rightarrow> p | Some l \<Rightarrow> p\<lparr>events := events p @ [(l, pt)]\<rparr>))"

text \<open>
  \<open>doExecute\<close> in its two parts: the timer becomes idle and an executor is chosen, then the executor is
  asked to take the timer. The main loop does the first part when the first running timer is due.
\<close>

definition doExecute :: "nat \<Rightarrow> timespec \<Rightarrow> TimerPool \<Rightarrow> TimerPool res" where
  "doExecute pt t p =
     (let (exe, c) = getExecutor pt False (container p);
          p1 = p\<lparr>m_runningTimers := fmdrop t (m_runningTimers p), m_idleTimers := finsert pt (m_idleTimers p),
                 container := c\<rparr>
      in case exe of
           None \<Rightarrow> Inl (Undefined ''null pointer'')
         | Some e \<Rightarrow> Inr (p1\<lparr>in_doExecute := Some (pt, e)\<rparr>))"

definition doExecute_try :: "TimerPool \<Rightarrow> (bool \<times> TimerPool) res" where
  "doExecute_try p =
     (case in_doExecute p of
        None \<Rightarrow> Inr (False, p)
      | Some (pt, e) \<Rightarrow>
          bind_res (tryExecute e pt (container p)) (\<lambda>(res, c).
            Inr (res, p\<lparr>container := c, in_doExecute := None\<rparr>)))"

text \<open>One test of the inner loop of \<open>mainLoop\<close>: the timer to fire at the time \<open>now\<close>.\<close>

definition mainLoop_due :: "timespec \<Rightarrow> TimerPool \<Rightarrow> (timespec \<times> nat) option" where
  "mainLoop_due now p =
     (if pool_shutdown p then None
      else case getFirstOfRunningTimers p of
             None \<Rightarrow> None
           | Some (t, pt) \<Rightarrow> if isTimeReached now t then Some (t, pt) else None)"

text \<open>\<open>Executor::run\<close>: the event is delivered without the mutex, then the count is reduced under it.\<close>

definition run_execute :: "nat \<Rightarrow> TimerPool \<Rightarrow> TimerPool res" where
  "run_execute e p =
     bind_res (the_executor e (container p)) (\<lambda>x.
       case m_timer x of
         None \<Rightarrow> Inr p
       | Some t \<Rightarrow>
           bind_res (timer_execute t p) (\<lambda>p1.
             Inr (p1\<lparr>container := put_executor e (x\<lparr>executing := True\<rparr>) (container p1)\<rparr>)))"

definition run_reduce :: "nat \<Rightarrow> TimerPool \<Rightarrow> TimerPool res" where
  "run_reduce e p =
     bind_res (the_executor e (container p)) (\<lambda>x.
       bind_res (reduceCount e (put_executor e (x\<lparr>executing := False\<rparr>) (container p))) (\<lambda>c.
         Inr (p\<lparr>container := c\<rparr>)))"

definition stopMainLoop :: "TimerPool \<Rightarrow> TimerPool" where
  "stopMainLoop p = p\<lparr>pool_shutdown := True\<rparr>"

definition TimerPool_destroy :: "TimerPool \<Rightarrow> TimerPool" where
  "TimerPool_destroy p = (let p1 = stopMainLoop p in p1\<lparr>container := container_shutdown (container p1)\<rparr>)"


section \<open>Interleavings\<close>

text \<open>
  The main loop holds its mutex from choosing an executor to handing the timer over, so the operations
  that need this mutex do not run in between; the executor threads do.
\<close>

inductive pool_step :: "TimerPool \<Rightarrow> TimerPool \<Rightarrow> bool" where
  create: "in_doExecute p = None \<Longrightarrow> fmlookup (timers p) pt = None \<Longrightarrow> pool_step p (createTimer pt p)"
| listen: "setListener pt l p = Inr q \<Longrightarrow> pool_step p q"
| start: "in_doExecute p = None \<Longrightarrow> timer_start now pt time p = Inr q \<Longrightarrow> pool_step p q"
| restart: "in_doExecute p = None \<Longrightarrow> timer_restart now pt p = Inr q \<Longrightarrow> pool_step p q"
| stop: "in_doExecute p = None \<Longrightarrow> pool_step p (snd (stopTimer pt p))"
| remove: "in_doExecute p = None \<Longrightarrow> pool_step p (snd (removeTimer pt p))"
| fire: "in_doExecute p = None \<Longrightarrow> mainLoop_due now p = Some (t, pt) \<Longrightarrow> doExecute pt t p = Inr q \<Longrightarrow>
    pool_step p q"
| hand_over: "in_doExecute p = Some x \<Longrightarrow> doExecute_try p = Inr (r, q) \<Longrightarrow> pool_step p q"
| execute: "the_executor e (container p) = Inr x \<Longrightarrow> \<not> executing x \<Longrightarrow> run_execute e p = Inr q \<Longrightarrow>
    pool_step p q"
| reduce: "the_executor e (container p) = Inr x \<Longrightarrow> executing x \<Longrightarrow> run_reduce e p = Inr q \<Longrightarrow>
    pool_step p q"
| wait_self: "the_executor e (container p) = Inr x \<Longrightarrow> executing x \<Longrightarrow>
    waitUntilServiced_self e t (container p) = Inr c \<Longrightarrow> pool_step p (p\<lparr>container := c\<rparr>)"
| wait_other: "waitUntilServiced_round d e t (container p) = Inr c \<Longrightarrow> pool_step p (p\<lparr>container := c\<rparr>)"
| stop_loop: "in_doExecute p = None \<Longrightarrow> pool_step p (stopMainLoop p)"
| destroy: "in_doExecute p = None \<Longrightarrow> pool_step p (TimerPool_destroy p)"

inductive pool_reachable :: "int \<Rightarrow> TimerPool \<Rightarrow> bool" for n where
  initial: "pool_reachable n (TimerPool_new n)"
| step: "pool_reachable n p \<Longrightarrow> pool_step p q \<Longrightarrow> pool_reachable n q"


section \<open>The invariant of the executors\<close>

text \<open>
  An idle executor has no timer and nothing to do. An executor that has a timer is the one the timer
  is registered with, and the other way round.
\<close>

definition container_ok :: "ExecutorContainer \<Rightarrow> bool" where
  "container_ok c \<longleftrightarrow>
     (\<forall>e \<in> set (m_idle c). \<exists>x. fmlookup (executors c) e = Some x \<and> m_timer x = None) \<and>
     (\<forall>t e. fmlookup (m_running c) t = Some e \<longrightarrow> (\<exists>x. fmlookup (executors c) e = Some x \<and> m_timer x = Some t)) \<and>
     (\<forall>e x. fmlookup (executors c) e = Some x \<longrightarrow> m_timer x = None \<longrightarrow> e \<in> set (m_idle c) \<and> m_doCount x = 0) \<and>
     (\<forall>e x t. fmlookup (executors c) e = Some x \<longrightarrow> m_timer x = Some t \<longrightarrow>
        fmlookup (m_running c) t = Some e \<and> 0 \<le> m_doCount x) \<and>
     (\<forall>e x. fmlookup (executors c) e = Some x \<longrightarrow> e < next_executor c)"

definition picked_ok :: "nat \<Rightarrow> nat \<Rightarrow> ExecutorContainer \<Rightarrow> bool" where
  "picked_ok pt e c \<longleftrightarrow>
     fmlookup (m_running c) pt = Some e \<or> fmlookup (m_running c) pt = None \<and> e \<in> set (m_idle c)"

definition pool_ok :: "TimerPool \<Rightarrow> bool" where
  "pool_ok p \<longleftrightarrow>
     (ec_shutdown (container p) \<longrightarrow> pool_shutdown p \<and> in_doExecute p = None) \<and>
     (\<not> ec_shutdown (container p) \<longrightarrow> container_ok (container p)) \<and>
     (\<forall>pt e. in_doExecute p = Some (pt, e) \<longrightarrow> picked_ok pt e (container p))"

lemma container_okI:
  assumes "\<And>e. e \<in> set (m_idle c) \<Longrightarrow> \<exists>x. fmlookup (executors c) e = Some x \<and> m_timer x = None"
    and "\<And>t e. fmlookup (m_running c) t = Some e \<Longrightarrow> \<exists>x. fmlookup (executors c) e = Some x \<and> m_timer x = Some t"
    and "\<And>e x. fmlookup (executors c) e = Some x \<Longrightarrow> m_timer x = None \<Longrightarrow> e \<in> set (m_idle c) \<and> m_doCount x = 0"
    and "\<And>e x t. fmlookup (executors c) e = Some x \<Longrightarrow> m_timer x = Some t \<Longrightarrow>
           fmlookup (m_running c) t = Some e \<and> 0 \<le> m_doCount x"
    and "\<And>e x. fmlookup (executors c) e = Some x \<Longrightarrow> e < next_executor c"
  shows "container_ok c"
  unfolding container_ok_def
  by (intro conjI allI impI ballI; (erule assms | (drule (1) assms, blast)))

lemma container_okD:
  assumes ok: "container_ok c"
  shows "e \<in> set (m_idle c) \<Longrightarrow> \<exists>x. fmlookup (executors c) e = Some x \<and> m_timer x = None"
    and "fmlookup (m_running c) t = Some e \<Longrightarrow> \<exists>x. fmlookup (executors c) e = Some x \<and> m_timer x = Some t"
    and "fmlookup (executors c) e = Some x \<Longrightarrow> m_timer x = Some t \<Longrightarrow> fmlookup (m_running c) t = Some e"
    and "fmlookup (executors c) e = Some x \<Longrightarrow> m_timer x = None \<Longrightarrow> e \<in> set (m_idle c) \<and> m_doCount x = 0"
    and "fmlookup (executors c) e = Some x \<Longrightarrow> 0 \<le> m_doCount x"
    and "fmlookup (executors c) (next_executor c) = None"
proof -
  show "fmlookup (executors c) e = Some x \<Longrightarrow> 0 \<le> m_doCount x"
    using ok unfolding container_ok_def by (cases "m_timer x") auto
  show "fmlookup (executors c) (next_executor c) = None"
    using ok unfolding container_ok_def by (cases "fmlookup (executors c) (next_executor c)") auto
qed (use ok in \<open>simp_all add: container_ok_def\<close>)

lemma container_ok_bound: "container_ok c \<Longrightarrow> fmlookup (executors c) e = Some x \<Longrightarrow> e < next_executor c"
  by (auto simp: container_ok_def)

lemma the_executor_some [simp]: "fmlookup (executors c) e = Some x \<Longrightarrow> the_executor e c = Inr x"
  by (simp add: the_executor_def)

lemma the_executor_iff: "the_executor e c = Inr x \<longleftrightarrow> fmlookup (executors c) e = Some x"
  by (auto simp: the_executor_def split: option.splits)

lemma set_pushIdle [simp]: "set (m_idle (pushIdle e c)) = insert e (set (m_idle c))"
  by (auto simp: pushIdle_def set_insort_key)

lemma pushIdle_fields [simp]:
  "m_running (pushIdle e c) = m_running c" "executors (pushIdle e c) = executors c"
  "next_executor (pushIdle e c) = next_executor c" "ec_shutdown (pushIdle e c) = ec_shutdown c"
  by (simp_all add: pushIdle_def)

lemma put_executor_fields [simp]:
  "m_running (put_executor e x c) = m_running c" "m_idle (put_executor e x c) = m_idle c"
  "executors (put_executor e x c) = fmupd e x (executors c)"
  "next_executor (put_executor e x c) = next_executor c" "ec_shutdown (put_executor e x c) = ec_shutdown c"
  by (simp_all add: put_executor_def)

lemma push_new_executor_ok:
  assumes "container_ok c"
  shows "container_ok (push_new_executor c)"
    and "m_idle (push_new_executor c) \<noteq> []" "m_running (push_new_executor c) = m_running c"
        "ec_shutdown (push_new_executor c) = ec_shutdown c"
proof -
  have idle: "set (m_idle (push_new_executor c)) = insert (next_executor c) (set (m_idle c))"
    by (simp add: push_new_executor_def new_executor_def)
  show "m_idle (push_new_executor c) \<noteq> []"
    using idle by auto
  have fields: "m_running (push_new_executor c) = m_running c"
    "executors (push_new_executor c) = fmupd (next_executor c) Executor_new (executors c)"
    "next_executor (push_new_executor c) = next_executor c + 1"
    by (simp_all add: push_new_executor_def new_executor_def)
  show "container_ok (push_new_executor c)"
  proof (rule container_okI, goal_cases)
    case (1 f)
    then show ?case
      using container_okD(1) [OF assms, of f] idle by (cases "f = next_executor c") (auto simp: fields Executor_new_def)
  next
    case (2 t f)
    then show ?case
      using container_okD(2) [OF assms, of t f] container_okD(6) [OF assms]
      by (cases "f = next_executor c") (auto simp: fields)
  next
    case (3 f z)
    then show ?case
      using container_okD(4) [OF assms, of f] idle by (cases "f = next_executor c") (auto simp: fields Executor_new_def)
  next
    case (4 f z t)
    then show ?case
      using container_okD(3,5) [OF assms, of f] by (cases "f = next_executor c") (auto simp: fields Executor_new_def)
  next
    case (5 f z)
    then show ?case
      using container_ok_bound [OF assms, of f] by (cases "f = next_executor c") (auto simp: fields)
  qed
qed (simp_all add: push_new_executor_def new_executor_def)

lemma ExecutorContainer_new_ok:
  "container_ok (ExecutorContainer_new n) \<and> \<not> ec_shutdown (ExecutorContainer_new n)"
proof -
  let ?c = "\<lparr>ec_shutdown = False, m_idle = [], m_running = fmempty, executors = fmempty, next_executor = 0\<rparr>"
  have "container_ok ((push_new_executor ^^ k) ?c) \<and> \<not> ec_shutdown ((push_new_executor ^^ k) ?c)" for k
    by (induction k) (simp_all add: push_new_executor_ok, simp add: container_ok_def)
  then show ?thesis
    unfolding ExecutorContainer_new_def by blast
qed

text \<open>Changing the count or the thread state of an executor that keeps its timer.\<close>

lemma keep_timer_ok:
  assumes "container_ok c" "fmlookup (executors c) e = Some x" "m_timer y = m_timer x" "0 \<le> m_doCount y"
    and "m_timer x = None \<Longrightarrow> m_doCount y = 0"
  shows "container_ok (put_executor e y c)"
proof (rule container_okI, goal_cases)
  case (1 f)
  then show ?case
    using container_okD(1) [OF assms(1), of f] assms by (cases "f = e") auto
next
  case (2 t f)
  then show ?case
    using container_okD(2) [OF assms(1), of t f] assms by (cases "f = e") auto
next
  case (3 f z)
  then show ?case
    using container_okD(4) [OF assms(1), of f] assms by (cases "f = e") auto
next
  case (4 f z t)
  then show ?case
    using container_okD(3,5) [OF assms(1), of f] assms by (cases "f = e") auto
next
  case (5 f z)
  then show ?case
    using container_ok_bound [OF assms(1), of f] assms by (cases "f = e") auto
qed

text \<open>Letting go of a timer.\<close>

lemma release_ok:
  assumes "container_ok c" "\<not> ec_shutdown c" "fmlookup (executors c) e = Some x" "m_timer x = Some t"
    "m_timer y = None" "m_doCount y = 0"
  shows "container_ok (put_executor e y (setIdle e t c))"
proof (rule container_okI, goal_cases)
  case (1 f)
  then show ?case
    using container_okD(1) [OF assms(1), of f] assms by (cases "f = e") (auto simp: setIdle_def)
next
  case (2 s f)
  then show ?case
    using container_okD(2) [OF assms(1), of s f] assms
    by (cases "f = e") (auto simp: setIdle_def split: if_splits)
next
  case (3 f z)
  then show ?case
    using container_okD(4) [OF assms(1), of f] assms by (cases "f = e") (auto simp: setIdle_def)
next
  case (4 f z s)
  then show ?case
    using container_okD(3,5) [OF assms(1), of f] container_okD(3) [OF assms(1,3,4)] assms
    by (cases "f = e") (auto simp: setIdle_def)
next
  case (5 f z)
  then show ?case
    using container_ok_bound [OF assms(1), of f] assms by (cases "f = e") (auto simp: setIdle_def)
qed

lemma release_picked:
  assumes "container_ok c" "\<not> ec_shutdown c" "fmlookup (executors c) e = Some x" "m_timer x = Some t"
    "picked_ok pt e' c"
  shows "picked_ok pt e' (put_executor e y (setIdle e t c))"
  using assms(2,5) container_okD(3) [OF assms(1,3,4)] by (auto simp: picked_ok_def setIdle_def)

text \<open>Choosing an executor, and the executor that was chosen taking the timer.\<close>

lemma getExecutor_ok:
  assumes "container_ok c" "getExecutor pt False c = (exe, c')"
  obtains e where "exe = Some e" "container_ok c'" "picked_ok pt e c'" "ec_shutdown c' = ec_shutdown c"
proof (cases "fmlookup (m_running c) pt")
  case None
  define d where "d = (if m_idle c = [] then push_new_executor c else c)"
  have d: "container_ok d" "m_idle d \<noteq> []" "m_running d = m_running c" "ec_shutdown d = ec_shutdown c"
    using assms(1) by (simp_all add: d_def push_new_executor_ok)
  then obtain e es where e: "m_idle d = e # es"
    by (cases "m_idle d") auto
  have "exe = topIdle d" "c' = d"
    using assms(2) None unfolding getExecutor_def d_def [symmetric] by (auto simp: Let_def)
  then show thesis
    using d e None by (intro that [of e]) (simp_all add: topIdle_def picked_ok_def)
next
  case (Some e)
  then show thesis
    using assms by (intro that [of e]) (auto simp: getExecutor_def picked_ok_def)
qed

lemma tryExecute_ok:
  assumes "container_ok c" "picked_ok pt e c"
  obtains c' x where "tryExecute e pt c = Inr (True, c')" "container_ok c'" "ec_shutdown c' = ec_shutdown c"
    "fmlookup (m_running c') pt = Some e" "fmlookup (executors c') e = Some x" "m_timer x = Some pt"
    "0 < m_doCount x"
proof -
  obtain x where x: "fmlookup (executors c) e = Some x" "m_timer x = None \<or> m_timer x = Some pt"
    using assms(2) container_okD(1) [OF assms(1), of e] container_okD(2) [OF assms(1), of pt e]
    unfolding picked_ok_def by blast
  define y where "y = x\<lparr>m_timer := Some pt, m_doCount := m_doCount x + 1\<rparr>"
  define c' where "c' = put_executor e y (if m_doCount x = 0 then setRunning e pt c else c)"
  have eq: "tryExecute e pt c = Inr (True, c')"
    using x by (cases x) (auto simp: tryExecute_def c'_def y_def)
  have sets: "(\<forall>s. fmlookup (m_running c') s = (if s = pt then Some e else fmlookup (m_running c) s)) \<and>
    set (m_idle c') = set (m_idle c) - {e}"
  proof (cases "m_timer x")
    case None
    then have "m_doCount x = 0"
      using container_okD(4) [OF assms(1) x(1)] by simp
    moreover have "fmlookup (m_running c) pt = None"
      using assms(2) None x container_okD(2) [OF assms(1), of pt e] by (auto simp: picked_ok_def)
    ultimately show ?thesis
      by (auto simp: c'_def setRunning_def)
  next
    case (Some t)
    then have "fmlookup (m_running c) pt = Some e"
      using x container_okD(3) [OF assms(1) x(1)] by simp
    moreover have "e \<notin> set (m_idle c)"
      using Some x container_okD(1) [OF assms(1), of e] by auto
    ultimately show ?thesis
      by (auto simp: c'_def setRunning_def)
  qed
  then have run: "fmlookup (m_running c') s = (if s = pt then Some e else fmlookup (m_running c) s)" for s
    by blast
  have idle: "set (m_idle c') = set (m_idle c) - {e}"
    using sets by blast
  have fields: "executors c' = fmupd e y (executors c)" "next_executor c' = next_executor c"
    "ec_shutdown c' = ec_shutdown c"
    by (simp_all add: c'_def setRunning_def split: option.split)
  have y: "m_timer y = Some pt" "0 < m_doCount y"
    using container_okD(5) [OF assms(1) x(1)] by (simp_all add: y_def)
  have "container_ok c'"
  proof (rule container_okI, goal_cases)
    case (1 f)
    then show ?case
      using container_okD(1) [OF assms(1), of f] idle by (auto simp: fields)
  next
    case (2 s f)
    then show ?case
      using container_okD(2) [OF assms(1), of s f] x y by (cases "s = pt") (auto simp: fields run)
  next
    case (3 f z)
    then show ?case
      using container_okD(4) [OF assms(1), of f] idle y by (cases "f = e") (auto simp: fields)
  next
    case (4 f z s)
    then show ?case
      using container_okD(3,5) [OF assms(1), of f] assms(2) y x
      by (cases "f = e") (auto simp: fields run picked_ok_def)
  next
    case (5 f z)
    then show ?case
      using container_ok_bound [OF assms(1), of f] x by (cases "f = e") (auto simp: fields)
  qed
  then show thesis
    using that [OF eq] run y by (simp add: fields)
qed

section \<open>The invariant holds under every interleaving\<close>

text \<open>The operations on timers leave the executors and the main loop alone.\<close>

definition same_executors :: "TimerPool \<Rightarrow> TimerPool \<Rightarrow> bool" where
  "same_executors p q \<longleftrightarrow>
     container q = container p \<and> in_doExecute q = in_doExecute p \<and> pool_shutdown q = pool_shutdown p"

lemma same_executors_ok: "same_executors p q \<Longrightarrow> pool_ok p \<Longrightarrow> pool_ok q"
  by (simp add: same_executors_def pool_ok_def)

lemma startTimer_same: "same_executors p (startTimer pt t p)"
  by (simp add: same_executors_def startTimer_def split: option.split)

lemma timer_operations_same:
  "same_executors p (createTimer pt p)"
  "setListener pt l p = Inr q \<Longrightarrow> same_executors p q"
  "timer_start now pt time p = Inr q \<Longrightarrow> same_executors p q"
  "timer_restart now pt p = Inr q \<Longrightarrow> same_executors p q"
  "same_executors p (snd (stopTimer pt p))"
  "same_executors p (snd (removeTimer pt p))"
  "timer_execute pt p = Inr q \<Longrightarrow> same_executors p q"
  using startTimer_same
  by (auto simp: same_executors_def createTimer_def setListener_def timer_start_def timer_restart_def
      stopTimer_def removeTimer_def timer_execute_def Let_def split: option.splits)

text \<open>A change of the container that keeps its invariant and the executor the main loop has picked.\<close>

lemma container_step_ok:
  assumes "pool_ok p" "ec_shutdown c = ec_shutdown (container p)"
    and "container_ok (container p) \<Longrightarrow> \<not> ec_shutdown (container p) \<Longrightarrow> container_ok c"
    and "\<And>pt e. container_ok (container p) \<Longrightarrow> \<not> ec_shutdown (container p) \<Longrightarrow>
           picked_ok pt e (container p) \<Longrightarrow> picked_ok pt e c"
  shows "pool_ok (p\<lparr>container := c\<rparr>)"
  using assms unfolding pool_ok_def by auto

lemma picked_put_executor [simp]: "picked_ok pt e' (put_executor e x c) = picked_ok pt e' c"
  by (simp add: picked_ok_def)

lemma setIdle_shutdown [simp]: "ec_shutdown (setIdle e t c) = ec_shutdown c"
  by (simp add: setIdle_def)

lemma reduceCount_ok:
  assumes "reduceCount e c = Inr c'"
  shows "ec_shutdown c' = ec_shutdown c"
    and "container_ok c \<Longrightarrow> \<not> ec_shutdown c \<Longrightarrow> container_ok c'"
    and "container_ok c \<Longrightarrow> \<not> ec_shutdown c \<Longrightarrow> picked_ok pt e' c \<Longrightarrow> picked_ok pt e' c'"
proof -
  obtain x where x: "fmlookup (executors c) e = Some x"
    using assms by (auto simp: reduceCount_def the_executor_iff bind_res_Inr_iff)
  have c': "c' = (case m_timer x of None \<Rightarrow> c | Some t \<Rightarrow>
      if m_doCount x - 1 \<le> 0 then put_executor e (x\<lparr>m_doCount := 0, m_timer := None\<rparr>) (setIdle e t c)
      else put_executor e (x\<lparr>m_doCount := m_doCount x - 1\<rparr>) c)"
    using assms x by (auto simp: reduceCount_def Let_def split: option.splits if_splits)
  show "ec_shutdown c' = ec_shutdown c"
    by (simp add: c' split: option.split)
  show "container_ok c \<Longrightarrow> \<not> ec_shutdown c \<Longrightarrow> container_ok c'"
    using x by (auto simp: c' split: option.split intro!: release_ok [OF _ _ x] keep_timer_ok [OF _ x])
  show "container_ok c \<Longrightarrow> \<not> ec_shutdown c \<Longrightarrow> picked_ok pt e' c \<Longrightarrow> picked_ok pt e' c'"
    using release_picked [OF _ _ x, of _ pt e'] by (auto simp: c' simp del: picked_put_executor split: option.split)
      (simp add: picked_put_executor)
qed

lemma waitUntilServiced_self_ok:
  assumes "waitUntilServiced_self e t c = Inr c'"
  shows "ec_shutdown c' = ec_shutdown c"
    and "container_ok c \<Longrightarrow> \<not> ec_shutdown c \<Longrightarrow> container_ok c'"
    and "container_ok c \<Longrightarrow> \<not> ec_shutdown c \<Longrightarrow> picked_ok pt e' c \<Longrightarrow> picked_ok pt e' c'"
  using assms
  by (auto simp: waitUntilServiced_self_def the_executor_iff bind_res_Inr_iff simp del: picked_put_executor
      split: if_splits intro: release_ok release_picked)

lemma waitUntilServiced_round_ok:
  assumes "waitUntilServiced_round d e t c = Inr c'"
  shows "ec_shutdown c' = ec_shutdown c"
    and "container_ok c \<Longrightarrow> container_ok c'"
    and "picked_ok pt e' c \<Longrightarrow> picked_ok pt e' c'"
  using assms
  by (auto simp: waitUntilServiced_round_def the_executor_iff bind_res_Inr_iff
      split: if_splits intro: keep_timer_ok)

lemma doExecute_ok:
  assumes "pool_ok p" "\<not> pool_shutdown p" "doExecute pt t p = Inr q"
  shows "pool_ok q"
proof -
  obtain exe c where get: "getExecutor pt False (container p) = (exe, c)"
    by (cases "getExecutor pt False (container p)")
  have up: "\<not> ec_shutdown (container p)" "container_ok (container p)"
    using assms(1,2) by (auto simp: pool_ok_def)
  obtain e where "exe = Some e" "container_ok c" "picked_ok pt e c" "ec_shutdown c = ec_shutdown (container p)"
    by (rule getExecutor_ok [OF up(2) get])
  then show ?thesis
    using assms(3) get up by (auto simp: doExecute_def pool_ok_def)
qed

lemma doExecute_try_ok:
  assumes "pool_ok p" "in_doExecute p = Some (pt, e)"
  obtains c x where "doExecute_try p = Inr (True, p\<lparr>container := c, in_doExecute := None\<rparr>)" "container_ok c"
    "\<not> ec_shutdown c" "fmlookup (m_running c) pt = Some e" "fmlookup (executors c) e = Some x"
    "m_timer x = Some pt" "0 < m_doCount x"
proof -
  have up: "\<not> ec_shutdown (container p)" "container_ok (container p)" "picked_ok pt e (container p)"
    using assms by (auto simp: pool_ok_def)
  show thesis
    by (rule tryExecute_ok [OF up(2,3)]) (use assms(2) up(1) that in \<open>simp add: doExecute_try_def\<close>)
qed

lemma run_execute_ok:
  assumes "pool_ok p" "run_execute e p = Inr q"
  shows "pool_ok q"
proof -
  obtain x where x: "fmlookup (executors (container p)) e = Some x"
    using assms(2) by (auto simp: run_execute_def the_executor_iff bind_res_Inr_iff)
  show ?thesis
  proof (cases "m_timer x")
    case None
    then show ?thesis
      using assms x by (simp add: run_execute_def)
  next
    case (Some t)
    then obtain p1 where p1: "timer_execute t p = Inr p1"
      "q = p1\<lparr>container := put_executor e (x\<lparr>executing := True\<rparr>) (container p1)\<rparr>"
      using assms x by (auto simp: run_execute_def bind_res_Inr_iff)
    then have same: "same_executors p p1"
      by (simp add: timer_operations_same)
    then have x1: "fmlookup (executors (container p1)) e = Some x"
      using x by (simp add: same_executors_def)
    show ?thesis
      unfolding p1(2)
      by (rule container_step_ok [OF same_executors_ok [OF same assms(1)]])
        (use Some container_okD(5) [OF _ x1] in \<open>auto intro!: keep_timer_ok [OF _ x1]\<close>)
  qed
qed

lemma run_reduce_ok:
  assumes "pool_ok p" "run_reduce e p = Inr q"
  shows "pool_ok q"
proof -
  obtain x c where x: "fmlookup (executors (container p)) e = Some x"
    and c: "reduceCount e (put_executor e (x\<lparr>executing := False\<rparr>) (container p)) = Inr c"
    and q: "q = p\<lparr>container := c\<rparr>"
    using assms(2) by (auto simp: run_reduce_def the_executor_iff bind_res_Inr_iff)
  have keep: "container_ok (put_executor e (x\<lparr>executing := False\<rparr>) (container p))"
    if "container_ok (container p)"
    using container_okD(4,5) [OF that x] by (intro keep_timer_ok [OF that x]) simp_all
  show ?thesis
    unfolding q using keep reduceCount_ok [OF c] by (intro container_step_ok [OF assms(1)]) auto
qed

lemma pool_step_ok: "pool_step p q \<Longrightarrow> pool_ok p \<Longrightarrow> pool_ok q"
proof (induction rule: pool_step.induct)
  case (fire p now t pt q)
  then show ?case
    by (auto simp: mainLoop_due_def split: if_splits intro: doExecute_ok)
next
  case (hand_over p x r q)
  obtain c y where "doExecute_try p = Inr (True, p\<lparr>container := c, in_doExecute := None\<rparr>)" "container_ok c"
    "\<not> ec_shutdown c"
    by (rule doExecute_try_ok [of p "fst x" "snd x"]) (use hand_over in auto)
  then show ?case
    using hand_over by (auto simp: pool_ok_def)
next
  case (wait_self e p x t c)
  then show ?case
    using waitUntilServiced_self_ok [of e t "container p" c] by (intro container_step_ok) auto
next
  case (wait_other d e t p c)
  then show ?case
    using waitUntilServiced_round_ok [of d e t "container p" c] by (intro container_step_ok) auto
next
  case (execute e p x q)
  then show ?case
    by (auto intro: run_execute_ok)
next
  case (reduce e p x q)
  then show ?case
    by (auto intro: run_reduce_ok)
next
  case (stop_loop p)
  then show ?case
    by (simp add: pool_ok_def stopMainLoop_def)
next
  case (destroy p)
  then show ?case
    by (simp add: pool_ok_def TimerPool_destroy_def stopMainLoop_def container_shutdown_def Let_def)
qed (auto intro: same_executors_ok timer_operations_same)

lemma pool_reachable_ok: "pool_reachable n p \<Longrightarrow> pool_ok p"
proof (induction rule: pool_reachable.induct)
  case initial
  then show ?case
    using ExecutorContainer_new_ok by (simp add: pool_ok_def TimerPool_new_def)
qed (auto intro: pool_step_ok)

text \<open>
  C30. The executor the main loop picks for a timer that is due always takes it, whatever the executor
  threads do between the choice and the hand-over: even if it was servicing this timer and has
  finished meanwhile. Afterwards the timer is registered with that executor and an event is due.
\<close>

theorem picked_executor_takes_timer:
  assumes "pool_reachable n p" "in_doExecute p = Some (pt, e)"
  shows "\<exists>q x. doExecute_try p = Inr (True, q) \<and> fmlookup (m_running (container q)) pt = Some e \<and>
    fmlookup (executors (container q)) e = Some x \<and> m_timer x = Some pt \<and> 0 < m_doCount x"
proof -
  obtain c x where "doExecute_try p = Inr (True, p\<lparr>container := c, in_doExecute := None\<rparr>)"
    "fmlookup (m_running c) pt = Some e" "fmlookup (executors c) e = Some x" "m_timer x = Some pt"
    "0 < m_doCount x"
    by (rule doExecute_try_ok [OF pool_reachable_ok [OF assms(1)] assms(2)])
  then show ?thesis
    by (intro exI [of _ "p\<lparr>container := c, in_doExecute := None\<rparr>"] exI [of _ x]) simp
qed

text \<open>A pool with one executor and a timer that has been started for five seconds.\<close>

lemma std_keys_small: "std_keys fmempty = []" "std_keys (fmupd k v fmempty) = [k]"
  by (simp_all add: std_keys_def sorted_list_of_fset.rep_eq)

definition started_pool :: TimerPool where
  "started_pool =
     startTimer 7 (timespec 5 0) ((createTimer 7 (TimerPool_new 1))
       \<lparr>timers := fmupd 7 \<lparr>m_listener = None, m_time = 5\<rparr> (timers (createTimer 7 (TimerPool_new 1)))\<rparr>)"

lemma started_pool_eq:
  "m_runningTimers started_pool = fmupd (timespec 5 0) 7 fmempty"
  "container started_pool = ExecutorContainer_new 1" "in_doExecute started_pool = None"
  "\<not> pool_shutdown started_pool"
  by (simp_all add: started_pool_def startTimer_def createTimer_def TimerPool_new_def isRunning_at_def
      std_keys_small std_insert_absent)

lemma started_pool_reachable: "pool_reachable 1 started_pool"
proof -
  have created: "pool_reachable 1 (createTimer 7 (TimerPool_new 1))"
    by (rule pool_reachable.step [OF pool_reachable.initial pool_step.create]) (simp_all add: TimerPool_new_def)
  have started: "timer_start (timespec 0 0) 7 5 (createTimer 7 (TimerPool_new 1)) = Inr started_pool"
    by (simp add: timer_start_def started_pool_def createTimer_def PooledTimer_init_def getTargetTime_def)
  show ?thesis
    by (rule pool_reachable.step [OF created pool_step.start [OF _ started]])
      (simp add: createTimer_def TimerPool_new_def)
qed

lemma started_pool_fires:
  obtains p where "pool_reachable 1 p" "in_doExecute p = Some (7, 0)"
proof -
  have one: "ExecutorContainer_new 1 = \<lparr>ec_shutdown = False, m_idle = [0], m_running = fmempty,
      executors = fmupd 0 Executor_new fmempty, next_executor = 1\<rparr>"
    by (simp add: ExecutorContainer_new_def push_new_executor_def new_executor_def pushIdle_def)
  have due: "mainLoop_due (timespec 6 0) started_pool = Some (timespec 5 0, 7)"
    by (simp add: mainLoop_due_def getFirstOfRunningTimers_def started_pool_eq std_keys_small isTimeReached_def)
  obtain q where q: "doExecute 7 (timespec 5 0) started_pool = Inr q" "in_doExecute q = Some (7, 0)"
    by (simp add: doExecute_def started_pool_eq one getExecutor_def topIdle_def)
  show thesis
    by (rule that [OF pool_reachable.step [OF started_pool_reachable
          pool_step.fire [OF started_pool_eq(3) due q(1)]] q(2)])
qed

theorem picked_executor_takes_timer_witness:
  "\<exists>p q x. in_doExecute p = Some (7, 0) \<and> doExecute_try p = Inr (True, q) \<and>
    fmlookup (m_running (container q)) 7 = Some 0 \<and> fmlookup (executors (container q)) 0 = Some x \<and>
    m_timer x = Some 7"
proof -
  obtain p where p: "pool_reachable 1 p" "in_doExecute p = Some (7, 0)"
    by (rule started_pool_fires)
  show ?thesis
    using picked_executor_takes_timer [OF p] p(2) by blast
qed


section \<open>Lost events\<close>

text \<open>
  A timer that is started for a time at which another one is due is not entered into the map of
  running timers, and it is taken out of the idle ones: it never fires.
\<close>

lemma equal_target_lost:
  assumes "isRunning_at pt p = None" "fmlookup (m_runningTimers p) t = Some other"
  shows "m_runningTimers (startTimer pt t p) = m_runningTimers p"
    and "pt |\<notin>| m_idleTimers (startTimer pt t p)"
  using assms by (simp_all add: startTimer_def)

text \<open>
  A listener that deletes its timer makes the executor idle while its thread is still in the listener.
  If the main loop hands a second timer to the executor meanwhile, the return from the listener takes
  the event of the second timer off the count, and it is not delivered.
\<close>

lemma event_lost_after_self_removal:
  assumes "container_ok c" "\<not> ec_shutdown c" "fmlookup (executors c) e = Some x" "m_timer x = Some t"
    and "fmlookup (m_running c) t2 = None"
  shows "\<exists>c1 c2 c3 y. waitUntilServiced_self e t c = Inr c1 \<and> tryExecute e t2 c1 = Inr (True, c2) \<and>
    reduceCount e c2 = Inr c3 \<and> fmlookup (executors c3) e = Some y \<and> m_timer y = None"
proof -
  have "t2 \<noteq> t"
    using assms container_okD(3) [OF assms(1,3,4)] by auto
  then show ?thesis
    using assms
    by (simp add: waitUntilServiced_self_def tryExecute_def reduceCount_def setIdle_def setRunning_def
        Let_def the_executor_def)
qed

end
