(* ===== verification/Worker_Pool.thy ===== *)
theory Worker_Pool
  imports Gradido_Prelude
begin

text \<open>
  \<open>src/worker_pool.cpp\<close>: a queue of tasks and the threads that run them. A task is a number, and a
  \<open>SyncedTask\<close> wraps a task somebody waits for. What a thread does between taking and releasing the
  mutex of the pool is one operation; a thread is described by the place in \<open>run_entry\<close> it has
  reached.
\<close>

section \<open>State\<close>

datatype queued = plain nat | synced nat

text \<open>
  A thread is about to take the mutex (\<open>at_lock\<close>), waits for the condition, runs a task without the
  mutex, waits in \<open>SyncedTask::run\<close> for the waiting side to confirm, or has left the loop.
\<close>

datatype place = at_lock | at_wait | in_task queued | in_synced nat | gone

text \<open>
  \<open>pool_workers\<close> are the threads. The last seven fields record the history: the tasks accepted by the queue
  and taken from it, the tasks that have run, the calls of \<open>push_and_join\<close> that wait, that have
  returned, and that were refused because the pool shuts down, and the tasks deleted without having run.
\<close>

record WorkerPool =
  pool_queue :: "queued list"
  pool_workers :: "place list"
  shutting_down :: bool
  busy_workers :: u64
  finished_status :: "(nat, bool) fmap"
  accepted :: "queued list"
  taken :: "queued list"
  completed :: "nat list"
  joining :: "nat list"
  joined :: "nat list"
  refused :: "nat list"
  dropped :: "nat list"

definition WorkerPool_new :: WorkerPool where
  "WorkerPool_new =
     \<lparr>pool_queue = [], pool_workers = [], shutting_down = False, busy_workers = 0, finished_status = fmempty,
      accepted = [], taken = [], completed = [], joining = [], joined = [], refused = [], dropped = []\<rparr>"

fun task_of :: "queued \<Rightarrow> nat" where
  "task_of (plain t) = t"
| "task_of (synced t) = t"


section \<open>Operations\<close>

text \<open>\<open>init\<close> sets the number of busy workers before the threads, which start at the lock, can go on.\<close>

definition pool_init :: "nat \<Rightarrow> WorkerPool \<Rightarrow> WorkerPool" where
  "pool_init worker_count p =
     p\<lparr>busy_workers := of_nat worker_count, pool_workers := pool_workers p @ replicate worker_count at_lock\<rparr>"

definition enqueue :: "queued \<Rightarrow> WorkerPool \<Rightarrow> WorkerPool" where
  "enqueue q p = p\<lparr>pool_queue := pool_queue p @ [q], accepted := accepted p @ [q]\<rparr>"

definition push :: "nat \<Rightarrow> WorkerPool \<Rightarrow> WorkerPool" where
  "push t p = (if \<not> shutting_down p then enqueue (plain t) p else p\<lparr>dropped := dropped p @ [t]\<rparr>)"

text \<open>
  While the pool shuts down \<open>push_and_join\<close> does not wait: it deletes the task and returns at once.
\<close>

definition push_and_join :: "nat \<Rightarrow> WorkerPool \<Rightarrow> WorkerPool" where
  "push_and_join t p =
     (if \<not> shutting_down p
      then (enqueue (synced t) p)\<lparr>finished_status := fmupd t False (finished_status p), joining := t # joining p\<rparr>
      else p\<lparr>dropped := dropped p @ [t], refused := t # refused p, joined := t # joined p\<rparr>)"

definition init_shutdown :: "WorkerPool \<Rightarrow> WorkerPool" where
  "init_shutdown p = p\<lparr>shutting_down := True\<rparr>"

text \<open>
  \<open>run_entry\<close>: the worker counts itself as not busy, then waits until there is a task or the pool shuts
  down; the test of the waiting loop is \<open>run_wait\<close>.
\<close>

definition run_wait :: "nat \<Rightarrow> WorkerPool \<Rightarrow> WorkerPool" where
  "run_wait w p =
     (if pool_queue p = [] \<and> \<not> shutting_down p then p\<lparr>pool_workers := (pool_workers p)[w := at_wait]\<rparr>
      else if shutting_down p then p\<lparr>pool_workers := (pool_workers p)[w := gone]\<rparr>
      else p\<lparr>pool_queue := tl (pool_queue p), taken := taken p @ [hd (pool_queue p)],
             busy_workers := busy_workers p + 1,
             pool_workers := (pool_workers p)[w := in_task (hd (pool_queue p))]\<rparr>)"

definition run_enter :: "nat \<Rightarrow> WorkerPool \<Rightarrow> WorkerPool" where
  "run_enter w p = run_wait w (p\<lparr>busy_workers := busy_workers p - 1\<rparr>)"

text \<open>
  A task that returns or throws is deleted and the loop goes on. A synced task first signals that it
  has finished, and waits until the other side has confirmed.
\<close>

definition run_finish :: "nat \<Rightarrow> queued \<Rightarrow> WorkerPool \<Rightarrow> WorkerPool" where
  "run_finish w q p =
     (let p1 = p\<lparr>completed := completed p @ [task_of q]\<rparr>
      in case q of
           plain t \<Rightarrow> p1\<lparr>pool_workers := (pool_workers p)[w := at_lock]\<rparr>
         | synced t \<Rightarrow> p1\<lparr>finished_status := fmupd t True (finished_status p),
                          pool_workers := (pool_workers p)[w := in_synced t]\<rparr>)"

definition run_confirmed :: "nat \<Rightarrow> WorkerPool \<Rightarrow> WorkerPool" where
  "run_confirmed w p = p\<lparr>pool_workers := (pool_workers p)[w := at_lock]\<rparr>"

text \<open>\<open>SyncedTask::join\<close> returns.\<close>

definition synced_join :: "nat \<Rightarrow> WorkerPool \<Rightarrow> WorkerPool" where
  "synced_join t p =
     p\<lparr>finished_status := fmupd t False (finished_status p), joining := remove1 t (joining p),
       joined := t # joined p\<rparr>"

definition get_worker_count :: "WorkerPool \<Rightarrow> nat" where
  "get_worker_count p = length (pool_workers p)"

definition get_task_queue_size :: "WorkerPool \<Rightarrow> nat" where
  "get_task_queue_size p = length (pool_queue p)"

definition get_busy_worker_count :: "WorkerPool \<Rightarrow> u64" where
  "get_busy_worker_count p = busy_workers p"

text \<open>
  \<open>join\<close> waits for all threads to end; the destructor shuts down, waits, and deletes the tasks that are
  left in the queue.
\<close>

definition all_gone :: "WorkerPool \<Rightarrow> bool" where
  "all_gone p = list_all (\<lambda>w. w = gone) (pool_workers p)"

definition pool_join :: "WorkerPool \<Rightarrow> WorkerPool option" where
  "pool_join p = (if all_gone p then Some (p\<lparr>pool_workers := []\<rparr>) else None)"

definition drop_queue :: "WorkerPool \<Rightarrow> WorkerPool" where
  "drop_queue p = p\<lparr>pool_workers := [], pool_queue := [], dropped := dropped p @ map task_of (pool_queue p)\<rparr>"


section \<open>Interleavings\<close>

inductive worker_step :: "WorkerPool \<Rightarrow> WorkerPool \<Rightarrow> bool" where
  push: "worker_step p (push t p)"
| push_and_join: "synced t \<notin> set (accepted p) \<Longrightarrow> worker_step p (push_and_join t p)"
| shutdown: "worker_step p (init_shutdown p)"
| enter: "w < length (pool_workers p) \<Longrightarrow> pool_workers p ! w = at_lock \<Longrightarrow> worker_step p (run_enter w p)"
| wake: "w < length (pool_workers p) \<Longrightarrow> pool_workers p ! w = at_wait \<Longrightarrow> worker_step p (run_wait w p)"
| finish: "w < length (pool_workers p) \<Longrightarrow> pool_workers p ! w = in_task q \<Longrightarrow> worker_step p (run_finish w q p)"
| confirmed: "w < length (pool_workers p) \<Longrightarrow> pool_workers p ! w = in_synced t \<Longrightarrow>
    fmlookup (finished_status p) t = Some False \<Longrightarrow> worker_step p (run_confirmed w p)"
| join: "t \<in> set (joining p) \<Longrightarrow> fmlookup (finished_status p) t = Some True \<Longrightarrow> worker_step p (synced_join t p)"

text \<open>The states between \<open>init\<close> and the destructor.\<close>

inductive workers_reachable :: "nat \<Rightarrow> WorkerPool \<Rightarrow> bool" for n where
  initial: "workers_reachable n (pool_init n WorkerPool_new)"
| step: "workers_reachable n p \<Longrightarrow> worker_step p q \<Longrightarrow> workers_reachable n q"


section \<open>The invariant\<close>

fun is_busy :: "place \<Rightarrow> bool" where
  "is_busy at_lock = True"
| "is_busy at_wait = False"
| "is_busy (in_task _) = True"
| "is_busy (in_synced _) = True"
| "is_busy gone = False"

definition workers_ok :: "nat \<Rightarrow> WorkerPool \<Rightarrow> bool" where
  "workers_ok n p \<longleftrightarrow>
     accepted p = taken p @ pool_queue p \<and>
     length (pool_workers p) = n \<and>
     busy_workers p = of_nat (length (filter is_busy (pool_workers p))) \<and>
     (\<forall>t. fmlookup (finished_status p) t = Some True \<longrightarrow> t \<in> set (completed p)) \<and>
     set (joined p) \<subseteq> set (completed p) \<union> set (refused p) \<and>
     set (refused p) \<subseteq> set (dropped p) \<and> (refused p = [] \<or> shutting_down p)"

lemma busy_update:
  assumes "w < length ws"
  shows "(of_nat (length (filter is_busy (ws[w := v]))) :: u64) =
    of_nat (length (filter is_busy ws)) + (if is_busy v then 1 else 0) - (if is_busy (ws ! w) then 1 else 0)"
proof -
  have "length (filter is_busy (ws[w := v])) + (if is_busy (ws ! w) then 1 else 0)
      = length (filter is_busy ws) + (if is_busy v then 1 else 0)"
    using assms by (rule length_filter_update)
  then have "(of_nat (length (filter is_busy (ws[w := v])) + (if is_busy (ws ! w) then 1 else 0)) :: u64)
      = of_nat (length (filter is_busy ws) + (if is_busy v then 1 else 0))"
    by (rule arg_cong)
  then show ?thesis
    by (simp add: eq_diff_eq split: if_splits)
qed

lemma run_wait_ok:
  assumes "accepted p = taken p @ pool_queue p" "w < length (pool_workers p)"
    and "busy_workers p + (if is_busy (pool_workers p ! w) then 1 else 0) = of_nat (length (filter is_busy (pool_workers p)))"
  shows "accepted (run_wait w p) = taken (run_wait w p) @ pool_queue (run_wait w p)"
    and "busy_workers (run_wait w p) = of_nat (length (filter is_busy (pool_workers (run_wait w p))))"
    and "length (pool_workers (run_wait w p)) = length (pool_workers p)"
    and "finished_status (run_wait w p) = finished_status p" "completed (run_wait w p) = completed p"
        "joined (run_wait w p) = joined p" "refused (run_wait w p) = refused p" "dropped (run_wait w p) = dropped p"
        "shutting_down (run_wait w p) = shutting_down p"
  using assms by (auto simp: run_wait_def busy_update [OF assms(2)] algebra_simps)

lemma worker_step_ok: "worker_step p q \<Longrightarrow> workers_ok n p \<Longrightarrow> workers_ok n q"
proof (induction rule: worker_step.induct)
  case (enter w p)
  then show ?case
    using run_wait_ok [of "p\<lparr>busy_workers := busy_workers p - 1\<rparr>" w]
    by (simp add: workers_ok_def run_enter_def)
next
  case (wake w p)
  then show ?case
    using run_wait_ok [of p w] by (simp add: workers_ok_def)
next
  case (finish w p q)
  then show ?case
    by (cases q) (auto simp: workers_ok_def run_finish_def busy_update)
qed (auto simp: workers_ok_def push_def push_and_join_def init_shutdown_def enqueue_def run_confirmed_def
    synced_join_def busy_update)

lemma workers_reachable_ok: "workers_reachable n p \<Longrightarrow> workers_ok n p"
proof (induction rule: workers_reachable.induct)
  case initial
  then show ?case
    by (simp add: workers_ok_def pool_init_def WorkerPool_new_def)
qed (auto intro: worker_step_ok)


text \<open>One worker has run the first of two tasks for a waiting caller; then the pool shuts down and refuses a third.\<close>

definition two_pushed :: WorkerPool where
  "two_pushed = push_and_join 7 (init_shutdown (synced_join 5 (run_finish 0 (synced 5)
     (run_enter 0 (push 6 (push_and_join 5 (pool_init 1 WorkerPool_new)))))))"

lemmas pool_ops = pool_init_def WorkerPool_new_def push_def push_and_join_def enqueue_def run_enter_def run_wait_def
  run_finish_def synced_join_def init_shutdown_def

lemma two_pushed_reachable: "workers_reachable 1 two_pushed"
  unfolding two_pushed_def
  by (intro workers_reachable.step [OF _ worker_step.push_and_join] workers_reachable.step [OF _ worker_step.shutdown]
      workers_reachable.step [OF _ worker_step.join] workers_reachable.step [OF _ worker_step.finish]
      workers_reachable.step [OF _ worker_step.enter] workers_reachable.step [OF _ worker_step.push]
      workers_reachable.initial)
    (simp_all add: pool_ops)


text \<open>
  A task pushed with \<open>push_and_join\<close> that is still queued when the pool shuts down is not taken by a
  worker that comes back to the queue, so its caller keeps waiting.
\<close>

lemma no_task_taken_after_shutdown:
  assumes "shutting_down p"
  shows "pool_queue (run_wait w p) = pool_queue p" "joining (run_wait w p) = joining p"
  using assms by (simp_all add: run_wait_def)

end
