(* ===== verification/Dumper.thy ===== *)
theory Dumper
  imports Json_Properties Block_Recovery "HOL-Library.Multiset"
begin

text \<open>
  The program that prints a blockchain (\<open>src/dumper.h\<close> and its three instances under \<open>src/bins/\<close>), and the names
  of block files (\<open>Fnr\<close> of \<open>src/blockchain.h\<close>). A directory is the list of its files, in the order in which it
  is visited; the common folder is left out of their names, which changes neither their endings nor their order.
\<close>

section \<open>Block files\<close>

definition get_file_name :: "bytes \<Rightarrow> nat \<Rightarrow> bytes" where
  "get_file_name name i = name @ bytes_of ''.'' @ decimal_str i @ bytes_of ''.block''"

definition get_bad_file_name :: "bytes \<Rightarrow> nat \<Rightarrow> nat \<Rightarrow> bytes" where
  "get_bad_file_name name ts i = name @ bytes_of ''.'' @ decimal_str i @ bytes_of ''.'' @ decimal_str ts @ bytes_of ''.bad''"

text \<open>
  The number of blocks: one more than the largest number in a file name. The regular expression is of Poco:
  \<open>split\<close> returns the digits of a file name that matches.
\<close>

fun get_file_count :: "(bytes \<Rightarrow> bytes option) \<Rightarrow> u32 \<Rightarrow> bytes list \<Rightarrow> u32 res" where
  "get_file_count split res0 [] = Inr res0"
| "get_file_count split res0 (fname # fnames) =
     bind_res
       (case split fname of
          None \<Rightarrow> Inr res0
        | Some ds \<Rightarrow>
            bind_res (stoul ds) (\<lambda>block_num.
              if decimal_str (unat block_num) \<noteq> ds then Inl (Throw ''bad block number'')
              else Inr (if ucast res0 \<le> block_num then ucast (block_num + 1) else res0)))
       (\<lambda>res1. if res1 = -1 then Inl (Throw ''too many blocks'') else get_file_count split res1 fnames)"

definition splits_block_names :: "bytes \<Rightarrow> (bytes \<Rightarrow> bytes option) \<Rightarrow> bool" where
  "splits_block_names name split \<longleftrightarrow> (\<forall>fname ds. split fname = Some ds \<longleftrightarrow>
     ds \<noteq> [] \<and> list_all is_digit ds \<and> fname = name @ bytes_of ''.'' @ ds @ bytes_of ''.block'')"


section \<open>The program\<close>

definition ends_with :: "bytes \<Rightarrow> bytes \<Rightarrow> bool" where
  "ends_with s ending \<longleftrightarrow> length ending \<le> length s \<and> drop (length s - length ending) s = ending"

fun find_blocks :: "(bytes \<times> 'p os_file) list \<Rightarrow> (bytes \<times> 'p os_file) list res" where
  "find_blocks [] = Inr []"
| "find_blocks ((ps, f) # dir) =
     (if ends_with ps (bytes_of ''.block'')
      then if length (contents f) \<noteq> GRADIDO_BLOCK_SIZE \<or> extra_bytes f \<noteq> 0 then Inl (Throw ''not a block file (bad size)'')
           else bind_res (find_blocks dir) (\<lambda>bs. Inr ((ps, f) # bs))
      else find_blocks dir)"

definition used_records :: "'p os_file \<Rightarrow> 'p Record list" where
  "used_records f = takeWhile (\<lambda>r. r \<noteq> EMPTY) (contents f)"

fun dump_blocks :: "('p \<Rightarrow> bytes res) \<Rightarrow> 'p os_file list \<Rightarrow> bytes res" where
  "dump_blocks dump_payload [] = Inr []"
| "dump_blocks dump_payload (f # fs) =
     bind_res (dump_list dump_payload True (used_records f)) (\<lambda>t.
     bind_res (dump_blocks dump_payload fs) (\<lambda>rest. Inr (t @ rest)))"

text \<open>
  The exit code and what is printed. A directory that cannot be read (\<open>None\<close>) throws; exceptions occur before
  anything is printed.
\<close>

definition dump :: "('p \<Rightarrow> bytes res) \<Rightarrow> bytes list \<Rightarrow> (bytes \<Rightarrow> (bytes \<times> 'p os_file) list option) \<Rightarrow> (int \<times> bytes) res" where
  "dump dump_payload params read_dir =
     (if length params < 2 then Inr (-1, [])
      else case bind_res (case read_dir (params ! 1) of None \<Rightarrow> Inl (Throw ''no such folder'') | Some dir \<Rightarrow> find_blocks dir)
             (\<lambda>found.
               let blocks = map snd (sort_key fst found)
               in if \<not> list_all can_read blocks then Inl (Undefined ''record read from a closed stream'')
                  else if bytes_of ''-c'' \<in> set params
                  then Inr (decimal_str (sum_list (map (length \<circ> used_records) blocks)) @ endl)
                  else bind_res (dump_blocks dump_payload blocks) (\<lambda>t. Inr ([91, 10] @ t @ [93, 10])))
           of Inl (Throw _) \<Rightarrow> Inr (1, [])
            | Inl e \<Rightarrow> Inl e
            | Inr out \<Rightarrow> Inr (0, out))"

section \<open>The number of blocks\<close>

lemma file_count_step:
  assumes "splits_block_names name split" "n < 2 ^ 32 - 1" "k \<le> n"
    and "\<forall>fname \<in> set fnames. split fname = None \<or> (\<exists>i < n. fname = get_file_name name i)"
  shows "\<exists>m. get_file_count split (of_nat k) fnames = Inr (of_nat m) \<and> k \<le> m \<and> m \<le> n \<and>
    (\<forall>i. get_file_name name i \<in> set fnames \<longrightarrow> i < m)"
  using assms(3,4)
proof (induction fnames arbitrary: k)
  case (Cons fname fnames)
  have le: "(of_nat j :: u32) \<noteq> -1" if "j \<le> n" for j
  proof -
    have "unat (of_nat j :: u32) = j"
      using that assms(2) by (simp add: unat_of_nat)
    moreover have "unat (-1 :: u32) = 2 ^ 32 - 1"
      by (simp add: unsigned_minus_1_eq_mask mask_eq_exp_minus_1)
    ultimately show ?thesis
      using that assms(2) by (metis leD)
  qed
  have named: "split (get_file_name name i) = Some (decimal_str i)" for i
    using assms(1) by (simp add: splits_block_names_def get_file_name_def)
  show ?case
  proof (cases "split fname")
    case None
    then have "get_file_name name i \<noteq> fname" for i
      using named [of i] by auto
    then show ?thesis
      using Cons.IH [OF Cons.prems(1)] Cons.prems(2) None le [OF Cons.prems(1)] by auto
  next
    case (Some ds)
    then obtain i where i: "i < n" "fname = get_file_name name i"
      using Cons.prems(2) by auto
    define k1 where "k1 = (if k \<le> i then i + 1 else k)"
    have k1: "k \<le> k1" "k1 \<le> n" "i < k1"
      using Cons.prems(1) i(1) by (auto simp: k1_def)
    have small: "unat (of_nat i :: u64) = i" "unat (of_nat k :: u32) = k"
      using i(1) Cons.prems(1) assms(2) by (simp_all add: unat_of_nat)
    have cmp: "(ucast (of_nat k :: u32) :: u64) \<le> of_nat i \<longleftrightarrow> k \<le> i"
      using small i(1) Cons.prems(1) assms(2) by (simp add: word_le_nat_alt unsigned_ucast_eq take_bit_nat_eq_self)
    have up: "(ucast (of_nat i + 1 :: u64) :: u32) = of_nat (i + 1)"
      using i(1) assms(2) small(1) by (simp add: word_unat_eq_iff unsigned_ucast_eq unat_of_nat unat_word_ariths take_bit_nat_def)
    have "get_file_count split (of_nat k) (fname # fnames) = get_file_count split (of_nat k1) fnames"
      using i small cmp up assms(2) le [OF k1(2)] by (auto simp: named k1_def)
    moreover obtain m where "get_file_count split (of_nat k1) fnames = Inr (of_nat m)" "k1 \<le> m" "m \<le> n"
        "\<forall>i. get_file_name name i \<in> set fnames \<longrightarrow> i < m"
      using Cons.IH [OF k1(2)] Cons.prems(2) by auto
    moreover have "j = i" if "get_file_name name j = fname" for j
    proof -
      have "decimal_str j = decimal_str i"
        using that i(2) by (simp add: get_file_name_def)
      then show ?thesis
        by (metis decimal_digits)
    qed
    ultimately show ?thesis
      using k1 by (intro exI [of _ m]) (auto dest: sym)
  qed
qed auto

text \<open>The number of blocks is found from a directory with the files of all blocks, in any order and among other files.\<close>

lemma file_count_of_blocks:
  assumes "splits_block_names name split" "n < 2 ^ 32 - 1"
    and "\<forall>fname \<in> set fnames. split fname = None \<or> (\<exists>i < n. fname = get_file_name name i)"
    and "n \<noteq> 0 \<Longrightarrow> get_file_name name (n - 1) \<in> set fnames"
  shows "get_file_count split 0 fnames = Inr (of_nat n)"
proof -
  obtain m where "get_file_count split 0 fnames = Inr (of_nat m)" "m \<le> n" "\<forall>i. get_file_name name i \<in> set fnames \<longrightarrow> i < m"
    using file_count_step [OF assms(1,2) le0 assms(3)] by auto
  moreover from this assms(4) have "m = n"
    by (cases n) (auto simp: Suc_le_eq intro: antisym)
  ultimately show ?thesis
    by simp
qed

text \<open>The eleventh block is printed before the third: names are ordered as strings.\<close>

lemma names_not_in_order: "get_file_name name 10 < get_file_name name 2"
proof -
  have "decimal_str 10 = [49, 48]" "decimal_str 2 = [50]"
    by (simp_all add: decimal_str.simps)
  moreover have "xs @ ys < xs @ zs \<longleftrightarrow> ys < zs" for xs ys zs :: bytes
    by (induction xs) simp_all
  ultimately show ?thesis
    by (simp add: get_file_name_def bytes_of_def)
qed

section \<open>The printed blockchain\<close>

text \<open>After the elements of an array there is a comma or its end, not another value.\<close>

lemma element_tokens_apart:
  assumes "element_tokens vs @ TCloseArray # r = element_tokens us @ t # q" "us \<noteq> []" "t \<noteq> TComma"
  shows "t = TCloseArray \<and> vs = us"
  using assms(1,2)
proof (induction us arbitrary: vs)
  case (Cons u us)
  obtain v vs' where vs: "vs = v # vs'"
    using Cons.prems(1) json_tokens_hd [of u] by (cases vs) auto
  have "json_tokens v @ ((if vs' = [] then [] else TComma # element_tokens vs') @ TCloseArray # r)
      = json_tokens u @ ((if us = [] then [] else TComma # element_tokens us) @ t # q)"
    using Cons.prems(1) by (simp add: vs)
  from json_tokens_prefix [OF this] show ?case
    using Cons.IH [of vs'] assms(3) by (auto simp: vs split: if_splits)
qed simp

text \<open>A directory with the files of the first blocks, in any order and among files that are not blocks.\<close>

definition block_folder :: "bytes \<Rightarrow> (file_ref, 'p os_file) fmap \<Rightarrow> nat \<Rightarrow> (bytes \<times> 'p os_file) list \<Rightarrow> bool" where
  "block_folder name fs n dir \<longleftrightarrow> mset (filter (\<lambda>(p, f). ends_with p (bytes_of ''.block'')) dir) =
     mset (map (\<lambda>i. (get_file_name name i, the (fmlookup fs (BlockFile i)))) [0..<n])"

lemma find_blocks_filter:
  "\<forall>(p, f) \<in> set (filter (\<lambda>(p, f). ends_with p (bytes_of ''.block'')) dir). good_file GRADIDO_BLOCK_SIZE f \<Longrightarrow>
     find_blocks dir = Inr (filter (\<lambda>(p, f). ends_with p (bytes_of ''.block'')) dir)"
  by (induction dir rule: find_blocks.induct) (auto simp: good_file_def)

lemma used_records_block: "is_block r (contents f) qs \<Longrightarrow> \<exists>c. used_records f = map PAYLOAD qs @ [CHECKSUM c] \<and> CHECKSUM c \<in> set (contents f)"
  by (auto simp: is_block_def used_records_def takeWhile_append)

context record_printer
begin

lemma blocks_print:
  "\<forall>f \<in> set fs. list_all (raw_printable printable) (used_records f) \<Longrightarrow>
     prints_res (dump_blocks dump_payload fs) (concat (map (\<lambda>f. element_tokens (map (raw_json payload_json) (used_records f))) fs))"
proof (induction fs)
  case (Cons f fs)
  obtain t where "dump_list dump_payload True (used_records f) = Inr t"
      "prints t (element_tokens (map (raw_json payload_json) (used_records f)))"
    using list_prints [of "used_records f" True] Cons.prems by (auto simp: prints_res_def)
  then show ?case
    using Cons by (auto simp: prints_res_def intro: prints_append)
qed (simp add: prints_def)

lemma blocks_json_iff:
  assumes "\<forall>f \<in> set fs. list_all (raw_printable printable) (used_records f)" "\<forall>f \<in> set fs. used_records f \<noteq> []"
  obtains t where "dump_blocks dump_payload fs = Inr t"
    "parse_json ([91, 10] @ t @ [93, 10]) = (case fs of [] \<Rightarrow> Some (JArray [])
       | [f] \<Rightarrow> Some (JArray (map (raw_json payload_json) (used_records f))) | _ \<Rightarrow> None)"
proof -
  let ?el = "\<lambda>f. element_tokens (map (raw_json payload_json) (used_records f))"
  obtain t where t: "dump_blocks dump_payload fs = Inr t" "prints t (concat (map ?el fs))"
    using blocks_print [OF assms(1)] by (auto simp: prints_res_def)
  have scan: "scan_json ([91, 10] @ t @ [93, 10]) = Some (TOpenArray # concat (map ?el fs) @ [TCloseArray])"
    using t(2) [THEN printsD] by simp
  have "parse_json ([91, 10] @ t @ [93, 10]) = None" if fs: "fs = f # g # gs" for f g gs
  proof (rule ccontr)
    assume "parse_json ([91, 10] @ t @ [93, 10]) \<noteq> None"
    then obtain v where "json_tokens v = TOpenArray # concat (map ?el fs) @ [TCloseArray]"
      using scan by (auto simp: parse_json_iff)
    then obtain vs where vs: "element_tokens vs @ [TCloseArray] = ?el f @ ?el g @ concat (map ?el gs) @ [TCloseArray]"
      by (cases v) (auto simp: fs)
    obtain h ts where h: "?el g = h # ts" "h \<notin> {TClose, TCloseArray, TColon, TComma}"
      using assms(2) json_tokens_hd [of "hd (map (raw_json payload_json) (used_records g))"]
      by (cases "used_records g") (auto simp: fs)
    show False
      using element_tokens_apart [of vs "[]" "map (raw_json payload_json) (used_records f)" h "ts @ concat (map ?el gs) @ [TCloseArray]"]
        vs h assms(2) by (simp add: fs)
  qed
  then show thesis
    using scan by (intro that [OF t(1)]) (auto simp: parse_json_iff split: list.splits)
qed

text \<open>
  What is printed for the blocks of a directory, visited in any order: as many elements as there are used records, in an
  array that is JSON if there is one block at most.
\<close>

lemma dump_folder:
  assumes folder: "block_folder name fs n dir"
    and good: "\<And>i. i < n \<Longrightarrow> \<exists>f. fmlookup fs (BlockFile i) = Some f \<and> good_file GRADIDO_BLOCK_SIZE f
      \<and> used_records f \<noteq> [] \<and> list_all (raw_printable printable) (used_records f)"
  shows "bytes_of ''-c'' \<notin> set [prog, bf] \<Longrightarrow> \<exists>t. dump dump_payload [prog, bf] (\<lambda>_. Some dir) = Inr (0, t) \<and>
      parse_json t = (if n = 0 then Some (JArray []) else if n = 1 then
         Some (JArray (map (raw_json payload_json) (used_records (the (fmlookup fs (BlockFile 0)))))) else None)"
    and "dump dump_payload [prog, bf, bytes_of ''-c''] (\<lambda>_. Some dir) =
      Inr (0, decimal_str (\<Sum>i<n. length (used_records (the (fmlookup fs (BlockFile i))))) @ endl)"
proof -
  let ?block = "\<lambda>i. (get_file_name name i, the (fmlookup fs (BlockFile i)))"
  define found where "found = filter (\<lambda>(p, f). ends_with p (bytes_of ''.block'')) dir"
  have m: "mset found = mset (map ?block [0..<n])"
    using folder by (simp add: block_folder_def found_def)
  then have set_found: "set found = ?block ` {..<n}"
    by (metis atLeast_upt image_set mset_eq_setD)
  have sized: "\<forall>(p, f) \<in> set found. good_file GRADIDO_BLOCK_SIZE f"
    using good by (fastforce simp: set_found)
  then have finds: "find_blocks dir = Inr found"
    unfolding found_def by (rule find_blocks_filter)
  define blocks where "blocks = map snd (sort_key fst found)"
  have mb: "mset blocks = mset (map (snd \<circ> ?block) [0..<n])"
    using m by (simp add: blocks_def flip: map_map)
  have blocks_set: "set blocks = (\<lambda>i. the (fmlookup fs (BlockFile i))) ` {..<n}"
    using mset_eq_setD [OF mb] by (auto simp: lessThan_atLeast0)
  have blocks_length: "length blocks = n"
    using mset_eq_length [OF mb] by simp
  have ok: "\<forall>f \<in> set blocks. list_all (raw_printable printable) (used_records f)" "\<forall>f \<in> set blocks. used_records f \<noteq> []"
      "list_all can_read blocks"
    using good by (fastforce simp: blocks_set good_file_def list_all_iff)+
  have "sum_list (map (length \<circ> used_records) blocks) = sum_mset (image_mset (length \<circ> used_records) (mset blocks))"
    by (simp add: sum_mset_sum_list flip: mset_map)
  also have "\<dots> = (\<Sum>i<n. length (used_records (the (fmlookup fs (BlockFile i)))))"
    by (simp add: mb sum_mset_sum_list interv_sum_list_conv_sum_set_nat lessThan_atLeast0 comp_def flip: mset_map)
  finally show "dump dump_payload [prog, bf, bytes_of ''-c''] (\<lambda>_. Some dir) =
      Inr (0, decimal_str (\<Sum>i<n. length (used_records (the (fmlookup fs (BlockFile i))))) @ endl)"
    using ok(3) by (simp add: dump_def finds Let_def flip: blocks_def)
  assume "bytes_of ''-c'' \<notin> set [prog, bf]"
  moreover obtain t where "dump_blocks dump_payload blocks = Inr t"
    "parse_json ([91, 10] @ t @ [93, 10]) = (case blocks of [] \<Rightarrow> Some (JArray [])
       | [f] \<Rightarrow> Some (JArray (map (raw_json payload_json) (used_records f))) | _ \<Rightarrow> None)"
    using blocks_json_iff [OF ok(1,2)] .
  moreover have "f = the (fmlookup fs (BlockFile 0))" if "blocks = [f]" for f
    using blocks_set blocks_length that by auto
  ultimately show "\<exists>t. dump dump_payload [prog, bf] (\<lambda>_. Some dir) = Inr (0, t) \<and>
      parse_json t = (if n = 0 then Some (JArray []) else if n = 1 then
         Some (JArray (map (raw_json payload_json) (used_records (the (fmlookup fs (BlockFile 0)))))) else None)"
    using ok(3) blocks_length by (auto simp: dump_def finds Let_def simp flip: blocks_def split: list.splits)
qed

end

text \<open>The records of all blocks are the payloads and one checksum per block.\<close>

lemma payloads_total: "2 \<le> r \<Longrightarrow> (\<Sum>i<block_total r (length ps). length (block_payloads r i ps)) = length ps"
proof (cases "block_total r (length ps)")
  case (Suc n)
  assume r: "2 \<le> r"
  have "(\<Sum>i<Suc n. length (block_payloads r i ps)) = (\<Sum>i<n. r - 1) + length (block_payloads r n ps)"
    using block_payloads_full [OF r, of _ ps] Suc by (simp add: sum.lessThan_Suc)
  then show ?thesis
    using block_payloads_last [OF r, of n ps] Suc by simp
qed (use block_total_eq in \<open>auto split: if_splits\<close>)

lemma dumped_blocks:
  assumes disk: "disk_holds GRADIDO_BLOCK_SIZE fs ps" and ps: "list_all printable ps"
    and cs: "\<forall>i f c. fmlookup fs (BlockFile i) = Some f \<longrightarrow> CHECKSUM c \<in> set (contents f) \<longrightarrow> short c"
    and i: "i < block_total GRADIDO_BLOCK_SIZE (length ps)"
  obtains f c where "fmlookup fs (BlockFile i) = Some f" "good_file GRADIDO_BLOCK_SIZE f"
    "used_records f = map PAYLOAD (block_payloads GRADIDO_BLOCK_SIZE i ps) @ [CHECKSUM c]"
    "list_all (raw_printable printable) (used_records f)"
proof -
  obtain f where f: "fmlookup fs (BlockFile i) = Some f" "good_file GRADIDO_BLOCK_SIZE f"
      "is_block GRADIDO_BLOCK_SIZE (contents f) (block_payloads GRADIDO_BLOCK_SIZE i ps)"
    using disk i by (auto simp: disk_holds_def)
  obtain c where c: "used_records f = map PAYLOAD (block_payloads GRADIDO_BLOCK_SIZE i ps) @ [CHECKSUM c]" "CHECKSUM c \<in> set (contents f)"
    using used_records_block [OF f(3)] by auto
  have "set (block_payloads GRADIDO_BLOCK_SIZE i ps) \<subseteq> set ps"
    by (auto simp: block_payloads_def dest: in_set_takeD in_set_dropD)
  then have "list_all (raw_printable printable) (used_records f)"
    using c cs f(1) ps by (auto simp: list_all_iff)
  then show thesis
    using that f c by blast
qed

text \<open>
  C24. Printing a group blockchain on disk whose records are all printable (fields of their lengths, known enumeration
  values, plain texts, one shown signature in each record of further signatures) and whose checksums are of a length
  that can be printed. It is printed without an error, whatever the order in which its folder is visited: the
  option \<open>-c\<close> gives the number of its records, one checksum per block included. The whole listing is JSON exactly if
  there is one block at most; it is then the array of the records and the checksum, in order. (The program begins each block
  as if it were the first, without the comma.)
\<close>

theorem printed_blockchain_json_iff:
  assumes "disk_holds GRADIDO_BLOCK_SIZE fs ps" "block_folder name fs (block_total GRADIDO_BLOCK_SIZE (length ps)) dir"
    and "list_all record_printable ps"
    and "\<forall>i f c. fmlookup fs (BlockFile i) = Some f \<longrightarrow> CHECKSUM c \<in> set (contents f) \<longrightarrow> short c"
    and "bytes_of ''-c'' \<notin> set [prog, bf]"
  shows "dump dump_gradido_record [prog, bf, bytes_of ''-c''] (\<lambda>_. Some dir) =
      Inr (0, decimal_str (length ps + block_total GRADIDO_BLOCK_SIZE (length ps)) @ endl) \<and>
    (\<exists>t. dump dump_gradido_record [prog, bf] (\<lambda>_. Some dir) = Inr (0, t) \<and>
      (parse_json t \<noteq> None \<longleftrightarrow> length ps < GRADIDO_BLOCK_SIZE) \<and>
      (parse_json t \<noteq> None \<and> ps \<noteq> [] \<longrightarrow> (\<exists>c. parse_json t = Some (JArray (map record_json ps @ [hex c])))))"
proof -
  let ?n = "block_total GRADIDO_BLOCK_SIZE (length ps)"
  let ?f = "\<lambda>i. the (fmlookup fs (BlockFile i))"
  note blocks = dumped_blocks [OF assms(1,3,4)]
  have good: "\<exists>f. fmlookup fs (BlockFile i) = Some f \<and> good_file GRADIDO_BLOCK_SIZE f \<and> used_records f \<noteq> []
      \<and> list_all (raw_printable record_printable) (used_records f)" if "i < ?n" for i
    using blocks [OF that] by (metis append_is_Nil_conv not_Cons_self)
  have "length (used_records (?f i)) = length (block_payloads GRADIDO_BLOCK_SIZE i ps) + 1" if "i < ?n" for i
    by (rule blocks [OF that]) simp
  then have "(\<Sum>i<?n. length (used_records (?f i))) = length ps + ?n"
    using payloads_total [of GRADIDO_BLOCK_SIZE ps] by (simp add: sum.distrib [of _ "\<lambda>_. 1 :: nat", simplified] GRADIDO_BLOCK_SIZE_def)
  moreover have n: "?n \<le> 1 \<longleftrightarrow> length ps < GRADIDO_BLOCK_SIZE" "?n = 0 \<longleftrightarrow> ps = []"
    using div_le_mono [of 1998 "length ps + 998" 999] div_less_iff_less_mult [of 999 "length ps + 998" 2] div_eq_0_iff [of "length ps + 998" 999]
    by (auto simp: block_total_def GRADIDO_BLOCK_SIZE_def)
  moreover have "\<exists>c. used_records (?f 0) = map PAYLOAD ps @ [CHECKSUM c]" if "?n = 1"
    by (rule blocks [of 0]) (use that n in \<open>auto simp: block_payloads_def GRADIDO_BLOCK_SIZE_def\<close>)
  moreover obtain t where t: "dump dump_gradido_record [prog, bf] (\<lambda>_. Some dir) = Inr (0, t)"
      "parse_json t = (if ?n = 0 then Some (JArray []) else if ?n = 1 then Some (JArray (map (raw_json record_json) (used_records (?f 0)))) else None)"
    using group_printer.dump_folder(1) [OF assms(2) good assms(5)] by blast
  moreover have "dump dump_gradido_record [prog, bf, bytes_of ''-c''] (\<lambda>_. Some dir) =
      Inr (0, decimal_str (\<Sum>i<?n. length (used_records (?f i))) @ endl)"
    by (rule group_printer.dump_folder(2) [OF assms(2) good])
  ultimately show ?thesis
    by (auto simp: comp_def) (rule exI, rule refl)
qed

definition sample_block :: "GradidoRecord os_file" where
  "sample_block = new_file\<lparr>contents := PAYLOAD (GRADIDO_TRANSACTION sample_transfer) # CHECKSUM [1, 2] # replicate 998 EMPTY\<rparr>"

theorem printed_blockchain_json_iff_witness:
  "\<exists>t c. dump dump_gradido_record [bytes_of ''dump'', bytes_of ''blocks''] (\<lambda>_. Some [([46], new_file), (get_file_name [65] 0, sample_block)])
     = Inr (0, t) \<and> parse_json t = Some (JArray [record_json (GRADIDO_TRANSACTION sample_transfer), hex c])"
proof -
  let ?fs = "fmupd (BlockFile 0) sample_block fmempty" and ?ps = "[GRADIDO_TRANSACTION sample_transfer]"
  have "disk_holds GRADIDO_BLOCK_SIZE ?fs ?ps"
    by (auto simp: disk_holds_def block_total_def block_payloads_def is_block_def good_file_def sample_block_def new_file_def
        GRADIDO_BLOCK_SIZE_def)
  moreover have "block_folder [65] ?fs (block_total GRADIDO_BLOCK_SIZE (length ?ps)) [([46], new_file), (get_file_name [65] 0, sample_block)]"
    by (simp add: block_folder_def block_total_def GRADIDO_BLOCK_SIZE_def ends_with_def get_file_name_def bytes_of_def)
  moreover have "\<forall>i f c. fmlookup ?fs (BlockFile i) = Some f \<longrightarrow> CHECKSUM c \<in> set (contents f) \<longrightarrow> short c"
    by (auto simp: sample_block_def new_file_def short_def split: if_splits)
  moreover have "bytes_of ''-c'' \<notin> set [bytes_of ''dump'', bytes_of ''blocks'']"
    by (simp add: bytes_of_def)
  ultimately show ?thesis
    using printed_blockchain_json_iff [of ?fs ?ps "[65]" _ "bytes_of ''dump''" "bytes_of ''blocks''"] sample_printable
    by (fastforce simp: GRADIDO_BLOCK_SIZE_def)
qed

end
