(* ===== verification/Programs.thy ===== *)
theory Programs
  imports Handshake Dumper
begin

text \<open>
  The command line programs that create an identity and a subcluster: \<open>create_kp_identity\<close>, \<open>create_sb\<close>,
  \<open>create_admin_enquiry\<close> and \<open>add_admin_to_sb\<close> of \<open>src/bins/\<close>, with \<open>AdminEnquiry\<close> of \<open>src/config.cpp\<close>,
  \<open>sign\<close> of \<open>src/utils.cpp\<close> and \<open>ensure_blockchain_folder\<close> of \<open>src/blockchain_base.cpp\<close>. A program takes its
  parameters and the working directory to an exit code and the working directory; an exception that no handler
  catches is the fault \<open>Throw\<close>.
\<close>

section \<open>The environment\<close>

text \<open>
  The signature function of the library, the bytes of a record in memory, the functions of the store, the regular
  expression for the block files of a name, and the reader of property files.
\<close>

record prog_env =
  ed25519_sign :: "bytes \<Rightarrow> bytes \<Rightarrow> bytes \<Rightarrow> bytes"
  sb_image :: "SbRecord \<Rightarrow> bytes"
  sb_sha :: "bytes \<Rightarrow> bytes"
  sb_img :: "SbRecord Record \<Rightarrow> bytes"
  split_file_name :: "bytes \<Rightarrow> bytes \<Rightarrow> bytes option"
  parse_properties :: "bytes \<Rightarrow> properties option"
  prog_now :: nat

text \<open>
  The working directory: its files, and its folders with their block files. A folder entry without block files
  (\<open>None\<close>) is a file of that name. Folders can be created.
\<close>

type_synonym block_files = "(file_ref, SbRecord os_file) fmap"

record workdir =
  wd_files :: file_table
  folders :: "(bytes, block_files option) fmap"

definition enquiry_name :: string where "enquiry_name = ''admin-enquiry.conf''"

definition SB_SUBCLUSTER_NAME_LENGTH :: nat where "SB_SUBCLUSTER_NAME_LENGTH = 64"
definition SB_ADMIN_NAME_LENGTH :: nat where "SB_ADMIN_NAME_LENGTH = 64"
definition SB_EMAIL_LENGTH :: nat where "SB_EMAIL_LENGTH = 64"
definition SB_MEMO_LENGTH :: nat where "SB_MEMO_LENGTH = 256"
definition SB_SIGNATURES_PER_RECORD :: nat where "SB_SIGNATURES_PER_RECORD = 10"

definition show_version :: "bytes list \<Rightarrow> bool" where
  "show_version params \<longleftrightarrow> bytes_of ''--v'' \<in> set params \<or> bytes_of ''-version'' \<in> set params"

text \<open>
  The handler for a \<open>std::runtime_error\<close> thrown in a block of code, with the exit code it returns. The exceptions of
  Poco for missing properties are of another type: those calls stand outside.
\<close>

definition catching :: "int \<Rightarrow> workdir \<Rightarrow> (int \<times> workdir) res \<Rightarrow> (int \<times> workdir) res" where
  "catching code wd m = (case m of Inl (Throw _) \<Rightarrow> Inr (code, wd) | _ \<Rightarrow> m)"


section \<open>Keys and signatures\<close>

text \<open>A key is copied byte by byte into a buffer of the size of a key.\<close>

definition key_bytes :: "bytes \<Rightarrow> bytes res" where
  "key_bytes k =
     (if PUB_KEY_LENGTH < length (hex_to_bytes k) then Inl (Undefined ''buffer overrun'')
      else if length (hex_to_bytes k) < PUB_KEY_LENGTH then Inl (Undefined ''uninitialised bytes'')
      else Inr (hex_to_bytes k))"

definition sign_material :: "prog_env \<Rightarrow> bytes \<Rightarrow> bytes \<Rightarrow> bytes \<Rightarrow> bytes res" where
  "sign_material e mat pub priv =
     bind_res (key_bytes pub) (\<lambda>pk.
     bind_res (key_bytes priv) (\<lambda>sk.
       dump_in_hex (ed25519_sign e mat pk sk)))"

text \<open>The two keys are saved one after the other.\<close>

definition create_kp_identity_main :: "handshake_env \<Rightarrow> bytes list \<Rightarrow> file_table \<Rightarrow> (int \<times> file_table) res" where
  "create_kp_identity_main e params fs =
     (if show_version params then Inr (0, fs)
      else bind_res (create_kp_identity e) (\<lambda>ks.
        case ks of
          None \<Rightarrow> Inr (2, fs)
        | Some (priv, pub) \<Rightarrow>
            (case save_key_to_file priv identity_priv_name fs of
               Inl (Throw _) \<Rightarrow> Inr (1, fs)
             | Inl f \<Rightarrow> Inl f
             | Inr fs1 \<Rightarrow>
                 (case save_key_to_file pub identity_pub_name fs1 of
                    Inl (Throw _) \<Rightarrow> Inr (1, fs1)
                  | Inl f \<Rightarrow> Inl f
                  | Inr fs2 \<Rightarrow> Inr (0, fs2)))))"


section \<open>The enquiry of an administrator\<close>

definition property_line :: "string \<Rightarrow> bytes \<Rightarrow> bytes" where
  "property_line k v = bytes_of k @ bytes_of '' = '' @ v @ [10]"

definition create_admin_enquiry :: "prog_env \<Rightarrow> bytes list \<Rightarrow> file_table \<Rightarrow> (int \<times> file_table) res" where
  "create_admin_enquiry e params fs =
     (if show_version params then Inr (0, fs)
      else if length params \<noteq> 3 then Inr (1, fs)
      else case KpIdentity_init fs KpIdentity_new of
             Inl (Throw _) \<Rightarrow> Inr (2, fs)
           | Inl f \<Rightarrow> Inl f
           | Inr kpi \<Rightarrow>
               if \<not> kp_present kpi then Inr (3, fs)
               else let name = params ! 1; email = params ! 2
                    in bind_res (sign_material e (name @ email @ pub_key kpi) (pub_key kpi) (priv_key kpi)) (\<lambda>sig.
                         Inr (0, fmupd enquiry_name
                           (property_line ''name'' name @ property_line ''email'' email @
                            property_line ''pub_key'' (pub_key kpi) @ property_line ''signature'' sig) fs)))"

text \<open>Reading the enquiry removes its file.\<close>

definition AdminEnquiry_new :: "(bytes \<Rightarrow> properties option) \<Rightarrow> file_table \<Rightarrow> (properties option \<times> file_table) res" where
  "AdminEnquiry_new parse_file fs =
     (case fmlookup fs enquiry_name of
        None \<Rightarrow> Inr (None, fs)
      | Some t \<Rightarrow>
          (case parse_file t of
             None \<Rightarrow> Inl (Throw ''Couldn't open admin-enquiry.conf file: '')
           | Some pfc \<Rightarrow> Inr (Some pfc, fmdrop enquiry_name fs)))"


section \<open>The store of the subcluster\<close>

definition ensure_blockchain_folder :: "bytes \<Rightarrow> workdir \<Rightarrow> workdir res" where
  "ensure_blockchain_folder name wd =
     (let blockchain_folder = name @ bytes_of ''.bc''
      in case fmlookup (folders wd) blockchain_folder of
           None \<Rightarrow> Inr (wd\<lparr>folders := fmupd blockchain_folder (Some fmempty) (folders wd)\<rparr>)
         | Some None \<Rightarrow> Inl (Throw ''cannot create folder'')
         | Some (Some _) \<Rightarrow> Inr wd)"

definition folder_files :: "bytes \<Rightarrow> workdir \<Rightarrow> block_files" where
  "folder_files name wd = (case fmlookup (folders wd) (name @ bytes_of ''.bc'') of Some (Some fs) \<Rightarrow> fs | _ \<Rightarrow> fmempty)"

definition save_files :: "bytes \<Rightarrow> SbRecord Blockchain \<Rightarrow> workdir \<Rightarrow> workdir" where
  "save_files name s wd = wd\<lparr>folders := fmupd (name @ bytes_of ''.bc'') (Some (files (ft s))) (folders wd)\<rparr>"

text \<open>The names of the block files of a folder; other names do not match the pattern.\<close>

definition block_names :: "bytes \<Rightarrow> block_files \<Rightarrow> bytes list" where
  "block_names name fs =
     map (get_file_name name)
       (sorted_list_of_set ((\<lambda>r. case r of BlockFile i \<Rightarrow> i | _ \<Rightarrow> 0) `
          Set.filter (\<lambda>r. case r of BlockFile i \<Rightarrow> True | _ \<Rightarrow> False) (fmdom' fs)))"

definition open_sb :: "prog_env \<Rightarrow> bytes \<Rightarrow> workdir \<Rightarrow> SbRecord Blockchain res" where
  "open_sb e name wd =
     bind_res (get_file_count (split_file_name e name) 0 (block_names name (folder_files name wd))) (\<lambda>n.
       Blockchain_new GRADIDO_BLOCK_SIZE (unat n) (folder_files name wd) [] 100 100)"

text \<open>
  A record and then the record with its signatures, which is made once the first one is appended. An exception
  leaves the store as the last finished call left it.
\<close>

definition add_signed :: "prog_env \<Rightarrow> SbRecord \<Rightarrow> SbRecord res \<Rightarrow> SbRecord Blockchain \<Rightarrow> ExitCode res \<times> SbRecord Blockchain" where
  "add_signed e r make_signatures s =
     (case bc_append (sb_sha e) (sb_img e) GRADIDO_BLOCK_SIZE (prog_now e) r s of
        Inl f \<Rightarrow> (Inl f, s)
      | Inr ((_, ec), s1) \<Rightarrow>
          if ec \<noteq> OK then (Inr ec, s1)
          else case make_signatures of
                 Inl f \<Rightarrow> (Inl f, s1)
               | Inr r2 \<Rightarrow>
                   (case bc_append (sb_sha e) (sb_img e) GRADIDO_BLOCK_SIZE (prog_now e) r2 s1 of
                      Inl f \<Rightarrow> (Inl f, s1)
                    | Inr ((_, ec2), s2) \<Rightarrow> (Inr ec2, s2)))"

definition exit_code :: "int \<Rightarrow> int \<Rightarrow> bytes \<Rightarrow> workdir \<Rightarrow> ExitCode res \<times> SbRecord Blockchain \<Rightarrow> (int \<times> workdir) res" where
  "exit_code on_error on_throw name wd x =
     (case x of
        (Inr ec, s) \<Rightarrow> Inr (if ec = OK then 0 else on_error, save_files name s wd)
      | (Inl (Throw _), s) \<Rightarrow> Inr (on_throw, save_files name s wd)
      | (Inl f, s) \<Rightarrow> Inl f)"


section \<open>Records\<close>

definition SbRecord_zero :: "SbBody \<Rightarrow> SbRecord" where
  "SbRecord_zero b =
     \<lparr>sb_version_number = 0, sb_hedera_transaction = HederaTransaction_zero, sb_memo = replicate SB_MEMO_LENGTH 0,
      sb_signature_count = 0, sb_result = 0, sb_body = b\<rparr>"

text \<open>The key type 1 is \<open>SELF_SIGNED\<close>.\<close>

definition header_record :: "bytes \<Rightarrow> bytes \<Rightarrow> SbRecord res" where
  "header_record name k =
     bind_res (copy_field SB_SUBCLUSTER_NAME_LENGTH name) (\<lambda>n.
     bind_res (key_bytes k) (\<lambda>pk.
       Inr ((SbRecord_zero (SB_HEADER \<lparr>subcluster_name = n, initial_key_type = 1, header_pub_key = pk,
                                       ca_pub_key_chain_length = 1\<rparr>))
              \<lparr>sb_version_number := 1, sb_signature_count := 1\<rparr>)))"

definition admin_record :: "bytes \<Rightarrow> bytes \<Rightarrow> bytes \<Rightarrow> SbRecord res" where
  "admin_record k name email =
     bind_res (key_bytes k) (\<lambda>pk.
     bind_res (copy_field SB_ADMIN_NAME_LENGTH name) (\<lambda>n.
     bind_res (copy_field SB_EMAIL_LENGTH email) (\<lambda>m.
       Inr ((SbRecord_zero (SB_ADD_ADMIN \<lparr>admin_pub_key = pk, admin_name = n, admin_email = m\<rparr>))
              \<lparr>sb_version_number := 1, sb_signature_count := 2\<rparr>))))"

text \<open>The bytes of a key and a signature are read up to the sizes of the fields.\<close>

definition signature_entry :: "bytes \<Rightarrow> bytes \<Rightarrow> Signature res" where
  "signature_entry k sig =
     (let cp = hex_to_bytes k; cs = hex_to_bytes sig
      in if length cp < PUB_KEY_LENGTH \<or> length cs < SIGNATURE_LENGTH then Inl (Undefined ''vector index out of range'')
         else Inr \<lparr>sig_pubkey = take PUB_KEY_LENGTH cp, sig_signature = take SIGNATURE_LENGTH cs\<rparr>)"

definition signatures_record :: "Signature list \<Rightarrow> SbRecord" where
  "signatures_record ss = SbRecord_zero (SB_SIGNATURES (ss @ replicate (SB_SIGNATURES_PER_RECORD - length ss) Signature_zero))"


section \<open>The programs\<close>

definition create_sb :: "prog_env \<Rightarrow> bytes list \<Rightarrow> workdir \<Rightarrow> (int \<times> workdir) res" where
  "create_sb e params wd =
     (if show_version params then Inr (0, wd)
      else if length params \<noteq> 2 then Inr (1, wd)
      else case KpIdentity_init (wd_files wd) KpIdentity_new of
             Inl (Throw _) \<Rightarrow> Inr (2, wd)
           | Inl f \<Rightarrow> Inl f
           | Inr kpi \<Rightarrow>
               if \<not> kp_present kpi then Inr (3, wd)
               else let name = pub_key kpi
                    in catching 5 wd (bind_res (ensure_blockchain_folder name wd) (\<lambda>wd1.
                         catching 5 wd1 (
                           bind_res (open_sb e name wd1) (\<lambda>s.
                           bind_res (header_record (params ! 1) name) (\<lambda>r.
                           bind_res (sign_material e (sb_image e r) name (priv_key kpi)) (\<lambda>sig.
                             exit_code 4 5 name wd1 (add_signed e r
                               (bind_res (signature_entry name sig) (\<lambda>x. Inr (signatures_record [x]))) s))))))))"

definition add_admin_to_sb :: "prog_env \<Rightarrow> bytes list \<Rightarrow> workdir \<Rightarrow> (int \<times> workdir) res" where
  "add_admin_to_sb e params wd =
     (if show_version params then Inr (0, wd)
      else case KpIdentity_init (wd_files wd) KpIdentity_new of
             Inl (Throw _) \<Rightarrow> Inr (2, wd)
           | Inl f \<Rightarrow> Inl f
           | Inr kpi \<Rightarrow>
               if \<not> kp_present kpi then Inr (3, wd)
               else bind_res (AdminEnquiry_new (parse_properties e) (wd_files wd)) (\<lambda>(ae, fs).
                 let wd0 = wd\<lparr>wd_files := fs\<rparr>; own = pub_key kpi
                 in case ae of
                      None \<Rightarrow> Inr (4, wd0)
                    | Some pfc \<Rightarrow>
                        bind_res (get_string pfc ''pub_key'') (\<lambda>k.
                        bind_res (get_string pfc ''name'') (\<lambda>name.
                        bind_res (get_string pfc ''email'') (\<lambda>email.
                        bind_res (get_string pfc ''signature'') (\<lambda>admin_signature.
                          catching 6 wd0 (bind_res (ensure_blockchain_folder own wd0) (\<lambda>wd1.
                            catching 6 wd1 (
                              bind_res (open_sb e own wd1) (\<lambda>s.
                              bind_res (validate_next_checksum GRADIDO_BLOCK_SIZE (prog_now e) s) (\<lambda>((_, ec), s1).
                                if ec \<noteq> OK then Inr (1, save_files own s1 wd1)
                                else
                                  bind_res (admin_record k name email) (\<lambda>r.
                                  bind_res (sign_material e (sb_image e r) own (priv_key kpi)) (\<lambda>sig.
                                    exit_code 5 6 own wd1 (add_signed e r
                                      (bind_res (signature_entry own sig) (\<lambda>x.
                                       bind_res (signature_entry k admin_signature) (\<lambda>y.
                                         Inr (signatures_record [x, y])))) s1))))))))))))))"

section \<open>Keys\<close>

definition has_key_pair :: "file_table \<Rightarrow> bytes \<Rightarrow> bytes \<Rightarrow> bool" where
  "has_key_pair fs pr pu \<longleftrightarrow> fmlookup fs identity_priv_name = Some pr \<and> fmlookup fs identity_pub_name = Some pu \<and> is_key pr \<and> is_key pu"

lemma key_pair_init [simp]:
  "has_key_pair fs pr pu \<Longrightarrow> KpIdentity_init fs k = Inr \<lparr>kp_present = True, priv_key = pr, pub_key = pu\<rparr>"
  by (simp add: has_key_pair_def KpIdentity_init_def rethrow_def)

lemma length_hex_to_bytes: "length (hex_to_bytes k) = (length k + 1) div 2"
  by (induction k rule: hex_to_bytes.induct) simp_all

lemma key_bytes_key [simp]: "is_key k \<Longrightarrow> key_bytes k = Inr (hex_to_bytes k)"
  by (simp add: key_bytes_def is_key_def length_hex_to_bytes KEY_LENGTH_HEX_def)

text \<open>What is relied on of the library: a signature has its length.\<close>

definition signs :: "prog_env \<Rightarrow> bool" where
  "signs e \<longleftrightarrow> (\<forall>m pk sk. length (ed25519_sign e m pk sk) = SIGNATURE_LENGTH)"

lemma sign_ok:
  assumes "signs e" "is_key pu" "is_key pr"
  obtains sig where "sign_material e m pu pr = Inr sig" "hex_to_bytes sig = ed25519_sign e m (hex_to_bytes pu) (hex_to_bytes pr)"
    "is_hex sig" "length sig = 2 * SIGNATURE_LENGTH"
proof
  let ?x = "ed25519_sign e m (hex_to_bytes pu) (hex_to_bytes pr)"
  have l: "length ?x = SIGNATURE_LENGTH"
    using assms(1) by (simp add: signs_def)
  then show "sign_material e m pu pr = Inr (concat (map bin2hex_byte ?x))"
    using assms(2,3) by (simp add: sign_material_def dump_in_hex_eq SIGNATURE_LENGTH_def)
  show "hex_to_bytes (concat (map bin2hex_byte ?x)) = ?x" "is_hex (concat (map bin2hex_byte ?x))"
      "length (concat (map bin2hex_byte ?x)) = 2 * SIGNATURE_LENGTH"
    using hex_of_bytes [of ?x] l by simp_all
qed

lemma signature_entry_ok:
  assumes "is_key pu" "length (hex_to_bytes sig) = SIGNATURE_LENGTH"
  shows "signature_entry pu sig = Inr \<lparr>sig_pubkey = hex_to_bytes pu, sig_signature = hex_to_bytes sig\<rparr>"
  using assms by (simp add: signature_entry_def is_key_def length_hex_to_bytes KEY_LENGTH_HEX_def)

text \<open>
  With a public key file already there, \<open>create_kp_identity\<close> fails, but the private key has been saved: the
  programs take the two files for a key pair from then on, whatever keys they hold.
\<close>

lemma keys_of_two_pairs:
  assumes "keypair e = Some (sk, pk)" "length sk = PUB_KEY_LENGTH" "length pk = PUB_KEY_LENGTH" "\<not> show_version params"
    and "fmlookup fs identity_priv_name = None" "fmlookup fs identity_pub_name = Some pu" "is_key pu"
  shows "\<exists>fs1. create_kp_identity_main e params fs = Inr (1, fs1) \<and> has_key_pair fs1 (concat (map bin2hex_byte sk)) pu"
proof -
  let ?pr = "concat (map bin2hex_byte sk)" and ?pu = "concat (map bin2hex_byte pk)"
  have keys: "is_key ?pr" "is_key ?pu"
    using hex_of_bytes [of sk] hex_of_bytes [of pk] assms(2,3) by (simp_all add: is_key_def KEY_LENGTH_HEX_def)
  have "create_kp_identity e = Inr (Some (?pr, ?pu))"
    using assms(1-3) by (simp add: create_kp_identity_def dump_in_hex_eq PUB_KEY_LENGTH_def)
  moreover have "save_key_to_file ?pr identity_priv_name fs = Inr (fmupd identity_priv_name ?pr fs)"
    using assms(5) keys(1) by (simp add: save_key_to_file_def is_key_def)
  moreover have "\<exists>msg. save_key_to_file ?pu identity_pub_name (fmupd identity_priv_name ?pr fs) = Inl (Throw msg)"
    using assms(6) keys(2) by (simp add: save_key_to_file_def is_key_def)
  ultimately have "create_kp_identity_main e params fs = Inr (1, fmupd identity_priv_name ?pr fs)"
    using assms(4) by (auto simp: create_kp_identity_main_def)
  then show ?thesis
    using keys assms(6,7) by (simp add: has_key_pair_def)
qed

section \<open>The store\<close>

lemma set_block_names: "set (block_names name fs) = get_file_name name ` {i. fmlookup fs (BlockFile i) \<noteq> None}"
proof -
  let ?num = "\<lambda>r. case r of BlockFile i \<Rightarrow> i | _ \<Rightarrow> 0" and ?is = "\<lambda>r. case r of BlockFile i \<Rightarrow> True | _ \<Rightarrow> False"
  have "finite (?num ` Set.filter ?is (fmdom' fs))"
    by (intro finite_imageI finite_subset [OF _ finite_fmdom']) auto
  moreover have "i \<in> ?num ` Set.filter ?is (fmdom' fs) \<longleftrightarrow> BlockFile i \<in> fmdom' fs" for i
    by (rule iffI, erule imageE, split file_ref.splits, auto) (rule image_eqI [of _ _ "BlockFile i"], auto)
  ultimately show ?thesis
    unfolding block_names_def set_map by (intro arg_cong [of _ _ "image _"] set_eqI) (simp add: fmlookup_dom'_iff)
qed

lemma open_sb_ok:
  assumes "splits_block_names name (split_file_name e name)" "disk_holds GRADIDO_BLOCK_SIZE (folder_files name wd) ps"
    and "block_total GRADIDO_BLOCK_SIZE (length ps) < 2 ^ 32 - 1"
  obtains s where "open_sb e name wd = Inr s" "validating GRADIDO_BLOCK_SIZE s ps 0"
proof -
  let ?n = "block_total GRADIDO_BLOCK_SIZE (length ps)"
  have "{i. fmlookup (folder_files name wd) (BlockFile i) \<noteq> None} = {..<?n}"
    using assms(2) by (auto simp: disk_holds_def not_less [symmetric])
  then have names: "set (block_names name (folder_files name wd)) = get_file_name name ` {..<?n}"
    by (simp only: set_block_names)
  have "get_file_count (split_file_name e name) 0 (block_names name (folder_files name wd)) = Inr (of_nat ?n)"
    by (rule file_count_of_blocks [OF assms(1,3)]) (auto simp: names)
  moreover have "unat (of_nat ?n :: u32) = ?n"
    using assms(3) by (simp add: unat_of_nat)
  moreover obtain s where "Blockchain_new GRADIDO_BLOCK_SIZE ?n (folder_files name wd) [] 100 100 = Inr s"
      "validating GRADIDO_BLOCK_SIZE s ps 0"
    by (rule start_validating [OF _ assms(2), of 100 100]) (simp_all add: GRADIDO_BLOCK_SIZE_def)
  ultimately show thesis
    by (intro that [of s]) (simp_all add: open_sb_def)
qed

lemma add_signed_ok:
  assumes "stores GRADIDO_BLOCK_SIZE s ps"
    and "\<And>i. block_total GRADIDO_BLOCK_SIZE (length ps) \<le> i \<Longrightarrow> fmlookup (files (ft s)) (BlockFile i) = None"
  obtains s2 where "add_signed e r (Inr r2) s = (Inr OK, s2)" "disk_holds GRADIDO_BLOCK_SIZE (files (ft s2)) (ps @ [r, r2])"
proof -
  obtain s1 where s1: "bc_append (sb_sha e) (sb_img e) GRADIDO_BLOCK_SIZE (prog_now e) r s = Inr ((True, OK), s1)"
      "stores GRADIDO_BLOCK_SIZE s1 (ps @ [r])"
      "\<And>i. block_total GRADIDO_BLOCK_SIZE (length (ps @ [r])) \<le> i \<Longrightarrow> fmlookup (files (ft s1)) (BlockFile i) = None"
    using bc_append_on_disk [OF assms, where p = r] by blast
  obtain s2 where s2: "bc_append (sb_sha e) (sb_img e) GRADIDO_BLOCK_SIZE (prog_now e) r2 s1 = Inr ((True, OK), s2)"
      "stores GRADIDO_BLOCK_SIZE s2 ((ps @ [r]) @ [r2])"
      "\<And>i. block_total GRADIDO_BLOCK_SIZE (length ((ps @ [r]) @ [r2])) \<le> i \<Longrightarrow> fmlookup (files (ft s2)) (BlockFile i) = None"
    using bc_append_on_disk [OF s1(2,3), where p = r2] by blast
  show thesis
    using stores_disk_holds [OF s2(2,3)] s1(1) s2(1) by (intro that [of s2]) (simp_all add: add_signed_def)
qed

section \<open>Creating a subcluster\<close>

lemma copy_field_short: "length s \<le> n \<Longrightarrow> copy_field n s = Inr (s @ replicate (n - length s) 0)"
  by (simp add: copy_field_def)

lemma folder_files_saved [simp]: "folder_files name (save_files name s wd) = files (ft s)"
  by (simp add: folder_files_def save_files_def)

text \<open>The records the programs write.\<close>

definition key_signature :: "prog_env \<Rightarrow> bytes \<Rightarrow> bytes \<Rightarrow> bytes \<Rightarrow> Signature" where
  "key_signature e m pu pr =
     \<lparr>sig_pubkey = hex_to_bytes pu, sig_signature = ed25519_sign e m (hex_to_bytes pu) (hex_to_bytes pr)\<rparr>"

definition header_of :: "bytes \<Rightarrow> bytes \<Rightarrow> SbRecord" where
  "header_of name pu = (SbRecord_zero (SB_HEADER \<lparr>subcluster_name = name @ replicate (SB_SUBCLUSTER_NAME_LENGTH - length name) 0,
     initial_key_type = 1, header_pub_key = hex_to_bytes pu, ca_pub_key_chain_length = 1\<rparr>))
     \<lparr>sb_version_number := 1, sb_signature_count := 1\<rparr>"

definition admin_of :: "bytes \<Rightarrow> bytes \<Rightarrow> bytes \<Rightarrow> SbAdmin" where
  "admin_of apu name email = \<lparr>admin_pub_key = hex_to_bytes apu, admin_name = name @ replicate (SB_ADMIN_NAME_LENGTH - length name) 0,
     admin_email = email @ replicate (SB_EMAIL_LENGTH - length email) 0\<rparr>"

definition admin_record_of :: "bytes \<Rightarrow> bytes \<Rightarrow> bytes \<Rightarrow> SbRecord" where
  "admin_record_of apu name email =
     (SbRecord_zero (SB_ADD_ADMIN (admin_of apu name email)))\<lparr>sb_version_number := 1, sb_signature_count := 2\<rparr>"

definition created_records :: "prog_env \<Rightarrow> bytes \<Rightarrow> bytes \<Rightarrow> bytes \<Rightarrow> SbRecord list" where
  "created_records e name pr pu =
     [header_of name pu, signatures_record [key_signature e (sb_image e (header_of name pu)) pu pr]]"

lemma signed_ok:
  assumes "signs e" "is_key pu" "is_key pr"
  obtains sig where "sign_material e m pu pr = Inr sig" "signature_entry pu sig = Inr (key_signature e m pu pr)"
    "is_hex sig" "length sig = 2 * SIGNATURE_LENGTH"
proof -
  obtain sig where sig: "sign_material e m pu pr = Inr sig" "hex_to_bytes sig = ed25519_sign e m (hex_to_bytes pu) (hex_to_bytes pr)"
      "is_hex sig" "length sig = 2 * SIGNATURE_LENGTH"
    by (rule sign_ok [OF assms])
  moreover from this have "signature_entry pu sig = Inr (key_signature e m pu pr)"
    using signature_entry_ok [OF assms(2), of sig] assms(1) by (simp add: key_signature_def signs_def)
  ultimately show thesis
    by (intro that)
qed

lemma create_sb_ok:
  assumes e: "signs e" "splits_block_names pu (split_file_name e pu)"
    and keys: "has_key_pair (wd_files wd) pr pu" and new: "fmlookup (folders wd) (pu @ bytes_of ''.bc'') = None"
    and name: "length name \<le> SB_SUBCLUSTER_NAME_LENGTH" and plain: "\<not> show_version [prog, name]"
  obtains s where "create_sb e [prog, name] wd = Inr (0, save_files pu s wd)"
    "disk_holds GRADIDO_BLOCK_SIZE (files (ft s)) (created_records e name pr pu)"
proof -
  have k: "is_key pu" "is_key pr"
    using keys by (simp_all add: has_key_pair_def)
  define wd1 where "wd1 = wd\<lparr>folders := fmupd (pu @ bytes_of ''.bc'') (Some fmempty) (folders wd)\<rparr>"
  have folder: "ensure_blockchain_folder pu wd = Inr wd1"
    using new by (simp add: ensure_blockchain_folder_def wd1_def)
  have empty: "disk_holds GRADIDO_BLOCK_SIZE (folder_files pu wd1) []"
    by (simp add: disk_holds_def folder_files_def wd1_def block_total_def GRADIDO_BLOCK_SIZE_def)
  obtain s0 where s0: "open_sb e pu wd1 = Inr s0" "validating GRADIDO_BLOCK_SIZE s0 [] 0"
    by (rule open_sb_ok [OF e(2) empty]) (simp_all add: block_total_def GRADIDO_BLOCK_SIZE_def)
  have st: "stores GRADIDO_BLOCK_SIZE s0 []"
    using validating_done [of GRADIDO_BLOCK_SIZE s0 "[]"] s0(2) by (simp add: GRADIDO_BLOCK_SIZE_def)
  have r: "header_record name pu = Inr (header_of name pu)"
    using name k by (simp add: header_record_def header_of_def copy_field_short)
  obtain sig where sig: "sign_material e (sb_image e (header_of name pu)) pu pr = Inr sig"
      "signature_entry pu sig = Inr (key_signature e (sb_image e (header_of name pu)) pu pr)"
    by (rule signed_ok [OF e(1) k])
  obtain s where s: "add_signed e (header_of name pu)
        (Inr (signatures_record [key_signature e (sb_image e (header_of name pu)) pu pr])) s0 = (Inr OK, s)"
      "disk_holds GRADIDO_BLOCK_SIZE (files (ft s)) ([] @ created_records e name pr pu)"
    unfolding created_records_def
    by (rule add_signed_ok [OF st]) (use validatingD(10) [OF s0(2)] in blast)+
  have "create_sb e [prog, name] wd = Inr (0, save_files pu s wd1)"
    using plain keys folder s0(1) r sig s(1) by (simp add: create_sb_def Let_def catching_def exit_code_def)
  moreover have "save_files pu s wd1 = save_files pu s wd"
    by (simp add: save_files_def wd1_def)
  ultimately show thesis
    using s(2) by (intro that) simp_all
qed

text \<open>
  Adding an administrator: any enquiry that fits into the record is accepted. No condition relates the signature of the
  enquiry to its key.
\<close>

definition admin_records :: "prog_env \<Rightarrow> bytes \<Rightarrow> bytes \<Rightarrow> bytes \<Rightarrow> bytes \<Rightarrow> bytes \<Rightarrow> Signature \<Rightarrow> SbRecord list" where
  "admin_records e pr pu apu name email asig =
     [admin_record_of apu name email,
      signatures_record [key_signature e (sb_image e (admin_record_of apu name email)) pu pr, asig]]"

lemma add_admin_ok:
  assumes e: "signs e" "splits_block_names pu (split_file_name e pu)"
    and keys: "has_key_pair (wd_files wd) pr pu" and plain: "\<not> show_version [prog]"
    and folder: "fmlookup (folders wd) (pu @ bytes_of ''.bc'') = Some (Some fs)" "disk_holds GRADIDO_BLOCK_SIZE fs ps"
    and one: "ps \<noteq> []" "length ps < GRADIDO_BLOCK_SIZE"
    and enquiry: "fmlookup (wd_files wd) enquiry_name = Some t" "parse_properties e t = Some p"
    and items: "p ''pub_key'' = Some apu" "p ''name'' = Some name" "p ''email'' = Some email" "p ''signature'' = Some asig"
    and fits: "is_key apu" "length name \<le> SB_ADMIN_NAME_LENGTH" "length email \<le> SB_EMAIL_LENGTH"
      "length (hex_to_bytes asig) = SIGNATURE_LENGTH"
  obtains s where "add_admin_to_sb e [prog] wd = Inr (0, save_files pu s (wd\<lparr>wd_files := fmdrop enquiry_name (wd_files wd)\<rparr>))"
    "disk_holds GRADIDO_BLOCK_SIZE (files (ft s)) (ps @ admin_records e pr pu apu name email
       \<lparr>sig_pubkey = hex_to_bytes apu, sig_signature = hex_to_bytes asig\<rparr>)"
proof -
  let ?asig = "\<lparr>sig_pubkey = hex_to_bytes apu, sig_signature = hex_to_bytes asig\<rparr>"
  let ?r = "admin_record_of apu name email"
  have k: "is_key pu" "is_key pr"
    using keys by (simp_all add: has_key_pair_def)
  define wd0 where "wd0 = wd\<lparr>wd_files := fmdrop enquiry_name (wd_files wd)\<rparr>"
  have ensured: "ensure_blockchain_folder pu wd0 = Inr wd0" and files: "folder_files pu wd0 = fs"
    using folder(1) by (simp_all add: ensure_blockchain_folder_def folder_files_def wd0_def)
  have total: "block_total GRADIDO_BLOCK_SIZE (length ps) = 1"
    using one by (cases ps) (simp_all add: block_total_Suc GRADIDO_BLOCK_SIZE_def)
  obtain s0 where s0: "open_sb e pu wd0 = Inr s0" "validating GRADIDO_BLOCK_SIZE s0 ps 0"
    by (rule open_sb_ok [OF e(2), of wd0 ps]) (simp_all add: files folder(2) total)
  obtain s1 where s1: "validate_next_checksum GRADIDO_BLOCK_SIZE (prog_now e) s0 = Inr ((True, OK), s1)"
      "validating GRADIDO_BLOCK_SIZE s1 ps 1"
    using validate_next_checksum_ok [OF s0(2), of "prog_now e"] total by auto
  have st: "stores GRADIDO_BLOCK_SIZE s1 ps"
    using validating_done s1(2) total by metis
  have r: "admin_record apu name email = Inr ?r"
    using fits by (simp add: admin_record_def admin_record_of_def admin_of_def copy_field_short)
  obtain sig where sig: "sign_material e (sb_image e ?r) pu pr = Inr sig" "signature_entry pu sig = Inr (key_signature e (sb_image e ?r) pu pr)"
    by (rule signed_ok [OF e(1) k])
  have entry: "signature_entry apu asig = Inr ?asig"
    using fits(1,4) by (rule signature_entry_ok)
  obtain s where s: "add_signed e ?r (Inr (signatures_record [key_signature e (sb_image e ?r) pu pr, ?asig])) s1 = (Inr OK, s)"
      "disk_holds GRADIDO_BLOCK_SIZE (files (ft s)) (ps @ admin_records e pr pu apu name email ?asig)"
    unfolding admin_records_def
    by (rule add_signed_ok [OF st]) (use validatingD(10) [OF s1(2)] in blast)+
  have "add_admin_to_sb e [prog] wd = Inr (0, save_files pu s wd0)"
    using plain keys enquiry items ensured s0(1) s1(1) r sig entry s(1)
    by (simp add: add_admin_to_sb_def Let_def AdminEnquiry_new_def get_string_def catching_def exit_code_def flip: wd0_def)
  then show thesis
    using s(2) by (intro that) (simp_all add: wd0_def)
qed

text \<open>
  What is relied on of the property files: lines of a name, an equals sign and a text are read as these pairs. The
  texts have no line ends, no backslashes and no blanks at their ends.
\<close>

definition property_text :: "bytes \<Rightarrow> bool" where
  "property_text v \<longleftrightarrow> v \<noteq> [] \<and> 10 \<notin> set v \<and> 13 \<notin> set v \<and> 92 \<notin> set v \<and> \<not> is_space (hd v) \<and> \<not> is_space (last v)"

definition property_name :: "string \<Rightarrow> bool" where
  "property_name k \<longleftrightarrow> k \<noteq> [] \<and> list_all (\<lambda>c. 97 \<le> c \<and> c \<le> 122 \<or> c = 95) (bytes_of k)"

definition reads_properties :: "(bytes \<Rightarrow> properties option) \<Rightarrow> bool" where
  "reads_properties parse \<longleftrightarrow> (\<forall>kvs. distinct (map (\<lambda>(k, v). bytes_of k) kvs) \<longrightarrow>
     list_all (\<lambda>(k, v). property_name k \<and> property_text v) kvs \<longrightarrow>
     (\<exists>p. parse (concat (map (\<lambda>(k, v). property_line k v) kvs)) = Some p \<and> (\<forall>(k, v) \<in> set kvs. p k = Some v)))"

lemma hex_property_text:
  assumes "is_hex v" "v \<noteq> []"
  shows "property_text v"
proof -
  have "c \<noteq> 10 \<and> c \<noteq> 13 \<and> c \<noteq> 92 \<and> \<not> is_space c" if "c \<in> set v" for c
  proof -
    have "48 \<le> c \<and> c \<le> 57 \<or> 97 \<le> c \<and> c \<le> 102 \<or> 65 \<le> c \<and> c \<le> 70"
      using assms(1) that by (simp add: is_hex_def list_all_iff)
    then have "48 \<le> c" "c \<noteq> 92"
      using order_trans [of 48 97 c] order_trans [of 48 65 c] by auto
    moreover from this have "\<not> c \<le> 13"
      using order_trans [of 48 c 13] by auto
    ultimately show ?thesis
      by (auto simp: is_space_def)
  qed
  then show ?thesis
    using assms(2) by (auto simp: property_text_def)
qed

lemma create_admin_enquiry_ok:
  assumes "signs e" "reads_properties (parse_properties e)" "has_key_pair afs apr apu" "\<not> show_version [prog, name, email]"
    and "property_text name" "property_text email"
  obtains t p asig where "create_admin_enquiry e [prog, name, email] afs = Inr (0, fmupd enquiry_name t afs)"
    "parse_properties e t = Some p" "p ''pub_key'' = Some apu" "p ''name'' = Some name" "p ''email'' = Some email"
    "p ''signature'' = Some asig"
    "\<lparr>sig_pubkey = hex_to_bytes apu, sig_signature = hex_to_bytes asig\<rparr> = key_signature e (name @ email @ apu) apu apr"
    "length (hex_to_bytes asig) = SIGNATURE_LENGTH"
proof -
  have k: "is_key apu" "is_key apr"
    using assms(3) by (simp_all add: has_key_pair_def)
  obtain sig where sig: "sign_material e (name @ email @ apu) apu apr = Inr sig"
      "signature_entry apu sig = Inr (key_signature e (name @ email @ apu) apu apr)" "is_hex sig" "length sig = 2 * SIGNATURE_LENGTH"
    by (rule signed_ok [OF assms(1) k])
  let ?kvs = "[(''name'', name), (''email'', email), (''pub_key'', apu), (''signature'', sig)]"
  have texts: "property_text apu" "property_text sig"
    using k(1) sig(3,4) by (auto intro!: hex_property_text simp: is_key_def KEY_LENGTH_HEX_def SIGNATURE_LENGTH_def PUB_KEY_LENGTH_def)
  have "distinct (map (\<lambda>(k, v). bytes_of k) ?kvs)" "list_all (\<lambda>(k, v). property_name k \<and> property_text v) ?kvs"
    using texts assms(5,6) by (simp_all add: bytes_of_def property_name_def)
  then obtain p where p: "parse_properties e (concat (map (\<lambda>(k, v). property_line k v) ?kvs)) = Some p"
      "\<forall>(k, v) \<in> set ?kvs. p k = Some v"
    using assms(2) unfolding reads_properties_def by blast
  have l: "length (hex_to_bytes sig) = SIGNATURE_LENGTH"
    using sig(4) by (simp add: length_hex_to_bytes)
  show thesis
    by (rule that [OF _ p(1)])
      (use p(2) sig assms(3,4) l signature_entry_ok [OF k(1) l] in \<open>simp_all add: create_admin_enquiry_def\<close>)
qed

text \<open>The indexes a node builds from the created blockchain.\<close>

lemma created_index:
  assumes "stores GRADIDO_BLOCK_SIZE s (created_records e name pr pu @ admin_records e pr pu apu aname email asig)"
  shows "\<exists>s' c. sb_add_index_data now 0 s (sb_init SubclusterBlockchain_new) = Inr (True, s', c) \<and>
    initial_key c = hex_to_bytes pu \<and> admins c = fmupd (hex_to_bytes apu) (admin_of apu aname email) fmempty"
proof -
  let ?ps = "created_records e name pr pu @ admin_records e pr pu apu aname email asig"
  let ?c = "(sb_init SubclusterBlockchain_new)\<lparr>initial_key := hex_to_bytes pu,
    admins := fmupd (hex_to_bytes apu) (admin_of apu aname email) fmempty\<rparr>"
  have four: "length ?ps = 4"
    by (simp add: created_records_def admin_records_def)
  then have total: "block_total GRADIDO_BLOCK_SIZE (length ?ps) = 1"
    by (simp add: block_total_def GRADIDO_BLOCK_SIZE_def)
  have "fold_index sb_index_record (numbered ?ps) (sb_init SubclusterBlockchain_new) = Inr (True, ?c)"
    using total
    by (simp add: numbered_def numbered_block_def block_payloads_def created_records_def admin_records_def GRADIDO_BLOCK_SIZE_def
        upt_conv_Cons sb_index_record_def header_of_def admin_record_of_def signatures_record_def SbRecord_zero_def
        do_add_index_data_def SubclusterBlockchain_new_def sb_init_def admin_of_def std_insert_absent)
  then obtain s' where "index_blocks sb_index_record now [0..<block_total GRADIDO_BLOCK_SIZE (length ?ps)] s
      (sb_init SubclusterBlockchain_new) = Inr (True, s', ?c)"
    by (rule index_all_blocks [OF assms])
  moreover have "get_checksum_valid_block_count s = block_total GRADIDO_BLOCK_SIZE (length ?ps)"
    using storesD(5) [OF assms] by (simp add: get_checksum_valid_block_count_def)
  ultimately show ?thesis
    by (simp add: sb_add_index_data_def)
qed


text \<open>An instance of the environment: a reader of property lines, and the split of block file names.\<close>

definition split_line :: "bytes \<Rightarrow> bytes \<times> bytes" where
  "split_line l = (takeWhile (\<lambda>c. c \<noteq> 32) l, drop 3 (dropWhile (\<lambda>c. c \<noteq> 32) l))"

definition sample_properties :: "bytes \<Rightarrow> properties option" where
  "sample_properties t = Some (\<lambda>k. map_of (map split_line (getlines t)) (bytes_of k))"

definition split_block_name :: "bytes \<Rightarrow> bytes \<Rightarrow> bytes option" where
  "split_block_name name fname =
     (let ds = take (length fname - (length name + 7)) (drop (length name + 1) fname)
      in if ds \<noteq> [] \<and> list_all is_digit ds \<and> fname = name @ bytes_of ''.'' @ ds @ bytes_of ''.block'' then Some ds else None)"

lemma split_block_name_splits: "splits_block_names name (split_block_name name)"
proof -
  have "take (length fname - (length name + 7)) (drop (length name + 1) fname) = ds"
    if "fname = name @ bytes_of ''.'' @ ds @ bytes_of ''.block''" for fname ds
    using that by (simp add: bytes_of_def)
  then show ?thesis
    unfolding splits_block_names_def split_block_name_def Let_def by (metis option.distinct(1) option.inject)
qed

lemma split_property_line: "property_name k \<Longrightarrow> split_line (bytes_of k @ bytes_of '' = '' @ v) = (bytes_of k, v)"
proof -
  assume "property_name k"
  then have "\<forall>c \<in> set (bytes_of k). c \<noteq> 32"
    by (auto simp: property_name_def list_all_iff)
  then show ?thesis
    using takeWhile_append2 [of "bytes_of k" "\<lambda>c. c \<noteq> 32"] dropWhile_append2 [of "bytes_of k" "\<lambda>c. c \<noteq> 32"]
    by (simp add: split_line_def bytes_of_def [of "'' = ''"])
qed

lemma sample_properties_reads: "reads_properties sample_properties"
  unfolding reads_properties_def
proof (intro allI impI)
  fix kvs :: "(string \<times> bytes) list"
  assume d: "distinct (map (\<lambda>(k, v). bytes_of k) kvs)" and l: "list_all (\<lambda>(k, v). property_name k \<and> property_text v) kvs"
  let ?lines = "map (\<lambda>(k, v). bytes_of k @ bytes_of '' = '' @ v) kvs"
  have "concat (map (\<lambda>(k, v). property_line k v) kvs) = concat (map (\<lambda>i. i @ [10]) ?lines)"
    by (simp add: property_line_def comp_def case_prod_unfold)
  moreover have "\<forall>i \<in> set ?lines. 10 \<notin> set i"
    using l by (fastforce simp: list_all_iff property_name_def property_text_def bytes_of_def)
  ultimately have lines: "getlines (concat (map (\<lambda>(k, v). property_line k v) kvs)) = ?lines"
    by (simp only: getlines_lines)
  have pairs: "map split_line ?lines = map (\<lambda>(k, v). (bytes_of k, v)) kvs"
    using l split_property_line by (auto simp: list_all_iff)
  have "map_of (map (\<lambda>(k, v). (bytes_of k, v)) kvs) (bytes_of k) = Some v" if "(k, v) \<in> set kvs" for k v
    using d that by (intro map_of_is_SomeI) (force simp: comp_def case_prod_unfold)+
  then show "\<exists>p. sample_properties (concat (map (\<lambda>(k, v). property_line k v) kvs)) = Some p \<and> (\<forall>(k, v) \<in> set kvs. p k = Some v)"
    unfolding sample_properties_def lines pairs by auto
qed

definition sample_env :: prog_env where
  "sample_env = \<lparr>ed25519_sign = (\<lambda>m pk sk. take SIGNATURE_LENGTH (sk @ pk @ replicate SIGNATURE_LENGTH 0)), sb_image = (\<lambda>_. []),
     sb_sha = (\<lambda>x. x), sb_img = (\<lambda>_. []), split_file_name = split_block_name, parse_properties = sample_properties, prog_now = 0\<rparr>"

definition sample_key_files :: "u8 \<Rightarrow> u8 \<Rightarrow> file_table" where
  "sample_key_files a b = fmupd identity_priv_name (replicate KEY_LENGTH_HEX a) (fmupd identity_pub_name (replicate KEY_LENGTH_HEX b) fmempty)"


section \<open>Refusals\<close>

text \<open>Without an identity, or with half of one, the programs leave the directory as it is.\<close>

lemma no_identity_no_change:
  assumes "fmlookup (wd_files wd) identity_pub_name = None" "\<not> show_version [prog, name]"
  shows "create_sb e [prog, name] wd \<in> {Inr (2, wd), Inr (3, wd)}" "add_admin_to_sb e [prog] wd \<in> {Inr (2, wd), Inr (3, wd)}"
  using assms
  by (auto simp: create_sb_def add_admin_to_sb_def KpIdentity_init_def KpIdentity_new_def rethrow_def read_key_from_file_def
      show_version_def bind_res_def split: option.splits if_splits)

text \<open>
  The enquiry is removed when it is read, so it is lost if the administrator is not added: here a file is in the place of the
  folder.
\<close>

lemma enquiry_lost:
  assumes "has_key_pair (wd_files wd) pr pu" "\<not> show_version [prog]"
    and "fmlookup (wd_files wd) enquiry_name = Some t" "parse_properties e t = Some p"
    and "p ''pub_key'' = Some apu" "p ''name'' = Some name" "p ''email'' = Some email" "p ''signature'' = Some asig"
    and "fmlookup (folders wd) (pu @ bytes_of ''.bc'') = Some None"
  shows "add_admin_to_sb e [prog] wd = Inr (6, wd\<lparr>wd_files := fmdrop enquiry_name (wd_files wd)\<rparr>)"
  using assms by (simp add: add_admin_to_sb_def Let_def AdminEnquiry_new_def get_string_def ensure_blockchain_folder_def catching_def)

text \<open>An enquiry without one of its items ends the program with an exception that no handler catches.\<close>

lemma incomplete_enquiry_uncaught:
  assumes "has_key_pair (wd_files wd) pr pu" "\<not> show_version [prog]"
    and "fmlookup (wd_files wd) enquiry_name = Some t" "parse_properties e t = Some p" "p ''pub_key'' = None"
  shows "\<exists>msg. add_admin_to_sb e [prog] wd = Inl (Throw msg)"
  using assms by (simp add: add_admin_to_sb_def Let_def AdminEnquiry_new_def get_string_def)

text \<open>A name that is longer than its field overruns it.\<close>

lemma long_name_overruns:
  assumes "SB_SUBCLUSTER_NAME_LENGTH < length name"
  shows "header_record name k = Inl (Undefined ''buffer overrun'')"
  using assms by (simp add: header_record_def copy_field_def)

end
